(* ===== verification/Prelude.thy ===== *)
theory Prelude
  imports Main "HOL-Library.Word"
begin

text \<open>
  Shared vocabulary of the development: the byte type of a MicroPython
  \<open>bytearray\<close> cell, the exceptions the driver can raise, the outcome of a
  Python statement (normal completion or an exception, each with the state
  reached at that point), and the Python operations on ints, tuples and
  bytearrays that the driver uses, each with its failure written out.
  The evaluation rules of these operations are collected in \<open>py_simps\<close>.
\<close>

unbundle bit_operations_syntax

named_theorems py_simps "evaluation rules of the modelled Python operations"

type_synonym byte = "8 word"

subsection \<open>Exceptions and statement outcomes\<close>

text \<open>The exceptions raised by the code (\<open>OSError\<close> is the transport's).\<close>

datatype py_error = IndexError | ValueError | AttributeError | OSError

text \<open>
  A statement either completes with a new state or raises; Python keeps the
  mutations made before the raise, so the exception carries the state too.
\<close>

datatype 's outcome = Ok 's | Exc py_error 's

text \<open>Sequencing of two statements: the second runs only if the first completed.\<close>

primrec obind :: "'s outcome \<Rightarrow> ('s \<Rightarrow> 's outcome) \<Rightarrow> 's outcome" where
  "obind (Ok s) f = f s"
| "obind (Exc e s) f = Exc e s"

text \<open>An expression that may raise, evaluated in state \<open>s\<close>: on \<open>Inl e\<close> the
  statement raises \<open>e\<close> with \<open>s\<close> unchanged.\<close>

definition try_r :: "py_error + 'a \<Rightarrow> 's \<Rightarrow> ('a \<Rightarrow> 's outcome) \<Rightarrow> 's outcome" where
  "try_r r s f = (case r of Inl e \<Rightarrow> Exc e s | Inr x \<Rightarrow> f x)"

text \<open>
  A Python \<open>for\<close> loop over a list, with the loop's variables as state: the
  body runs once per element and the first exception ends the loop.
\<close>

primrec for_each :: "('a \<Rightarrow> 's \<Rightarrow> 's outcome) \<Rightarrow> 'a list \<Rightarrow> 's \<Rightarrow> 's outcome" where
  "for_each body [] s = Ok s"
| "for_each body (x # xs) s = obind (body x s) (for_each body xs)"

text \<open>\<open>range(8)\<close>, the row indices the driver loops over.\<close>

definition range8 :: "int list" where
  "range8 = map int [0..<8]"

subsection \<open>Python ints, tuples and bytearrays\<close>

text \<open>
  Python (and MicroPython) index normalisation: a negative index counts from
  the end; anything outside \<open>-n ..< n\<close> raises \<open>IndexError\<close>.
\<close>

definition py_index :: "nat \<Rightarrow> int \<Rightarrow> nat option" where
  "py_index n i =
     (let j = (if i < 0 then int n + i else i)
      in if 0 \<le> j \<and> j < int n then Some (nat j) else None)"

text \<open>Reading an element of a tuple or list, \<open>xs[i]\<close>.\<close>

definition seq_get :: "'a list \<Rightarrow> int \<Rightarrow> py_error + 'a" where
  "seq_get xs i = (case py_index (length xs) i of None \<Rightarrow> Inl IndexError | Some j \<Rightarrow> Inr (xs ! j))"

text \<open>Reading a \<open>bytearray\<close> cell gives an int in \<open>0..255\<close>.\<close>

definition ba_get :: "byte list \<Rightarrow> int \<Rightarrow> py_error + int" where
  "ba_get b i = (case py_index (length b) i of None \<Rightarrow> Inl IndexError | Some j \<Rightarrow> Inr (uint (b ! j)))"

text \<open>
  Storing into a \<open>bytearray\<close> cell, \<open>b[i] = v\<close>: the index is checked; MicroPython
  stores the value truncated to its low 8 bits (\<open>word_of_int\<close>), it raises no
  \<open>ValueError\<close> for values outside \<open>0..255\<close> as CPython does.
\<close>

definition ba_set :: "byte list \<Rightarrow> int \<Rightarrow> int \<Rightarrow> py_error + byte list" where
  "ba_set b i v = (case py_index (length b) i of None \<Rightarrow> Inl IndexError | Some j \<Rightarrow> Inr (b[j := word_of_int v]))"

text \<open>Shifts on Python ints: a negative shift count raises \<open>ValueError\<close>.\<close>

definition py_rshift :: "int \<Rightarrow> int \<Rightarrow> py_error + int" where
  "py_rshift x n = (if n < 0 then Inl ValueError else Inr (drop_bit (nat n) x))"

definition py_lshift :: "int \<Rightarrow> int \<Rightarrow> py_error + int" where
  "py_lshift x n = (if n < 0 then Inl ValueError else Inr (push_bit (nat n) x))"

subsection \<open>Evaluation rules\<close>

lemma try_r_simps [simp, py_simps]:
  "try_r (Inl e) s f = Exc e s"
  "try_r (Inr x) s f = f x"
  by (simp_all add: try_r_def)

lemma obind_Ok_iff [simp]:
  "obind r f = Ok s' \<longleftrightarrow> (\<exists>s. r = Ok s \<and> f s = Ok s')"
  by (cases r) auto

lemma for_each_append:
  "for_each body (xs @ ys) s = obind (for_each body xs s) (for_each body ys)"
  by (induction xs arbitrary: s) (simp_all, metis obind.simps outcome.exhaust)

text \<open>A loop whose body completes with \<open>f x s\<close> while an invariant holds is a fold.\<close>

lemma for_each_fold:
  assumes "\<And>x s. x \<in> set xs \<Longrightarrow> I s \<Longrightarrow> body x s = Ok (f x s) \<and> I (f x s)"
    and "I s"
  shows "for_each body xs s = Ok (fold f xs s)"
  using assms by (induction xs arbitrary: s) auto

lemma range8_eq [py_simps]: "range8 = [0, 1, 2, 3, 4, 5, 6, 7]"
  by (simp add: range8_def upt_rec)

lemma py_index_in_range [simp, py_simps]:
  "0 \<le> i \<Longrightarrow> i < int n \<Longrightarrow> py_index n i = Some (nat i)"
  by (simp add: py_index_def)

lemma py_index_negative [py_simps]:
  "i < 0 \<Longrightarrow> - int n \<le> i \<Longrightarrow> py_index n i = Some (nat (int n + i))"
  by (simp add: py_index_def)

lemma py_index_None_iff:
  "py_index n i = None \<longleftrightarrow> i < - int n \<or> int n \<le> i"
  by (auto simp: py_index_def Let_def)

lemma py_index_Some_less:
  "py_index n i = Some j \<Longrightarrow> j < n"
  by (auto simp: py_index_def Let_def split: if_splits)

lemma ba_get_in_range [simp, py_simps]:
  "0 \<le> i \<Longrightarrow> i < int (length b) \<Longrightarrow> ba_get b i = Inr (uint (b ! nat i))"
  by (simp add: ba_get_def)

lemma ba_set_in_range [simp, py_simps]:
  "0 \<le> i \<Longrightarrow> i < int (length b) \<Longrightarrow> ba_set b i v = Inr (b[nat i := word_of_int v])"
  by (simp add: ba_set_def)

lemma seq_get_in_range [simp, py_simps]:
  "0 \<le> i \<Longrightarrow> i < int (length xs) \<Longrightarrow> seq_get xs i = Inr (xs ! nat i)"
  by (simp add: seq_get_def)

lemma ba_set_length:
  "ba_set b i v = Inr b' \<Longrightarrow> length b' = length b"
  by (auto simp: ba_set_def split: option.splits)

lemma py_rshift_nonneg [simp, py_simps]:
  "0 \<le> n \<Longrightarrow> py_rshift x n = Inr (drop_bit (nat n) x)"
  by (simp add: py_rshift_def)

lemma py_lshift_nonneg [simp, py_simps]:
  "0 \<le> n \<Longrightarrow> py_lshift x n = Inr (push_bit (nat n) x)"
  by (simp add: py_lshift_def)

lemma py_rshift_negative [simp, py_simps]:
  "n < 0 \<Longrightarrow> py_rshift x n = Inl ValueError"
  by (simp add: py_rshift_def)

text \<open>Bits of the int masks the driver uses (\<open>0xFF\<close>, \<open>0x7F\<close>, \<open>0x80\<close>, \<open>0x01\<close>).\<close>

lemma bit_int_255 [simp]: "bit (255::int) k \<longleftrightarrow> k < 8"
  using bit_mask_iff [of 8 k, where 'a = int] by (simp add: mask_eq_exp_minus_1)

lemma bit_int_127 [simp]: "bit (127::int) k \<longleftrightarrow> k < 7"
  using bit_mask_iff [of 7 k, where 'a = int] by (simp add: mask_eq_exp_minus_1)

lemma bit_int_128 [simp]: "bit (128::int) k \<longleftrightarrow> k = 7"
  using bit_exp_iff [of 7 k, where 'a = int] by simp

lemma int_and_one_nonzero [simp]: "(v AND 1 \<noteq> (0::int)) \<longleftrightarrow> bit v 0"
  by (simp add: and_one_eq odd_iff_mod_2_eq_one bit_0)

text \<open>A byte value read back after a store of an in-range int is that int.\<close>

lemma uint_word_of_int_byte [simp]:
  "0 \<le> v \<Longrightarrow> v < 256 \<Longrightarrow> uint (word_of_int v :: byte) = v"
  by (simp add: uint_word_of_int_eq take_bit_int_eq_self)

end
