(* ===== verification/Rotate.thy ===== *)
theory Rotate
  imports Prelude
begin

text \<open>
  The bit transform of the driver: \<open>rotate_right\<close> (\<open>src/matrix8x8.py\<close>, the
  module-level function at the end of the file) turns a frame-buffer row byte
  into the byte the HT16K33 display RAM expects for this backpack's wiring.
  It is modelled on Python ints, as written, and shown to be the one-bit right
  rotation \<open>word_rotr 1\<close> of the low byte of its argument; from that follow its
  bit-level specification, its range, the round trip with \<open>word_rotl 1\<close> and
  that eight applications give the low byte back.
\<close>

unbundle bit_operations_syntax

definition rotate_right :: "int \<Rightarrow> int" where
  "rotate_right byte =
     (let byte = byte AND 0xFF;
          b0 = byte AND 0x01;
          byte = drop_bit 1 byte
      in if b0 \<noteq> 0 then byte OR 0x80 else byte)"

subsection \<open>Bit-level behaviour\<close>

text \<open>Bit \<open>n\<close> of the result is bit \<open>n + 1\<close> of the argument, and bit 7 is bit 0.\<close>

lemma bit_rotate_right:
  "bit (rotate_right v) n \<longleftrightarrow> n < 8 \<and> bit v ((n + 1) mod 8)"
proof -
  consider "n < 7" | "n = 7" | "n > 7" by linarith
  then show ?thesis
    by cases (auto simp: rotate_right_def Let_def bit_drop_bit_eq bit_and_iff bit_or_iff)
qed

text \<open>Applying it \<open>n + 1\<close> times rotates the low byte by \<open>n + 1\<close> places.\<close>

lemma funpow_rotate_right:
  "(rotate_right ^^ Suc n) v = uint (word_rotr (Suc n) (word_of_int v :: byte))"
proof (induction n)
  case 0
  show ?case
    by (auto intro!: bit_eqI simp: bit_rotate_right bit_uint_iff bit_word_rotr_iff bit_word_of_int_iff)
next
  case (Suc n)
  have "rotate_right (uint w) = uint (word_rotr 1 w)" for w :: byte
    by (auto intro!: bit_eqI simp: bit_rotate_right bit_uint_iff bit_word_rotr_iff)
  with Suc show ?case
    by (simp add: word_rotr_word_rotr_eq)
qed

text \<open>On a byte read from the buffer, it is \<open>word_rotr 1\<close> of that byte.\<close>

lemma word_of_rotate_right_uint [simp]:
  "(word_of_int (rotate_right (uint w)) :: byte) = word_rotr 1 w"
  using funpow_rotate_right [of 0 "uint w"] by simp

text \<open>For evaluating a rotation of a concrete byte by \<open>simp\<close>.\<close>

lemma word_rotr_1_eval: "word_rotr (Suc 0) (w :: byte) = word_of_int (rotate_right (uint w))"
  by simp

lemma word_rotr_8_byte [simp]: "word_rotr 8 (w :: byte) = w"
  by (rule bit_word_eqI) (simp add: bit_word_rotr_iff)

subsection \<open>Properties\<close>

text \<open>
  C1. \<open>rotate_right\<close>, written on Python ints with a mask, a shift and a
  conditional OR, is exactly the one-place right rotation of the low byte of
  its argument (bit 0 moves to bit 7, the others move down one place).
\<close>

theorem rotate_right_eq_word_rotr:
  "rotate_right v = uint (word_rotr 1 (word_of_int v :: byte))"
  using funpow_rotate_right [of 0 v] by simp

text \<open>
  C2. Whatever int it is given (also negative or wider than a byte),
  \<open>rotate_right\<close> returns a value in \<open>0..255\<close>, so storing it in a
  \<open>bytearray\<close> cell or a \<open>bytes\<close> object never truncates it.
\<close>

theorem rotate_right_range:
  "0 \<le> rotate_right v \<and> rotate_right v < 256"
proof -
  have "uint (word_rotr 1 (word_of_int v :: byte)) < 2 ^ LENGTH(8)"
    by (rule uint_bounded)
  then show ?thesis
    using funpow_rotate_right [of 0 v] by simp
qed

text \<open>
  C3. Rotating the result one place to the left gives back the low byte of the
  argument: \<open>rotate_left(rotate_right(b)) == b\<close> for every byte \<open>b\<close>.
\<close>

theorem rotate_left_rotate_right:
  "(word_rotl 1 (word_of_int (rotate_right v)) :: byte) = word_of_int v"
  using funpow_rotate_right [of 0 v] by simp

text \<open>
  C4. Applying \<open>rotate_right\<close> eight times gives the low byte of the argument
  back; on a byte \<open>0..255\<close> it is the identity.
\<close>

theorem rotate_right_8_times:
  "(rotate_right ^^ 8) v = v mod 256"
proof -
  have "(rotate_right ^^ Suc 7) v = uint (word_of_int v :: byte)"
    using funpow_rotate_right [of 7 v] by simp
  then show ?thesis
    by (simp add: uint_word_of_int_eq take_bit_eq_mod)
qed

end
