(* ===== verification/Transport.thy ===== *)
theory Transport
  imports Prelude
begin

text \<open>
  The transport the driver calls through: \<open>pyb.I2C.send(data, addr)\<close>, reached
  from \<open>Matrix8x8._send\<close>. The driver passes either an int (a one-byte command)
  or a \<open>bytes\<close>/\<open>bytearray\<close> buffer; \<open>msg\<close> records which. A transport is any
  function from its own state, a message and the bus address to a new state or
  an exception (\<open>OSError\<close> on a bus error); the driver's lemmas hold for every
  transport. Two transports are given here: \<open>log_bus\<close>, which records every
  write, and \<open>wire_of\<close> says which bytes a message puts on the bus (an int is sent
  as one byte, truncated to its low 8 bits, as \<open>pyb.I2C.send\<close> does).
\<close>

datatype msg = Byte int | Bytes "byte list"

type_synonym 't transport = "'t \<Rightarrow> msg \<Rightarrow> int \<Rightarrow> py_error + 't"

definition wire_of :: "msg \<Rightarrow> byte list" where
  "wire_of d = (case d of Byte n \<Rightarrow> [word_of_int n] | Bytes bs \<Rightarrow> bs)"

text \<open>A bus that never fails and keeps the list of (address, message) writes.\<close>

definition log_bus :: "(int \<times> msg) list transport" where
  "log_bus l d a = Inr (l @ [(a, d)])"

lemma wire_of_simps [simp]:
  "wire_of (Byte n) = [word_of_int n]"
  "wire_of (Bytes bs) = bs"
  by (simp_all add: wire_of_def)

lemma log_bus_Inr [simp]: "log_bus l d a = Inr (l @ [(a, d)])"
  by (simp add: log_bus_def)

end
