(* ===== verification/Matrix8x8.thy ===== *)
theory Matrix8x8
  imports Rotate Transport
begin

text \<open>
  The driver class \<open>Matrix8x8\<close> of \<open>src/matrix8x8.py\<close>. The object is the record
  \<open>matrix8x8\<close>: the attributes \<open>_blinking\<close>, \<open>addr\<close>, \<open>buf\<close>, \<open>is_on\<close> (absent
  until \<open>on\<close> or \<open>off\<close> first runs, hence an option) and \<open>i2c\<close>, the state of the
  transport. Every method is a function from the transport and the object to
  the statement outcome, in the order of the source: the private helpers
  (\<open>_send\<close>, \<open>_send_row\<close>, \<open>_send_buf\<close>, \<open>_clear_column\<close>, \<open>_set_column\<close>), the
  public methods, and \<open>__init__\<close>. Each loop of the source is a \<open>for_each\<close> over
  the same list with the loop's variables as its state.
\<close>

unbundle bit_operations_syntax

record 't matrix8x8 =
  blinking :: int
  addr :: int
  buf :: "byte list"
  is_on :: "bool option"
  i2c :: 't

text \<open>The class attribute \<open>row_addr\<close>: display-RAM address of each row.\<close>

definition row_addr :: "int list" where
  "row_addr = [0x00, 0x02, 0x04, 0x06, 0x08, 0x0A, 0x0C, 0x0E]"

text \<open>Running a buffer-only statement on the object's \<open>buf\<close>.\<close>

definition with_buf :: "(byte list \<Rightarrow> byte list outcome) \<Rightarrow> 't matrix8x8 \<Rightarrow> 't matrix8x8 outcome" where
  "with_buf f m = map_outcome (\<lambda>b. m\<lparr>buf := b\<rparr>) (f (buf m))"

subsection \<open>Private helpers\<close>

definition send_i2c :: "'t transport \<Rightarrow> msg \<Rightarrow> 't matrix8x8 \<Rightarrow> 't matrix8x8 outcome" where
  "send_i2c tr data m =
     (case tr (i2c m) data (addr m) of Inl e \<Rightarrow> Exc e m | Inr t \<Rightarrow> Ok (m\<lparr>i2c := t\<rparr>))"

definition send_row :: "'t transport \<Rightarrow> int \<Rightarrow> 't matrix8x8 \<Rightarrow> 't matrix8x8 outcome" where
  "send_row tr row m =
     try_r (seq_get row_addr row) m (\<lambda>ra.
     try_r (ba_get (buf m) row) m (\<lambda>v.
       send_i2c tr (Bytes [word_of_int ra, word_of_int (rotate_right v)]) m))"

text \<open>One pass of the loop of \<open>_send_buf\<close>: \<open>data[i] = rotate_right(byte); i += 2\<close>.\<close>

definition fill_step :: "byte \<Rightarrow> int \<times> byte list \<Rightarrow> (int \<times> byte list) outcome" where
  "fill_step byte s =
     (case s of (i, data) \<Rightarrow>
        try_r (ba_set data i (rotate_right (uint byte))) s (\<lambda>data'. Ok (i + 2, data')))"

definition send_buf :: "'t transport \<Rightarrow> 't matrix8x8 \<Rightarrow> 't matrix8x8 outcome" where
  "send_buf tr m =
     (case for_each fill_step (buf m) (1, replicate 16 0) of
        Exc e _ \<Rightarrow> Exc e m
      | Ok (_, data) \<Rightarrow> send_i2c tr (Bytes data) m)"

text \<open>One pass of the loop of \<open>_clear_column\<close>.\<close>

definition clear_column_step :: "int \<Rightarrow> int \<Rightarrow> byte list \<Rightarrow> byte list outcome" where
  "clear_column_step msk row b =
     try_r (ba_get b row) b (\<lambda>v.
       if v AND msk \<noteq> 0 then try_r (ba_set b row (v XOR msk)) b Ok else Ok b)"

definition clear_column_in_buf :: "int \<Rightarrow> byte list \<Rightarrow> byte list outcome" where
  "clear_column_in_buf column b =
     try_r (py_rshift 0x80 column) b (\<lambda>msk. for_each (clear_column_step msk) range8 b)"

text \<open>One pass of the loop of \<open>_set_column\<close>; its state is \<open>(msk, buf)\<close>.\<close>

definition set_column_step :: "int \<Rightarrow> int \<Rightarrow> int \<Rightarrow> int \<times> byte list \<Rightarrow> (int \<times> byte list) outcome" where
  "set_column_step column byte row s =
     (case s of (msk, b) \<Rightarrow>
        let shift = column - row in
        try_r (ba_get b row) s (\<lambda>v.
        try_r (if 0 \<le> shift then py_rshift (byte AND msk) shift
               else py_lshift (byte AND msk) \<bar>shift\<bar>) s (\<lambda>bits.
        try_r (ba_set b row (v OR bits)) s (\<lambda>b'.
          Ok (drop_bit 1 msk, b')))))"

definition set_column_in_buf :: "int \<Rightarrow> int \<Rightarrow> byte list \<Rightarrow> byte list outcome" where
  "set_column_in_buf column byte b =
     obind (clear_column_in_buf column b) (\<lambda>b.
       if byte = 0 then Ok b
       else map_outcome snd (for_each (set_column_step column byte) range8 (0x80, b)))"

subsection \<open>Public methods\<close>

definition on :: "'t transport \<Rightarrow> 't matrix8x8 \<Rightarrow> 't matrix8x8 outcome" where
  "on tr m =
     (let m = m\<lparr>is_on := Some True\<rparr> in
      send_i2c tr (Byte (0x81 OR push_bit 1 (blinking m))) m)"

definition off :: "'t transport \<Rightarrow> 't matrix8x8 \<Rightarrow> 't matrix8x8 outcome" where
  "off tr m = send_i2c tr (Byte 0x80) (m\<lparr>is_on := Some False\<rparr>)"

definition set_brightness :: "'t transport \<Rightarrow> int \<Rightarrow> 't matrix8x8 \<Rightarrow> 't matrix8x8 outcome" where
  "set_brightness tr value m = send_i2c tr (Byte (0xE0 OR value)) m"

definition set_blinking :: "'t transport \<Rightarrow> int \<Rightarrow> 't matrix8x8 \<Rightarrow> 't matrix8x8 outcome" where
  "set_blinking tr mode m =
     (let m = m\<lparr>blinking := mode\<rparr> in
      case is_on m of
        None \<Rightarrow> Exc AttributeError m
      | Some True \<Rightarrow> on tr m
      | Some False \<Rightarrow> Ok m)"

text \<open>\<open>set\<close> (renamed: \<open>set\<close> is the HOL set of a list).\<close>

definition set_bitmap :: "'t transport \<Rightarrow> int list \<Rightarrow> 't matrix8x8 \<Rightarrow> 't matrix8x8 outcome" where
  "set_bitmap tr bitmap m = send_buf tr (m\<lparr>buf := map word_of_int bitmap\<rparr>)"

definition zero_step :: "int \<Rightarrow> byte list \<Rightarrow> byte list outcome" where
  "zero_step i b = try_r (ba_set b i 0) b Ok"

definition clear :: "'t transport \<Rightarrow> 't matrix8x8 \<Rightarrow> 't matrix8x8 outcome" where
  "clear tr m = obind (with_buf (for_each zero_step range8) m) (send_buf tr)"

definition set_row :: "'t transport \<Rightarrow> int \<Rightarrow> int \<Rightarrow> 't matrix8x8 \<Rightarrow> 't matrix8x8 outcome" where
  "set_row tr row byte m =
     try_r (ba_set (buf m) row byte) m (\<lambda>b. send_row tr row (m\<lparr>buf := b\<rparr>))"

definition clear_row :: "'t transport \<Rightarrow> int \<Rightarrow> 't matrix8x8 \<Rightarrow> 't matrix8x8 outcome" where
  "clear_row tr row m = set_row tr row 0 m"

definition set_column :: "'t transport \<Rightarrow> int \<Rightarrow> int \<Rightarrow> 't matrix8x8 \<Rightarrow> 't matrix8x8 outcome" where
  "set_column tr column byte m = obind (with_buf (set_column_in_buf column byte) m) (send_buf tr)"

definition clear_column :: "'t transport \<Rightarrow> int \<Rightarrow> 't matrix8x8 \<Rightarrow> 't matrix8x8 outcome" where
  "clear_column tr column m = obind (with_buf (clear_column_in_buf column) m) (send_buf tr)"

definition set_pixel :: "'t transport \<Rightarrow> int \<Rightarrow> int \<Rightarrow> 't matrix8x8 \<Rightarrow> 't matrix8x8 outcome" where
  "set_pixel tr row column m =
     try_r (ba_get (buf m) row) m (\<lambda>v.
     try_r (py_rshift 0x80 column) m (\<lambda>msk.
     try_r (ba_set (buf m) row (v OR msk)) m (\<lambda>b.
       send_row tr row (m\<lparr>buf := b\<rparr>))))"

definition clear_pixel :: "'t transport \<Rightarrow> int \<Rightarrow> int \<Rightarrow> 't matrix8x8 \<Rightarrow> 't matrix8x8 outcome" where
  "clear_pixel tr row column m =
     try_r (ba_get (buf m) row) m (\<lambda>v.
     try_r (py_rshift 0x80 column) m (\<lambda>msk.
     try_r (ba_set (buf m) row (v AND NOT msk)) m (\<lambda>b.
       send_row tr row (m\<lparr>buf := b\<rparr>))))"

subsection \<open>Construction\<close>

text \<open>
  \<open>__init__(i2c_bus, addr, brightness, i2c)\<close>: \<open>t\<close> is the state of the I2C object
  the driver uses (the one passed in, or the \<open>pyb.I2C\<close> it creates; bus set-up is
  the platform's). The attribute assignments, then the four calls in order.
\<close>

definition init :: "'t transport \<Rightarrow> 't \<Rightarrow> int \<Rightarrow> int \<Rightarrow> 't matrix8x8 outcome" where
  "init tr t a brightness =
     (let m = \<lparr>blinking = 0, addr = a, buf = replicate 8 0, is_on = None, i2c = t\<rparr> in
      obind (send_i2c tr (Byte 0x21) m) (\<lambda>m.
      obind (set_brightness tr brightness m) (\<lambda>m.
      obind (clear tr m) (on tr))))"

text \<open>
  The I2C set-up of \<open>__init__\<close>: \<open>if i2c: self.i2c = i2c else: self.i2c =
  pyb.I2C(i2c_bus, pyb.I2C.MASTER, baudrate=400000)\<close>. The argument \<open>i2c\<close> (here
  \<open>i2c_arg\<close>, as \<open>i2c\<close> is the attribute) is an I2C object, which is truthy, or
  \<open>None\<close>; \<open>mk_i2c\<close> is the platform's constructor of a bus master.
\<close>

definition i2c_setup :: "(int \<Rightarrow> 't) \<Rightarrow> int \<Rightarrow> 't option \<Rightarrow> 't" where
  "i2c_setup mk_i2c i2c_bus i2c_arg = (case i2c_arg of Some t \<Rightarrow> t | None \<Rightarrow> mk_i2c i2c_bus)"

text \<open>\<open>Matrix8x8(i2c_bus, addr, brightness, i2c)\<close>: the whole constructor (defaults
  \<open>1, 0x70, 15, None\<close>).\<close>

definition matrix8x8_new ::
  "'t transport \<Rightarrow> (int \<Rightarrow> 't) \<Rightarrow> int \<Rightarrow> int \<Rightarrow> int \<Rightarrow> 't option \<Rightarrow> 't matrix8x8 outcome" where
  "matrix8x8_new tr mk_i2c i2c_bus a brightness i2c_arg =
     init tr (i2c_setup mk_i2c i2c_bus i2c_arg) a brightness"

end
