(* ===== verification/Wire.thy ===== *)
theory Wire
  imports Matrix8x8
begin

text \<open>
  What the driver puts on the bus for the frame buffer. \<open>wire_frame\<close> is the
  16-byte display-RAM image of spec section 6 (an unused zero byte, then the
  rotated row, for each row; zero padding after the last row), and
  \<open>decode_frame\<close> reads the eight rows back from such an image. The lemmas
  show that the loop of \<open>_send_buf\<close> computes \<open>wire_frame\<close> for buffers of at
  most 8 rows and raises \<open>IndexError\<close> for longer ones, and what \<open>_send_row\<close>
  sends for each valid (also negative) row index.
\<close>

definition wire_frame :: "byte list \<Rightarrow> byte list" where
  "wire_frame b = concat (map (\<lambda>w. [0, word_rotr 1 w]) b) @ replicate (16 - 2 * length b) 0"

definition decode_frame :: "byte list \<Rightarrow> byte list" where
  "decode_frame f = map (\<lambda>j. word_rotl 1 (f ! (2 * j + 1))) [0..<8]"

lemma length_concat_pairs [simp]:
  "length (concat (map (\<lambda>w. [x w, y w]) b)) = 2 * length b"
  by (induction b) simp_all

lemma length_wire_frame [simp]:
  "length b \<le> 8 \<Longrightarrow> length (wire_frame b) = 16"
  by (simp add: wire_frame_def)

lemma wire_frame_snoc:
  assumes "length d < 8"
  shows "(wire_frame d)[2 * length d + 1 := word_rotr 1 w] = wire_frame (d @ [w])"
proof -
  define k where "k = 14 - 2 * length d"
  have k: "16 - 2 * length d = Suc (Suc k)" and k': "16 - 2 * length (d @ [w]) = k"
    using assms by (simp_all add: k_def)
  have "(replicate (Suc (Suc k)) (0::byte))[Suc 0 := word_rotr 1 w] = [0, word_rotr 1 w] @ replicate k 0"
    by simp
  then show ?thesis
    unfolding wire_frame_def k k' by (simp add: list_update_append)
qed

lemma fill_loop:
  "length d + length b \<le> 8 \<Longrightarrow>
   for_each fill_step b (2 * int (length d) + 1, wire_frame d)
     = Ok (2 * int (length (d @ b)) + 1, wire_frame (d @ b))"
proof (induction b arbitrary: d)
  case Nil
  then show ?case by simp
next
  case (Cons w b)
  have step: "fill_step w (2 * int (length d) + 1, wire_frame d)
      = Ok (2 * int (length (d @ [w])) + 1, wire_frame (d @ [w]))"
    using Cons.prems wire_frame_snoc [of d w]
    by (simp add: fill_step_def nat_add_distrib nat_mult_distrib)
  have "for_each fill_step b (2 * int (length (d @ [w])) + 1, wire_frame (d @ [w]))
      = Ok (2 * int (length ((d @ [w]) @ b)) + 1, wire_frame ((d @ [w]) @ b))"
    using Cons.prems by (intro Cons.IH) simp
  with step show ?case by simp
qed

lemma wire_frame_Nil: "wire_frame [] = replicate 16 0"
  by (simp add: wire_frame_def)

lemma fill_loop_short:
  "length b \<le> 8 \<Longrightarrow> for_each fill_step b (1, replicate 16 0) = Ok (2 * int (length b) + 1, wire_frame b)"
  using fill_loop [of "[]" b] by (simp add: wire_frame_Nil)

lemma fill_loop_long:
  assumes "8 < length b"
  shows "\<exists>s. for_each fill_step b (1, replicate 16 0) = Exc IndexError s"
proof -
  obtain w ws where d: "drop 8 b = w # ws"
    using assms by (cases "drop 8 b") auto
  have pre: "for_each fill_step (take 8 b) (1, replicate 16 0) = Ok (17, wire_frame (take 8 b))"
    using fill_loop_short [of "take 8 b"] assms by simp
  have "fill_step w (17, wire_frame (take 8 b)) = Exc IndexError (17, wire_frame (take 8 b))"
    using assms by (simp add: fill_step_def ba_set_def py_index_def)
  moreover have "b = take 8 b @ w # ws"
    using d by (metis append_take_drop_id)
  ultimately show ?thesis
    using pre for_each_append [of fill_step "take 8 b" "w # ws"] by (metis for_each.simps(2) obind.simps)
qed

subsection \<open>What \<open>_send_buf\<close> and \<open>_send_row\<close> send\<close>

lemma send_buf_eq:
  "send_buf tr m =
     (if length (buf m) \<le> 8 then send_i2c tr (Bytes (wire_frame (buf m))) m
      else Exc IndexError m)"
proof (cases "length (buf m) \<le> 8")
  case True
  then show ?thesis by (simp add: send_buf_def fill_loop_short)
next
  case False
  then obtain s where "for_each fill_step (buf m) (1, replicate 16 0) = Exc IndexError s"
    using fill_loop_long by fastforce
  with False show ?thesis by (simp add: send_buf_def)
qed

lemma row_addr_eq: "row_addr = map (\<lambda>j. 2 * int j) [0..<8]"
  by (simp add: row_addr_def upt_rec)

lemma send_row_eq:
  assumes "length (buf m) = 8"
  shows "send_row tr r m =
     (case py_index 8 r of
        None \<Rightarrow> Exc IndexError m
      | Some j \<Rightarrow> send_i2c tr (Bytes [of_nat (2 * j), word_rotr 1 (buf m ! j)]) m)"
  using assms py_index_Some_less [of 8 r]
  by (auto simp: send_row_def seq_get_def ba_get_def row_addr_eq
           split: option.splits)

subsection \<open>Round trip: the frame decodes to the buffer\<close>

lemma nth_concat_pairs:
  "j < length b \<Longrightarrow> concat (map (\<lambda>w. [x w, y w]) b) ! Suc (2 * j) = y (b ! j)"
proof (induction b arbitrary: j)
  case Nil
  then show ?case by simp
next
  case (Cons w b)
  then show ?case by (cases j) (simp_all add: nth_append)
qed

lemma decode_wire_frame: "length b = 8 \<Longrightarrow> decode_frame (wire_frame b) = b"
  by (rule nth_equalityI) (simp_all add: decode_frame_def wire_frame_def nth_append nth_concat_pairs)

end
