(* ===== verification/Columns.thy ===== *)
theory Columns
  imports Matrix8x8
begin

text \<open>
  The column operations of the frame buffer: \<open>_clear_column\<close> and
  \<open>_set_column\<close> of \<open>src/matrix8x8.py\<close> (modelled in \<open>Matrix8x8\<close>) against
  the column-level specification \<open>put_column c byte b\<close>: rows 0 to 7 get bit
  \<open>7 - c\<close> (mask \<open>0x80 >> c\<close>, \<open>col_mask\<close>) from bit \<open>7 - row\<close> of \<open>byte\<close>,
  every other bit and every row past 7 stays. \<open>get_column\<close> reads a column
  back as a byte (row 0 in the most significant bit). The loops are turned
  into folds (\<open>for_each_fold\<close>) and the folds into closed lists; the bit
  manipulations (the single-bit XOR of \<open>_clear_column\<close>, the per-row shift of
  \<open>_set_column\<close>) are proved bit by bit.
\<close>

unbundle bit_operations_syntax

definition col_mask :: "nat \<Rightarrow> byte" where
  "col_mask c = drop_bit c 0x80"

definition put_column :: "nat \<Rightarrow> int \<Rightarrow> byte list \<Rightarrow> byte list" where
  "put_column c byte b =
     map (\<lambda>j. if j < 8 then (b ! j AND NOT (col_mask c)) OR (if bit byte (7 - j) then col_mask c else 0)
              else b ! j) [0..<length b]"

definition get_column :: "nat \<Rightarrow> byte list \<Rightarrow> byte" where
  "get_column c b = fold (\<lambda>j acc. acc OR (if bit (b ! j) (7 - c) then col_mask j else 0)) [0..<8] 0"

text \<open>The bits \<open>_set_column\<close> ORs into row \<open>row\<close> (before the row is stored).\<close>

definition col_bits :: "int \<Rightarrow> int \<Rightarrow> int \<Rightarrow> int \<Rightarrow> int" where
  "col_bits column byte row msk =
     (if 0 \<le> column - row then drop_bit (nat (column - row)) (byte AND msk)
      else push_bit (nat \<bar>column - row\<bar>) (byte AND msk))"

lemma fold_update_rows:
  "n \<le> length b \<Longrightarrow>
   fold (\<lambda>r b. b[nat r := g r (b ! nat r)]) (map int [0..<n]) b
     = map (\<lambda>j. if j < n then g (int j) (b ! j) else b ! j) [0..<length b]"
proof (induction n)
  case 0
  then show ?case by (simp add: map_nth)
next
  case (Suc n)
  then show ?case
    by (auto intro!: nth_equalityI simp: nth_list_update)
qed

lemma int_xor_single_bit:
  fixes v :: int
  assumes "msk = 0 \<or> (\<exists>k. msk = 2 ^ k)"
  shows "(if v AND msk \<noteq> 0 then v XOR msk else v) = v AND NOT msk"
  using assms
proof
  assume "msk = 0" then show ?thesis by simp
next
  assume "\<exists>k. msk = 2 ^ k"
  then obtain k where k: "msk = 2 ^ k" by blast
  show ?thesis
  proof (cases "bit v k")
    case True
    then show ?thesis
      by (auto simp: k and_exp_eq_0_iff_not_bit intro!: bit_eqI simp: bit_xor_iff bit_and_iff bit_not_iff bit_exp_iff)
  next
    case False
    then show ?thesis
      by (auto simp: k and_exp_eq_0_iff_not_bit intro!: bit_eqI simp: bit_and_iff bit_not_iff bit_exp_iff)
  qed
qed

lemma drop_bit_128_cases:
  "drop_bit c (128::int) = 0 \<or> (\<exists>k. drop_bit c (128::int) = 2 ^ k)"
proof (cases "c \<le> 7")
  case True
  then have "drop_bit c (128::int) = 2 ^ (7 - c)"
    by (intro bit_eqI) (auto simp: bit_drop_bit_eq bit_exp_iff)
  then show ?thesis by blast
next
  case False
  then have "drop_bit c (128::int) = 0"
    by (intro bit_eqI) (simp add: bit_drop_bit_eq)
  then show ?thesis by simp
qed

lemma bit_int_zero [simp]: "\<not> bit (0::int) n"
  by simp

lemma bit_col_mask [simp]: "bit (col_mask c) k \<longleftrightarrow> k + c = 7"
  by (auto simp: col_mask_def bit_drop_bit_eq bit_simps)

lemma word_of_uint_and_not_mask:
  "(word_of_int (uint w AND NOT (drop_bit c 128)) :: byte) = w AND NOT (col_mask c)"
  by (rule bit_word_eqI) (auto simp: bit_simps col_mask_def)

lemma clear_column_step_ok:
  assumes "0 \<le> r" "r < int (length b)"
  shows "clear_column_step (drop_bit c 128) r b
           = Ok (b[nat r := b ! nat r AND NOT (col_mask c)])"
proof -
  let ?v = "uint (b ! nat r)"
  have x: "(if ?v AND drop_bit c 128 \<noteq> 0 then ?v XOR drop_bit c 128 else ?v) = ?v AND NOT (drop_bit c 128)"
    by (rule int_xor_single_bit [OF drop_bit_128_cases])
  show ?thesis
  proof (cases "?v AND drop_bit c 128 \<noteq> 0")
    case True
    with x assms show ?thesis
      by (simp add: clear_column_step_def word_of_uint_and_not_mask)
  next
    case False
    with x have "b ! nat r AND NOT (col_mask c) = b ! nat r"
      by (metis word_of_uint_and_not_mask word_of_int_uint)
    with False assms show ?thesis
      by (simp add: clear_column_step_def)
  qed
qed

lemma clear_column_in_buf_eq:
  assumes "0 \<le> column" "8 \<le> length b"
  shows "clear_column_in_buf column b = Ok (put_column (nat column) 0 b)"
proof -
  let ?f = "\<lambda>r b. b[nat r := b ! nat r AND NOT (col_mask (nat column))]"
  have "for_each (clear_column_step (drop_bit (nat column) 128)) range8 b = Ok (fold ?f range8 b)"
    by (rule for_each_fold [where I = "\<lambda>b'. length b' = length b"])
       (use assms in \<open>auto simp: range8_def clear_column_step_ok\<close>)
  moreover have "fold ?f range8 b = put_column (nat column) 0 b"
    using assms fold_update_rows [of 8 b "\<lambda>r w. w AND NOT (col_mask (nat column))"]
    by (simp add: range8_def put_column_def)
  ultimately show ?thesis
    using assms by (simp add: clear_column_in_buf_def)
qed

lemma set_column_step_ok:
  assumes "0 \<le> r" "r < int (length b)"
  shows "set_column_step column byte r (msk, b)
           = Ok (drop_bit 1 msk, b[nat r := word_of_int (uint (b ! nat r) OR col_bits column byte r msk)])"
  using assms by (simp add: set_column_step_def col_bits_def Let_def)

lemma fold_set_column_rows:
  "n \<le> length b \<Longrightarrow>
   fold (\<lambda>r (msk, b). (drop_bit 1 msk, b[nat r := G r msk (b ! nat r)])) (map int [0..<n]) (128, b)
     = (drop_bit n 128, map (\<lambda>j. if j < n then G (int j) (drop_bit j 128) (b ! j) else b ! j) [0..<length b])"
proof (induction n)
  case 0
  then show ?case by (simp add: map_nth)
next
  case (Suc n)
  then show ?case
    by (auto intro!: nth_equalityI simp: nth_list_update drop_bit_drop_bit)
qed

lemma bit_col_bits:
  assumes "0 \<le> column" "j < 8"
  shows "bit (col_bits column byte (int j) (drop_bit j 128)) k \<longleftrightarrow> k + nat column = 7 \<and> bit byte (7 - j)"
proof -
  obtain c where c: "column = int c"
    using assms(1) nonneg_int_cases by blast
  show ?thesis
  proof (cases "j \<le> c")
    case True
    have "bit (col_bits column byte (int j) (drop_bit j 128)) k \<longleftrightarrow> bit byte (c - j + k) \<and> c - j + j + k = 7"
      using True by (simp add: c col_bits_def bit_drop_bit_eq bit_and_iff ac_simps nat_diff_distrib)
    also have "\<dots> \<longleftrightarrow> k + c = 7 \<and> bit byte (7 - j)"
    proof (cases "k + c = 7")
      case True
      with \<open>j \<le> c\<close> have "c - j + k = 7 - j" and "c - j + j + k = 7" by simp_all
      then show ?thesis using True by simp
    next
      case False
      with \<open>j \<le> c\<close> show ?thesis by simp
    qed
    finally show ?thesis by (simp add: c)
  next
    case False
    then have jc: "nat (int j - int c) = j - c" by simp
    have "bit (col_bits column byte (int j) (drop_bit j 128)) k
          \<longleftrightarrow> j - c \<le> k \<and> bit byte (k - (j - c)) \<and> j + k - (j - c) = 7"
      using False by (auto simp: c col_bits_def jc bit_drop_bit_eq bit_and_iff bit_push_bit_iff ac_simps)
    also have "\<dots> \<longleftrightarrow> k + c = 7 \<and> bit byte (7 - j)"
    proof (cases "k + c = 7")
      case True
      with False assms(2) have "k - (j - c) = 7 - j" and "j - c \<le> k" and "j + k - (j - c) = 7" by simp_all
      then show ?thesis using True by simp
    next
      case False
      with \<open>\<not> j \<le> c\<close> show ?thesis by auto
    qed
    finally show ?thesis by (simp add: c)
  qed
qed

lemma word_of_uint_or_col_bits:
  assumes "0 \<le> column" "j < 8"
  shows "(word_of_int (uint w OR col_bits column byte (int j) (drop_bit j 128)) :: byte)
           = w OR (if bit byte (7 - j) then col_mask (nat column) else 0)"
  by (rule bit_word_eqI) (auto simp: bit_simps bit_col_bits [OF assms])

lemma set_column_in_buf_eq:
  assumes "0 \<le> column" "8 \<le> length b"
  shows "set_column_in_buf column byte b = Ok (put_column (nat column) byte b)"
proof (cases "byte = 0")
  case True
  then show ?thesis
    using assms by (simp add: set_column_in_buf_def clear_column_in_buf_eq)
next
  case False
  let ?b0 = "put_column (nat column) 0 b"
  let ?G = "\<lambda>r msk w. word_of_int (uint w OR col_bits column byte r msk) :: byte"
  let ?F = "\<lambda>r (msk, b). (drop_bit 1 msk, b[nat r := ?G r msk (b ! nat r)])"
  have len: "length ?b0 = length b"
    by (simp add: put_column_def)
  have "for_each (set_column_step column byte) range8 (128, ?b0) = Ok (fold ?F range8 (128, ?b0))"
    by (rule for_each_fold [where I = "\<lambda>(msk, b'). length b' = length b"])
       (use assms len in \<open>auto simp: range8_def set_column_step_ok split: prod.splits\<close>)
  moreover have "fold ?F range8 (128, ?b0)
      = (drop_bit 8 128, map (\<lambda>j. if j < 8 then ?G (int j) (drop_bit j 128) (?b0 ! j) else ?b0 ! j) [0..<length b])"
    using fold_set_column_rows [of 8 ?b0 ?G] assms len by (simp add: range8_def)
  moreover have "map (\<lambda>j. if j < 8 then ?G (int j) (drop_bit j 128) (?b0 ! j) else ?b0 ! j) [0..<length b]
      = put_column (nat column) byte b"
    using assms by (auto intro!: nth_equalityI simp: put_column_def word_of_uint_or_col_bits)
  ultimately show ?thesis
    using assms False by (simp add: set_column_in_buf_def clear_column_in_buf_eq)
qed

subsection \<open>Bit-level reading of \<open>put_column\<close>, and round trips\<close>

lemma bit_put_column:
  "j < length b \<Longrightarrow>
   bit (put_column c byte b ! j) k \<longleftrightarrow> (if j < 8 \<and> k + c = 7 then bit byte (7 - j) else bit (b ! j) k)"
  by (auto simp: put_column_def bit_simps dest: bit_imp_le_length)

lemma length_put_column [simp]: "length (put_column c byte b) = length b"
  by (simp add: put_column_def)

lemma bit_fold_or:
  "bit (fold (\<lambda>j acc. acc OR g j) js acc) k \<longleftrightarrow> bit acc k \<or> (\<exists>j\<in>set js. bit (g j :: byte) k)"
  by (induction js arbitrary: acc) (auto simp: bit_or_iff)

lemma bit_get_column:
  "bit (get_column c b) k \<longleftrightarrow> k < 8 \<and> bit (b ! (7 - k)) (7 - c)"
proof -
  have kj: "k + j = 7 \<longleftrightarrow> k < 8 \<and> j = 7 - k" for j by arith
  have "(\<exists>j\<in>set [0..<8]. bit (if bit (b ! j) (7 - c) then col_mask j else 0) k)
        \<longleftrightarrow> k < 8 \<and> bit (b ! (7 - k)) (7 - c)"
    by (auto simp: kj)
  then show ?thesis
    by (simp add: get_column_def bit_fold_or)
qed

text \<open>Reading back a written column gives the written byte (its low 8 bits).\<close>

lemma get_put_column:
  assumes "c < 8" "8 \<le> length b"
  shows "get_column c (put_column c byte b) = word_of_int byte"
proof (rule bit_word_eqI)
  fix k assume "k < LENGTH(8)"
  then show "bit (get_column c (put_column c byte b)) k = bit (word_of_int byte :: byte) k"
    using assms by (auto simp: bit_get_column bit_put_column bit_word_of_int_iff)
qed

text \<open>Writing a column twice keeps only the last write.\<close>

lemma put_column_put_column:
  "put_column c x (put_column c y b) = put_column c x b"
  by (rule nth_equalityI) (auto intro!: bit_word_eqI simp: bit_put_column)

end
