(* ===== verification/Driver.thy ===== *)
theory Driver
  imports Wire Columns
begin

text \<open>
  Closed forms of the public methods of \<open>Matrix8x8\<close> for any transport, on an
  object whose buffer has the 8 rows \<open>__init__\<close> gives it: the new buffer, the
  one message sent, and each exception with the state it leaves (an index
  outside \<open>-8..7\<close>, a negative column, a buffer of the wrong length).
\<close>

unbundle bit_operations_syntax

text \<open>The spec's view of the frame buffer: pixel \<open>(row, column)\<close> is bit
  \<open>0x80 >> column\<close> of row byte \<open>row\<close>.\<close>

definition pixel :: "byte list \<Rightarrow> nat \<Rightarrow> nat \<Rightarrow> bool" where
  "pixel b r c \<longleftrightarrow> r < 8 \<and> c < 8 \<and> bit (b ! r) (7 - c)"

text \<open>An object as \<open>__init__\<close> leaves it, with a picture in its buffer, on the
  logging bus: the concrete input of the witnesses below.\<close>

definition demo :: "(int \<times> msg) list matrix8x8" where
  "demo = \<lparr>blinking = 0, addr = 0x70, buf = [0x81, 0x42, 0x24, 0x18, 0x18, 0x24, 0x42, 0x81],
            is_on = Some True, i2c = []\<rparr>"

text \<open>A successful send changes the transport state and nothing else.\<close>

lemma send_i2c_Ok_iff:
  "send_i2c tr d m = Ok m' \<longleftrightarrow> (\<exists>t. tr (i2c m) d (addr m) = Inr t \<and> m' = m\<lparr>i2c := t\<rparr>)"
  by (auto simp: send_i2c_def split: sum.splits)

lemma send_i2c_Exc_iff:
  "send_i2c tr d m = Exc e m' \<longleftrightarrow> tr (i2c m) d (addr m) = Inl e \<and> m' = m"
  by (auto simp: send_i2c_def split: sum.splits)

lemma send_i2c_log_bus:
  "send_i2c log_bus d m = Ok (m\<lparr>i2c := i2c m @ [(addr m, d)]\<rparr>)"
  by (simp add: send_i2c_def)

lemma pixel_update:
  "i < length b \<Longrightarrow>
   pixel (b[i := w]) r c \<longleftrightarrow> (if r = i then r < 8 \<and> c < 8 \<and> bit w (7 - c) else pixel b r c)"
  by (auto simp: pixel_def)

lemma col_mask_wide: "7 < c \<Longrightarrow> col_mask c = 0"
  by (rule bit_word_eqI) simp

lemma word_of_uint_or_mask:
  "(word_of_int (uint w OR drop_bit c 128) :: byte) = w OR col_mask c"
  by (rule bit_word_eqI) (auto simp: bit_simps col_mask_def)

lemma set_row_eq:
  assumes "length (buf m) = 8"
  shows "set_row tr r byte m =
     (case py_index 8 r of
        None \<Rightarrow> Exc IndexError m
      | Some j \<Rightarrow> send_i2c tr (Bytes [of_nat (2 * j), word_rotr 1 (word_of_int byte)])
                    (m\<lparr>buf := (buf m)[j := word_of_int byte]\<rparr>))"
proof (cases "py_index 8 r")
  case None
  with assms show ?thesis by (simp add: set_row_def ba_set_def)
next
  case (Some j)
  then have "j < 8" by (rule py_index_Some_less)
  with Some assms show ?thesis
    by (simp add: set_row_def ba_set_def send_row_eq)
qed

lemma set_pixel_eq:
  assumes "length (buf m) = 8"
  shows "set_pixel tr r c m =
     (case py_index 8 r of
        None \<Rightarrow> Exc IndexError m
      | Some j \<Rightarrow>
          if c < 0 then Exc ValueError m
          else let w = buf m ! j OR col_mask (nat c) in
            send_i2c tr (Bytes [of_nat (2 * j), word_rotr 1 w]) (m\<lparr>buf := (buf m)[j := w]\<rparr>))"
proof (cases "py_index 8 r")
  case None
  with assms show ?thesis by (simp add: set_pixel_def ba_get_def)
next
  case (Some j)
  then have "j < 8" by (rule py_index_Some_less)
  with Some assms show ?thesis
    by (simp add: set_pixel_def ba_get_def ba_set_def py_rshift_def send_row_eq word_of_uint_or_mask Let_def)
qed

lemma clear_pixel_eq:
  assumes "length (buf m) = 8"
  shows "clear_pixel tr r c m =
     (case py_index 8 r of
        None \<Rightarrow> Exc IndexError m
      | Some j \<Rightarrow>
          if c < 0 then Exc ValueError m
          else let w = buf m ! j AND NOT (col_mask (nat c)) in
            send_i2c tr (Bytes [of_nat (2 * j), word_rotr 1 w]) (m\<lparr>buf := (buf m)[j := w]\<rparr>))"
proof (cases "py_index 8 r")
  case None
  with assms show ?thesis by (simp add: clear_pixel_def ba_get_def)
next
  case (Some j)
  then have "j < 8" by (rule py_index_Some_less)
  with Some assms show ?thesis
    by (simp add: clear_pixel_def ba_get_def ba_set_def py_rshift_def send_row_eq word_of_uint_and_not_mask Let_def)
qed

subsection \<open>Whole-buffer methods\<close>

lemma zero_step_ok:
  "0 \<le> r \<Longrightarrow> r < int (length b) \<Longrightarrow> zero_step r b = Ok (b[nat r := 0])"
  by (simp add: zero_step_def)

lemma zero_loop:
  assumes "8 \<le> length b"
  shows "for_each zero_step range8 b = Ok (replicate 8 0 @ drop 8 b)"
proof -
  have "for_each zero_step range8 b = Ok (fold (\<lambda>r b. b[nat r := 0]) range8 b)"
    by (rule for_each_fold [where I = "\<lambda>b'. length b' = length b"])
       (use assms in \<open>auto simp: range8_def zero_step_ok\<close>)
  also have "fold (\<lambda>r b. b[nat r := 0]) range8 b = replicate 8 0 @ drop 8 b"
    using assms fold_update_rows [of 8 b "\<lambda>r w. 0"]
    by (auto intro!: nth_equalityI simp: range8_def nth_append)
  finally show ?thesis .
qed

lemma zero_loop_short:
  assumes "length b < 8"
  shows "for_each zero_step range8 b = Exc IndexError (replicate (length b) 0)"
proof -
  let ?n = "length b"
  have u: "[0..<8] = [0..<?n] @ [?n..<8]"
    using upt_add_eq_append [of 0 ?n "8 - ?n"] assms by simp
  have split: "range8 = map int [0..<?n] @ int ?n # map int [Suc ?n..<8]"
    using assms unfolding range8_def u by (simp add: upt_conv_Cons)
  have "for_each zero_step (map int [0..<?n]) b = Ok (fold (\<lambda>r b. b[nat r := 0]) (map int [0..<?n]) b)"
    by (rule for_each_fold [where I = "\<lambda>b'. length b' = length b"]) (auto simp: zero_step_ok)
  moreover have "fold (\<lambda>r b. b[nat r := 0]) (map int [0..<?n]) b = replicate ?n 0"
    using fold_update_rows [of ?n b "\<lambda>r w. 0"] by (auto intro!: nth_equalityI)
  moreover have "zero_step (int ?n) (replicate ?n 0) = Exc IndexError (replicate ?n 0)"
    by (simp add: zero_step_def ba_set_def py_index_def)
  ultimately show ?thesis
    by (simp add: split for_each_append)
qed

lemma wire_frame_zero: "wire_frame (replicate 8 0) = replicate 16 0"
  by (simp add: wire_frame_def numeral_eq_Suc)

lemma clear_eq:
  assumes "length (buf m) = 8"
  shows "clear tr m = send_i2c tr (Bytes (replicate 16 0)) (m\<lparr>buf := replicate 8 0\<rparr>)"
  using assms by (simp add: clear_def with_buf_def zero_loop send_buf_eq wire_frame_zero)

lemma set_bitmap_eq:
  "set_bitmap tr bitmap m =
     (let m' = m\<lparr>buf := map word_of_int bitmap\<rparr> in
      if length bitmap \<le> 8 then send_i2c tr (Bytes (wire_frame (map word_of_int bitmap))) m'
      else Exc IndexError m')"
  by (simp add: set_bitmap_def send_buf_eq Let_def)

lemma set_column_eq:
  assumes "length (buf m) = 8"
  shows "set_column tr c byte m =
     (if c < 0 then Exc ValueError m
      else let b = put_column (nat c) byte (buf m) in
        send_i2c tr (Bytes (wire_frame b)) (m\<lparr>buf := b\<rparr>))"
proof (cases "c < 0")
  case True
  then show ?thesis
    by (simp add: set_column_def with_buf_def set_column_in_buf_def clear_column_in_buf_def)
next
  case False
  with assms show ?thesis
    by (simp add: set_column_def with_buf_def set_column_in_buf_eq send_buf_eq Let_def)
qed

lemma clear_column_eq:
  assumes "length (buf m) = 8"
  shows "clear_column tr c m =
     (if c < 0 then Exc ValueError m
      else let b = put_column (nat c) 0 (buf m) in
        send_i2c tr (Bytes (wire_frame b)) (m\<lparr>buf := b\<rparr>))"
proof (cases "c < 0")
  case True
  then show ?thesis
    by (simp add: clear_column_def with_buf_def clear_column_in_buf_def)
next
  case False
  with assms show ?thesis
    by (simp add: clear_column_def with_buf_def clear_column_in_buf_eq send_buf_eq Let_def)
qed

subsection \<open>Display state\<close>

lemma set_blinking_eq:
  "set_blinking tr mode m =
     (case is_on m of
        None \<Rightarrow> Exc AttributeError (m\<lparr>blinking := mode\<rparr>)
      | Some True \<Rightarrow> send_i2c tr (Byte (0x81 OR push_bit 1 mode)) (m\<lparr>blinking := mode, is_on := Some True\<rparr>)
      | Some False \<Rightarrow> Ok (m\<lparr>blinking := mode\<rparr>))"
  by (simp add: set_blinking_def on_def split: option.splits bool.splits)

lemma clear_short:
  assumes "length (buf m) < 8"
  shows "clear tr m = Exc IndexError (m\<lparr>buf := replicate (length (buf m)) 0\<rparr>)"
  using assms by (simp add: clear_def with_buf_def zero_loop_short)

lemma clear_long:
  assumes "8 < length (buf m)"
  shows "clear tr m = Exc IndexError (m\<lparr>buf := replicate 8 0 @ drop 8 (buf m)\<rparr>)"
  using assms by (simp add: clear_def with_buf_def zero_loop send_buf_eq)

subsection \<open>Properties\<close>

text \<open>
  C5. \<open>set_row(r, byte)\<close> on a row \<open>0..7\<close> replaces exactly that buffer row by
  \<open>byte\<close> and sends exactly one message, \<open>[row_addr[r], rotate_right(byte)]\<close>;
  no other attribute changes.
\<close>

theorem set_row_writes_row:
  assumes "length (buf m) = 8" "0 \<le> r" "r \<le> 7" "set_row tr r byte m = Ok m'"
  shows "m' = m\<lparr>buf := (buf m)[nat r := word_of_int byte], i2c := i2c m'\<rparr> \<and>
         tr (i2c m) (Bytes [of_nat (2 * nat r), word_rotr 1 (word_of_int byte)]) (addr m) = Inr (i2c m')"
proof -
  have "py_index 8 r = Some (nat r)" using assms(2,3) by simp
  with assms(1,4) show ?thesis
    by (auto simp: set_row_eq send_i2c_Ok_iff)
qed

theorem set_row_writes_row_witness:
  "\<exists>m'. length (buf demo) = 8 \<and> set_row log_bus 2 0xFF demo = Ok m' \<and>
        m' = demo\<lparr>buf := (buf demo)[nat 2 := word_of_int 0xFF], i2c := i2c m'\<rparr> \<and>
        log_bus (i2c demo) (Bytes [of_nat (2 * nat 2), word_rotr 1 (word_of_int 0xFF)]) (addr demo) = Inr (i2c m')"
proof -
  have len: "length (buf demo) = 8" by (simp add: demo_def)
  have run: "set_row log_bus 2 0xFF demo = Ok (demo\<lparr>buf := (buf demo)[2 := 0xFF], i2c := [(0x70, Bytes [4, 0xFF])]\<rparr>)"
    by (simp add: set_row_eq len demo_def send_i2c_def word_rotr_1_eval rotate_right_def)
  have "demo\<lparr>buf := (buf demo)[2 := 0xFF], i2c := [(0x70, Bytes [4, 0xFF])]\<rparr>
          = demo\<lparr>buf := (buf demo)[nat 2 := word_of_int 0xFF],
                 i2c := i2c (demo\<lparr>buf := (buf demo)[2 := 0xFF], i2c := [(0x70, Bytes [4, 0xFF])]\<rparr>)\<rparr> \<and>
        log_bus (i2c demo) (Bytes [of_nat (2 * nat 2), word_rotr 1 (word_of_int 0xFF)]) (addr demo)
          = Inr (i2c (demo\<lparr>buf := (buf demo)[2 := 0xFF], i2c := [(0x70, Bytes [4, 0xFF])]\<rparr>))"
    by (rule set_row_writes_row [OF len _ _ run]) simp_all
  with len run show ?thesis by blast
qed

text \<open>
  C6. \<open>set_pixel(r, c)\<close> on a valid pixel turns that pixel on and leaves every
  other pixel of the 8x8 picture as it was.
\<close>

theorem set_pixel_sets_pixel:
  assumes "length (buf m) = 8" "0 \<le> r" "r \<le> 7" "0 \<le> c" "c \<le> 7" "set_pixel tr r c m = Ok m'"
  shows "pixel (buf m') i j \<longleftrightarrow> (i = nat r \<and> j = nat c) \<or> pixel (buf m) i j"
proof -
  have "py_index 8 r = Some (nat r)" using assms(2,3) by simp
  with assms(1,4,6) have b: "buf m' = (buf m)[nat r := buf m ! nat r OR col_mask (nat c)]"
    by (auto simp: set_pixel_eq send_i2c_Ok_iff Let_def)
  have "nat r < length (buf m)" using assms(1,3) by simp
  then show ?thesis
    using assms(1-5) by (simp add: b pixel_update) (auto simp: pixel_def bit_or_iff)
qed

theorem set_pixel_sets_pixel_witness:
  "\<exists>m'. length (buf demo) = 8 \<and> set_pixel log_bus 3 5 demo = Ok m' \<and>
        (pixel (buf m') 3 5 \<longleftrightarrow> (3 = nat 3 \<and> 5 = nat 5) \<or> pixel (buf demo) 3 5)"
proof -
  have len: "length (buf demo) = 8" by (simp add: demo_def)
  have run: "set_pixel log_bus 3 5 demo = Ok (demo\<lparr>buf := (buf demo)[3 := 0x1C], i2c := [(0x70, Bytes [6, 0x0E])]\<rparr>)"
    by (simp add: set_pixel_eq len demo_def send_i2c_def Let_def col_mask_def word_rotr_1_eval rotate_right_def)
  have "pixel (buf (demo\<lparr>buf := (buf demo)[3 := 0x1C], i2c := [(0x70, Bytes [6, 0x0E])]\<rparr>)) 3 5
        \<longleftrightarrow> (3 = nat 3 \<and> 5 = nat 5) \<or> pixel (buf demo) 3 5"
    by (rule set_pixel_sets_pixel [OF len _ _ _ _ run]) simp_all
  with len run show ?thesis by blast
qed

text \<open>
  C7. \<open>clear_pixel(r, c)\<close> on a valid pixel turns that pixel off and leaves
  every other pixel as it was.
\<close>

theorem clear_pixel_clears_pixel:
  assumes "length (buf m) = 8" "0 \<le> r" "r \<le> 7" "0 \<le> c" "c \<le> 7" "clear_pixel tr r c m = Ok m'"
  shows "pixel (buf m') i j \<longleftrightarrow> \<not> (i = nat r \<and> j = nat c) \<and> pixel (buf m) i j"
proof -
  have "py_index 8 r = Some (nat r)" using assms(2,3) by simp
  with assms(1,4,6) have b: "buf m' = (buf m)[nat r := buf m ! nat r AND NOT (col_mask (nat c))]"
    by (auto simp: clear_pixel_eq send_i2c_Ok_iff Let_def)
  have "nat r < length (buf m)" using assms(1,3) by simp
  then show ?thesis
    using assms(1-5) by (simp add: b pixel_update) (auto simp: pixel_def bit_and_iff bit_not_iff)
qed

theorem clear_pixel_clears_pixel_witness:
  "\<exists>m'. length (buf demo) = 8 \<and> clear_pixel log_bus 0 0 demo = Ok m' \<and>
        (pixel (buf m') 0 0 \<longleftrightarrow> \<not> (0 = nat 0 \<and> 0 = nat 0) \<and> pixel (buf demo) 0 0)"
proof -
  have len: "length (buf demo) = 8" by (simp add: demo_def)
  have run: "clear_pixel log_bus 0 0 demo = Ok (demo\<lparr>buf := (buf demo)[0 := 0x01], i2c := [(0x70, Bytes [0, 0x80])]\<rparr>)"
    by (simp add: clear_pixel_eq len demo_def send_i2c_def Let_def col_mask_def word_rotr_1_eval rotate_right_def)
  have "pixel (buf (demo\<lparr>buf := (buf demo)[0 := 0x01], i2c := [(0x70, Bytes [0, 0x80])]\<rparr>)) 0 0
        \<longleftrightarrow> \<not> (0 = nat 0 \<and> 0 = nat 0) \<and> pixel (buf demo) 0 0"
    by (rule clear_pixel_clears_pixel [OF len _ _ _ _ run]) simp_all
  with len run show ?thesis by blast
qed

text \<open>
  C8. \<open>set_column(c, byte)\<close> on a valid column writes \<open>byte\<close> vertically into
  column \<open>c\<close>: pixel \<open>(i, c)\<close> is bit \<open>0x80 >> i\<close> of \<open>byte\<close>, whatever
  the row held there before, and every pixel outside the column is unchanged.
\<close>

theorem set_column_writes_column:
  assumes "length (buf m) = 8" "0 \<le> c" "c \<le> 7" "set_column tr c byte m = Ok m'"
  shows "pixel (buf m') i j \<longleftrightarrow> (if j = nat c then i < 8 \<and> bit byte (7 - i) else pixel (buf m) i j)"
proof -
  from assms(1,2,4) have b: "buf m' = put_column (nat c) byte (buf m)"
    by (auto simp: set_column_eq send_i2c_Ok_iff Let_def)
  show ?thesis
    using assms(1,3) by (auto simp: b pixel_def bit_put_column)
qed

theorem set_column_writes_column_witness:
  "\<exists>m'. length (buf demo) = 8 \<and> set_column log_bus 3 0xA5 demo = Ok m' \<and>
        (pixel (buf m') 2 3 \<longleftrightarrow> (if 3 = nat 3 then (2::nat) < 8 \<and> bit (0xA5::int) (7 - 2) else pixel (buf demo) 2 3))"
proof -
  let ?m' = "demo\<lparr>buf := put_column 3 0xA5 (buf demo),
                  i2c := i2c demo @ [(addr demo, Bytes (wire_frame (put_column 3 0xA5 (buf demo))))]\<rparr>"
  have len: "length (buf demo) = 8" by (simp add: demo_def)
  have run: "set_column log_bus 3 0xA5 demo = Ok ?m'"
    by (simp add: set_column_eq len send_i2c_log_bus Let_def)
  have "pixel (buf ?m') 2 3 \<longleftrightarrow> (if 3 = nat 3 then (2::nat) < 8 \<and> bit (0xA5::int) (7 - 2) else pixel (buf demo) 2 3)"
    by (rule set_column_writes_column [OF len _ _ run]) simp_all
  with len run show ?thesis by blast
qed

text \<open>
  C9. Transposition round trip: after \<open>set_column(c, byte)\<close>, reading bit
  \<open>0x80 >> c\<close> of rows 0 to 7 (row 0 as the most significant bit) gives back
  \<open>byte\<close> (its low 8 bits).
\<close>

theorem set_column_get_column:
  assumes "length (buf m) = 8" "0 \<le> c" "c \<le> 7" "set_column tr c byte m = Ok m'"
  shows "get_column (nat c) (buf m') = word_of_int byte"
proof -
  from assms(1,2,4) have b: "buf m' = put_column (nat c) byte (buf m)"
    by (auto simp: set_column_eq send_i2c_Ok_iff Let_def)
  show ?thesis
    using assms(1,3) by (simp add: b get_put_column)
qed

theorem set_column_get_column_witness:
  "\<exists>m'. length (buf demo) = 8 \<and> set_column log_bus 6 0x3C demo = Ok m' \<and>
        get_column (nat 6) (buf m') = word_of_int 0x3C"
proof -
  let ?m' = "demo\<lparr>buf := put_column 6 0x3C (buf demo),
                  i2c := i2c demo @ [(addr demo, Bytes (wire_frame (put_column 6 0x3C (buf demo))))]\<rparr>"
  have len: "length (buf demo) = 8" by (simp add: demo_def)
  have run: "set_column log_bus 6 0x3C demo = Ok ?m'"
    by (simp add: set_column_eq len send_i2c_log_bus Let_def)
  have "get_column (nat 6) (buf ?m') = word_of_int 0x3C"
    by (rule set_column_get_column [OF len _ _ run]) simp_all
  with len run show ?thesis by blast
qed

text \<open>
  C10. \<open>set_column(c, 0xFF)\<close> followed by \<open>clear_column(c)\<close> leaves column
  \<open>c\<close> dark and every other pixel as it was before \<open>set_column\<close>.
\<close>

theorem set_then_clear_column:
  assumes "length (buf m) = 8" "0 \<le> c" "c \<le> 7"
    and "set_column tr c 0xFF m = Ok m1" "clear_column tr c m1 = Ok m2"
  shows "pixel (buf m2) i j \<longleftrightarrow> pixel (buf m) i j \<and> j \<noteq> nat c"
proof -
  from assms(1,2,4) have b1: "buf m1 = put_column (nat c) 0xFF (buf m)"
    by (auto simp: set_column_eq send_i2c_Ok_iff Let_def)
  with assms(1,2,5) have b2: "buf m2 = put_column (nat c) 0 (buf m)"
    by (auto simp: clear_column_eq send_i2c_Ok_iff Let_def put_column_put_column)
  show ?thesis
    using assms(1,3) by (auto simp: b2 pixel_def bit_put_column split: if_splits)
qed

theorem set_then_clear_column_witness:
  "\<exists>m1 m2. length (buf demo) = 8 \<and> set_column log_bus 4 0xFF demo = Ok m1 \<and>
           clear_column log_bus 4 m1 = Ok m2 \<and>
           (pixel (buf m2) 0 0 \<longleftrightarrow> pixel (buf demo) 0 0 \<and> 0 \<noteq> nat 4)"
proof -
  let ?m1 = "demo\<lparr>buf := put_column 4 0xFF (buf demo),
                  i2c := i2c demo @ [(addr demo, Bytes (wire_frame (put_column 4 0xFF (buf demo))))]\<rparr>"
  let ?b2 = "put_column 4 0 (put_column 4 0xFF (buf demo))"
  let ?m2 = "?m1\<lparr>buf := ?b2, i2c := i2c ?m1 @ [(addr ?m1, Bytes (wire_frame ?b2))]\<rparr>"
  have len: "length (buf demo) = 8" by (simp add: demo_def)
  have run1: "set_column log_bus 4 0xFF demo = Ok ?m1"
    by (simp add: set_column_eq len send_i2c_log_bus Let_def)
  have run2: "clear_column log_bus 4 ?m1 = Ok ?m2"
    by (simp add: clear_column_eq len send_i2c_log_bus Let_def)
  have "pixel (buf ?m2) 0 0 \<longleftrightarrow> pixel (buf demo) 0 0 \<and> 0 \<noteq> nat 4"
    by (rule set_then_clear_column [OF len _ _ run1 run2]) simp_all
  with len run1 run2 show ?thesis by blast
qed

text \<open>
  C11. \<open>clear()\<close> sets all 8 buffer rows to 0 and sends exactly one message,
  the 16-byte display-RAM image of a dark display (all zero).
\<close>

theorem clear_clears:
  assumes "length (buf m) = 8" "clear tr m = Ok m'"
  shows "buf m' = replicate 8 0 \<and> tr (i2c m) (Bytes (replicate 16 0)) (addr m) = Inr (i2c m')"
  using assms by (auto simp: clear_eq send_i2c_Ok_iff)

theorem clear_clears_witness:
  "\<exists>m'. length (buf demo) = 8 \<and> clear log_bus demo = Ok m' \<and>
        buf m' = replicate 8 0 \<and> log_bus (i2c demo) (Bytes (replicate 16 0)) (addr demo) = Inr (i2c m')"
proof -
  let ?m' = "demo\<lparr>buf := replicate 8 0, i2c := i2c demo @ [(addr demo, Bytes (replicate 16 0))]\<rparr>"
  have len: "length (buf demo) = 8" by (simp add: demo_def)
  have run: "clear log_bus demo = Ok ?m'"
    by (simp add: clear_eq len send_i2c_log_bus)
  have "buf ?m' = replicate 8 0 \<and> log_bus (i2c demo) (Bytes (replicate 16 0)) (addr demo) = Inr (i2c ?m')"
    by (rule clear_clears [OF len run])
  with len run show ?thesis by blast
qed

text \<open>
  C12. \<open>set(bitmap)\<close> with 8 bytes makes them the buffer and sends one 16-byte
  message, which carries each row rotated at offset \<open>2 * row + 1\<close>; reading
  those offsets back (rotated left) gives the new buffer.
\<close>

theorem set_bitmap_sends_frame:
  assumes "length bitmap = 8" "set_bitmap tr bitmap m = Ok m'"
  shows "buf m' = map word_of_int bitmap \<and>
         tr (i2c m) (Bytes (wire_frame (buf m'))) (addr m) = Inr (i2c m') \<and>
         length (wire_frame (buf m')) = 16 \<and> decode_frame (wire_frame (buf m')) = buf m'"
  using assms by (auto simp: set_bitmap_eq send_i2c_Ok_iff Let_def decode_wire_frame)

theorem set_bitmap_sends_frame_witness:
  "\<exists>m'. length [0xFF, 0, 0xFF, 0, 0xFF, 0, 0xFF, (0::int)] = 8 \<and>
        set_bitmap log_bus [0xFF, 0, 0xFF, 0, 0xFF, 0, 0xFF, 0] demo = Ok m' \<and>
        buf m' = map word_of_int [0xFF, 0, 0xFF, 0, 0xFF, 0, 0xFF, 0] \<and>
        log_bus (i2c demo) (Bytes (wire_frame (buf m'))) (addr demo) = Inr (i2c m') \<and>
        length (wire_frame (buf m')) = 16 \<and> decode_frame (wire_frame (buf m')) = buf m'"
proof -
  let ?b = "map word_of_int [0xFF, 0, 0xFF, 0, 0xFF, 0, 0xFF, (0::int)] :: byte list"
  let ?m' = "demo\<lparr>buf := ?b, i2c := i2c demo @ [(addr demo, Bytes (wire_frame ?b))]\<rparr>"
  have len: "length [0xFF, 0, 0xFF, 0, 0xFF, 0, 0xFF, (0::int)] = 8" by simp
  have run: "set_bitmap log_bus [0xFF, 0, 0xFF, 0, 0xFF, 0, 0xFF, 0] demo = Ok ?m'"
    by (simp add: set_bitmap_eq send_i2c_log_bus Let_def)
  have "buf ?m' = ?b \<and> log_bus (i2c demo) (Bytes (wire_frame (buf ?m'))) (addr demo) = Inr (i2c ?m') \<and>
        length (wire_frame (buf ?m')) = 16 \<and> decode_frame (wire_frame (buf ?m')) = buf ?m'"
    by (rule set_bitmap_sends_frame [OF len run])
  with len run show ?thesis by blast
qed

text \<open>
  C13. \<open>set(bitmap)\<close> with more than 8 bytes raises \<open>IndexError\<close> in
  \<open>_send_buf\<close> after the buffer has already been replaced by the bitmap:
  nothing is sent, and the object keeps the over-long buffer.
\<close>

theorem set_bitmap_too_long:
  assumes "8 < length bitmap"
  shows "set_bitmap tr bitmap m = Exc IndexError (m\<lparr>buf := map word_of_int bitmap\<rparr>)"
  using assms by (simp add: set_bitmap_eq Let_def)

theorem set_bitmap_too_long_witness:
  "8 < length [1, 2, 3, 4, 5, 6, 7, 8, (9::int)] \<and>
   set_bitmap log_bus [1, 2, 3, 4, 5, 6, 7, 8, 9] demo
     = Exc IndexError (demo\<lparr>buf := map word_of_int [1, 2, 3, 4, 5, 6, 7, 8, 9]\<rparr>)"
proof -
  have h: "8 < length [1, 2, 3, 4, 5, 6, 7, 8, (9::int)]" by simp
  show ?thesis using h set_bitmap_too_long [OF h] by blast
qed

text \<open>
  C14. \<open>set(bitmap)\<close> accepts a bitmap of fewer than 8 bytes: it completes,
  the buffer becomes that short, and afterwards \<open>set_row(7, byte)\<close>, a
  documented row, raises \<open>IndexError\<close>.
\<close>

theorem set_bitmap_too_short:
  assumes "length bitmap < 8" "set_bitmap tr bitmap m = Ok m'"
  shows "length (buf m') = length bitmap \<and> set_row tr 7 byte m' = Exc IndexError m'"
proof -
  from assms(2) have "buf m' = map word_of_int bitmap"
    using assms(1) by (auto simp: set_bitmap_eq send_i2c_Ok_iff Let_def)
  with assms(1) show ?thesis
    by (simp add: set_row_def ba_set_def py_index_def)
qed

theorem set_bitmap_too_short_witness:
  "\<exists>m'. length [1, 2, (3::int)] < 8 \<and> set_bitmap log_bus [1, 2, 3] demo = Ok m' \<and>
        length (buf m') = length [1, 2, (3::int)] \<and> set_row log_bus 7 0xFF m' = Exc IndexError m'"
proof -
  let ?m' = "demo\<lparr>buf := map word_of_int [1, 2, 3],
                  i2c := i2c demo @ [(addr demo, Bytes (wire_frame (map word_of_int [1, 2, (3::int)])))]\<rparr>"
  have h: "length [1, 2, (3::int)] < 8" by simp
  have run: "set_bitmap log_bus [1, 2, 3] demo = Ok ?m'"
    by (simp add: set_bitmap_eq send_i2c_log_bus Let_def)
  have "length (buf ?m') = length [1, 2, (3::int)] \<and> set_row log_bus 7 0xFF ?m' = Exc IndexError ?m'"
    by (rule set_bitmap_too_short [OF h run])
  with h run show ?thesis by blast
qed

text \<open>
  C15. \<open>clear()\<close> on a buffer that does not have 8 rows raises
  \<open>IndexError\<close> after zeroing what it could: a shorter buffer is zeroed
  entirely before the raise, a longer one has rows 0 to 7 zeroed and nothing is
  sent.
\<close>

theorem clear_wrong_length:
  assumes "length (buf m) \<noteq> 8"
  shows "clear tr m = Exc IndexError (m\<lparr>buf := replicate (min 8 (length (buf m))) 0 @ drop 8 (buf m)\<rparr>)"
proof (cases "length (buf m) < 8")
  case True
  then show ?thesis by (simp add: clear_short)
next
  case False
  with assms show ?thesis by (simp add: clear_long)
qed

theorem clear_wrong_length_witness:
  "length (buf (demo\<lparr>buf := [1, 2, 3]\<rparr>)) \<noteq> 8 \<and>
   clear log_bus (demo\<lparr>buf := [1, 2, 3]\<rparr>)
     = Exc IndexError (demo\<lparr>buf := [1, 2, 3]\<rparr>\<lparr>buf := replicate (min 8 (length (buf (demo\<lparr>buf := [1, 2, 3]\<rparr>)))) 0
                                                  @ drop 8 (buf (demo\<lparr>buf := [1, 2, 3]\<rparr>))\<rparr>)"
proof -
  have h: "length (buf (demo\<lparr>buf := [1, 2, 3]\<rparr>)) \<noteq> 8" by simp
  show ?thesis using h clear_wrong_length [OF h] by blast
qed

text \<open>
  C16. Blink mode is latched while the display is off: \<open>off()\<close>, then
  \<open>set_blinking(mode)\<close>, then \<open>on()\<close> sends exactly the display-off byte
  \<open>0x80\<close> and then \<open>0x81 | mode << 1\<close>; \<open>set_blinking\<close> itself sends nothing.
\<close>

theorem blinking_latched_while_off:
  "obind (off log_bus m) (\<lambda>m. obind (set_blinking log_bus mode m) (on log_bus))
     = Ok (m\<lparr>blinking := mode, is_on := Some True,
              i2c := i2c m @ [(addr m, Byte 0x80), (addr m, Byte (0x81 OR push_bit 1 mode))]\<rparr>)"
  by (simp add: off_def on_def set_blinking_eq send_i2c_log_bus)

text \<open>
  C17. While the display is on, \<open>set_blinking(mode)\<close> stores the mode and
  re-sends the display-on command with the new blink bits at once.
\<close>

theorem set_blinking_while_on:
  assumes "is_on m = Some True" "set_blinking tr mode m = Ok m'"
  shows "m' = m\<lparr>blinking := mode, i2c := i2c m'\<rparr> \<and>
         tr (i2c m) (Byte (0x81 OR push_bit 1 mode)) (addr m) = Inr (i2c m')"
  using assms by (auto simp: set_blinking_eq send_i2c_Ok_iff)

theorem set_blinking_while_on_witness:
  "\<exists>m'. is_on demo = Some True \<and> set_blinking log_bus 2 demo = Ok m' \<and>
        m' = demo\<lparr>blinking := 2, i2c := i2c m'\<rparr> \<and>
        log_bus (i2c demo) (Byte (0x81 OR push_bit 1 2)) (addr demo) = Inr (i2c m')"
proof -
  let ?m' = "demo\<lparr>blinking := 2, i2c := i2c demo @ [(addr demo, Byte (0x81 OR push_bit 1 2))]\<rparr>"
  have on: "is_on demo = Some True" by (simp add: demo_def)
  have run: "set_blinking log_bus 2 demo = Ok ?m'"
    using on by (simp add: set_blinking_eq send_i2c_log_bus)
  have "?m' = demo\<lparr>blinking := 2, i2c := i2c ?m'\<rparr> \<and>
        log_bus (i2c demo) (Byte (0x81 OR push_bit 1 2)) (addr demo) = Inr (i2c ?m')"
    by (rule set_blinking_while_on [OF on run])
  with on run show ?thesis by blast
qed

text \<open>
  C18. Row indices follow Python indexing: \<open>set_row(r, byte)\<close> with
  \<open>-8 <= r < 0\<close> does not fail but writes row \<open>8 + r\<close> and sends it to that
  row's address (the spec treats rows outside 0..7 as invalid input).
\<close>

theorem set_row_negative_index:
  assumes "length (buf m) = 8" "-8 \<le> r" "r < 0" "set_row tr r byte m = Ok m'"
  shows "buf m' = (buf m)[nat (8 + r) := word_of_int byte] \<and>
         tr (i2c m) (Bytes [of_nat (2 * nat (8 + r)), word_rotr 1 (word_of_int byte)]) (addr m) = Inr (i2c m')"
proof -
  have "py_index 8 r = Some (nat (8 + r))"
    using assms(2,3) py_index_negative [of r 8] by simp
  with assms(1,4) show ?thesis
    by (auto simp: set_row_eq send_i2c_Ok_iff)
qed

theorem set_row_negative_index_witness:
  "\<exists>m'. length (buf demo) = 8 \<and> (-8::int) \<le> -1 \<and> (-1::int) < 0 \<and> set_row log_bus (-1) 0xF0 demo = Ok m' \<and>
        buf m' = (buf demo)[nat (8 + -1) := word_of_int 0xF0] \<and>
        log_bus (i2c demo) (Bytes [of_nat (2 * nat (8 + -1)), word_rotr 1 (word_of_int 0xF0)]) (addr demo) = Inr (i2c m')"
proof -
  let ?m' = "demo\<lparr>buf := (buf demo)[7 := word_of_int 0xF0],
                  i2c := i2c demo @ [(addr demo, Bytes [14, word_rotr 1 (word_of_int 0xF0)])]\<rparr>"
  have len: "length (buf demo) = 8" by (simp add: demo_def)
  have run: "set_row log_bus (-1) 0xF0 demo = Ok ?m'"
    by (simp add: set_row_eq len send_i2c_log_bus py_index_def)
  have "buf ?m' = (buf demo)[nat (8 + -1) := word_of_int 0xF0] \<and>
        log_bus (i2c demo) (Bytes [of_nat (2 * nat (8 + -1)), word_rotr 1 (word_of_int 0xF0)]) (addr demo) = Inr (i2c ?m')"
    by (rule set_row_negative_index [OF len _ _ run]) simp_all
  moreover have "(-8::int) \<le> -1" and "(-1::int) < 0" by simp_all
  ultimately show ?thesis using len run by blast
qed

text \<open>
  C19. Columns outside 0..7 in \<open>set_pixel\<close>: a column of 8 or more makes the
  mask \<open>0x80 >> column\<close> zero, so the buffer is unchanged but the row is still
  sent; a negative column raises \<open>ValueError\<close> (negative shift count) before
  anything changes.
\<close>

theorem set_pixel_column_out_of_range:
  assumes "length (buf m) = 8" "0 \<le> r" "r \<le> 7"
  shows "(8 \<le> c \<longrightarrow> set_pixel tr r c m = send_i2c tr (Bytes [of_nat (2 * nat r), word_rotr 1 (buf m ! nat r)]) m) \<and>
         (c < 0 \<longrightarrow> set_pixel tr r c m = Exc ValueError m)"
proof -
  have "py_index 8 r = Some (nat r)" using assms(2,3) by simp
  then show ?thesis
    using assms(1,3) by (simp add: set_pixel_eq col_mask_wide Let_def)
qed

theorem set_pixel_column_out_of_range_witness:
  "length (buf demo) = 8 \<and> (0::int) \<le> 3 \<and> (3::int) \<le> 7 \<and> (8::int) \<le> 9 \<and>
   set_pixel log_bus 3 9 demo = send_i2c log_bus (Bytes [of_nat (2 * nat 3), word_rotr 1 (buf demo ! nat 3)]) demo"
proof -
  have len: "length (buf demo) = 8" by (simp add: demo_def)
  have "8 \<le> (9::int) \<longrightarrow> set_pixel log_bus 3 9 demo
          = send_i2c log_bus (Bytes [of_nat (2 * nat 3), word_rotr 1 (buf demo ! nat 3)]) demo"
    using set_pixel_column_out_of_range [OF len, where r = 3 and c = 9 and tr = log_bus] by simp
  with len show ?thesis by simp
qed

end
