(* ===== verification/Run.thy ===== *)
theory Run
  imports Driver
begin

text \<open>
  The driver as a state machine. \<open>op\<close> lists the public methods of
  \<open>Matrix8x8\<close> with their arguments, \<open>exec\<close> runs one, \<open>valid_op\<close> is the range
  each argument is documented to take (docstrings of \<open>src/matrix8x8.py\<close>: rows
  and columns 0..7, brightness 0..15, blink modes 0..3, 8-byte bitmaps).
  \<open>reachable tr\<close> holds for the objects \<open>__init__\<close> builds and the objects that
  valid calls then produce. The lemmas: every reachable object is well formed
  (8-row buffer, \<open>is_on\<close> set, blink mode in range); on such objects a valid call
  raises nothing but the transport's own error, and on a transport that never
  fails every valid call completes.
\<close>

unbundle bit_operations_syntax

datatype op =
    On | Off | SetBrightness int | SetBlinking int | SetBitmap "int list" | Clear
  | SetRow int int | ClearRow int | SetColumn int int | ClearColumn int
  | SetPixel int int | ClearPixel int int

fun exec :: "'t transport \<Rightarrow> op \<Rightarrow> 't matrix8x8 \<Rightarrow> 't matrix8x8 outcome" where
  "exec tr On = on tr"
| "exec tr Off = off tr"
| "exec tr (SetBrightness v) = set_brightness tr v"
| "exec tr (SetBlinking mode) = set_blinking tr mode"
| "exec tr (SetBitmap bm) = set_bitmap tr bm"
| "exec tr Clear = clear tr"
| "exec tr (SetRow r b) = set_row tr r b"
| "exec tr (ClearRow r) = clear_row tr r"
| "exec tr (SetColumn c b) = set_column tr c b"
| "exec tr (ClearColumn c) = clear_column tr c"
| "exec tr (SetPixel r c) = set_pixel tr r c"
| "exec tr (ClearPixel r c) = clear_pixel tr r c"

definition in_range :: "int \<Rightarrow> int \<Rightarrow> int \<Rightarrow> bool" where
  "in_range lo hi x \<longleftrightarrow> lo \<le> x \<and> x \<le> hi"

fun valid_op :: "op \<Rightarrow> bool" where
  "valid_op (SetBrightness v) = in_range 0 15 v"
| "valid_op (SetBlinking mode) = in_range 0 3 mode"
| "valid_op (SetBitmap bm) = (length bm = 8)"
| "valid_op (SetRow r b) = in_range 0 7 r"
| "valid_op (ClearRow r) = in_range 0 7 r"
| "valid_op (SetColumn c b) = in_range 0 7 c"
| "valid_op (ClearColumn c) = in_range 0 7 c"
| "valid_op (SetPixel r c) = (in_range 0 7 r \<and> in_range 0 7 c)"
| "valid_op (ClearPixel r c) = (in_range 0 7 r \<and> in_range 0 7 c)"
| "valid_op _ = True"

definition wf_matrix :: "'t matrix8x8 \<Rightarrow> bool" where
  "wf_matrix m \<longleftrightarrow> length (buf m) = 8 \<and> is_on m \<noteq> None \<and> in_range 0 3 (blinking m)"

definition total_bus :: "'t transport \<Rightarrow> bool" where
  "total_bus tr \<longleftrightarrow> (\<forall>t d a. \<exists>t'. tr t d a = Inr t')"

inductive reachable :: "'t transport \<Rightarrow> 't matrix8x8 \<Rightarrow> bool" for tr where
  init: "init tr t a br = Ok m \<Longrightarrow> reachable tr m"
| step: "reachable tr m \<Longrightarrow> valid_op p \<Longrightarrow> exec tr p m = Ok m' \<Longrightarrow> reachable tr m'"

inductive_cases reachable_stepE: "reachable tr m'"

lemmas driver_eqs = set_row_eq set_pixel_eq clear_pixel_eq clear_eq set_bitmap_eq
  set_column_eq clear_column_eq set_blinking_eq

lemma py_index_8_in_range [simp]: "in_range 0 7 r \<Longrightarrow> py_index 8 r = Some (nat r)"
  by (simp add: in_range_def)

lemma exec_wf:
  assumes "wf_matrix m" "valid_op p" "exec tr p m = Ok m'"
  shows "wf_matrix m'"
  using assms
  by (cases p)
     (auto simp: wf_matrix_def driver_eqs send_i2c_Ok_iff on_def off_def set_brightness_def clear_row_def
                 Let_def split: if_splits option.splits bool.splits)

lemma init_wf:
  assumes "init tr t a br = Ok m"
  shows "wf_matrix m"
  using assms
  by (auto simp: init_def wf_matrix_def in_range_def send_i2c_Ok_iff set_brightness_def clear_eq on_def)

lemma reachable_wf:
  assumes "reachable tr m"
  shows "wf_matrix m"
  using assms
proof (induction rule: reachable.induct)
  case (init t a br m)
  then show ?case by (rule init_wf)
next
  case (step m p m')
  then show ?case by (blast intro: exec_wf)
qed

lemma send_i2c_total:
  assumes "total_bus tr"
  shows "\<exists>m'. send_i2c tr d m = Ok m'"
proof -
  obtain t where "tr (i2c m) d (addr m) = Inr t"
    using assms unfolding total_bus_def by blast
  then show ?thesis by (simp add: send_i2c_def)
qed

lemma total_bus_log_bus: "total_bus log_bus"
  by (simp add: total_bus_def)


subsection \<open>Properties\<close>

text \<open>
  C20. Invariant: every object reachable from \<open>__init__\<close> by calls with
  documented arguments has an 8-row buffer, an \<open>is_on\<close> attribute, and a blink
  mode in \<open>0..3\<close>, whatever the transport.
\<close>

theorem reachable_invariant:
  assumes "reachable tr m"
  shows "length (buf m) = 8 \<and> is_on m \<noteq> None \<and> 0 \<le> blinking m \<and> blinking m \<le> 3"
  using reachable_wf [OF assms] by (simp add: wf_matrix_def in_range_def)

theorem reachable_invariant_witness:
  "\<exists>m. reachable log_bus m \<and> length (buf m) = 8 \<and> is_on m \<noteq> None \<and> 0 \<le> blinking m \<and> blinking m \<le> 3"
proof -
  obtain m where run: "init log_bus [] 0x70 15 = Ok m"
    by (simp add: init_def send_i2c_log_bus set_brightness_def clear_eq on_def)
  then have r: "reachable log_bus m" by (rule reachable.init)
  then show ?thesis using reachable_invariant [OF r] by blast
qed

text \<open>
  C21. On a well-formed object, a call with documented arguments raises no
  exception of its own (no \<open>IndexError\<close>, \<open>ValueError\<close> or
  \<open>AttributeError\<close>): any exception is the one the transport raised for a
  message to the object's address.
\<close>

theorem exec_error:
  assumes "wf_matrix m" "valid_op p" "exec tr p m = Exc e m'"
  shows "\<exists>d. tr (i2c m) d (addr m) = Inl e"
  using assms
  by (cases p)
     (auto simp: wf_matrix_def driver_eqs send_i2c_Exc_iff on_def off_def set_brightness_def clear_row_def
                 Let_def in_range_def split: if_splits option.splits bool.splits)

theorem exec_error_witness:
  "\<exists>m'. wf_matrix \<lparr>blinking = 0, addr = 0x70, buf = replicate 8 0, is_on = Some True, i2c = ()\<rparr> \<and>
        valid_op On \<and>
        exec (\<lambda>_ _ _. Inl OSError) On \<lparr>blinking = 0, addr = 0x70, buf = replicate 8 0, is_on = Some True, i2c = ()\<rparr>
          = Exc OSError m' \<and>
        (\<exists>d. (\<lambda>_ _ _. Inl OSError) (i2c \<lparr>blinking = 0, addr = 0x70, buf = replicate 8 0, is_on = Some True, i2c = ()\<rparr>) d
               (addr \<lparr>blinking = 0, addr = 0x70, buf = replicate 8 0, is_on = Some True, i2c = ()\<rparr>) = Inl OSError)"
proof -
  let ?m = "\<lparr>blinking = 0, addr = 0x70, buf = replicate 8 0, is_on = Some True, i2c = ()\<rparr>"
  let ?tr = "(\<lambda>_ _ _. Inl OSError) :: unit transport"
  have w: "wf_matrix ?m" by (simp add: wf_matrix_def in_range_def)
  have v: "valid_op On" by simp
  have run: "exec ?tr On ?m = Exc OSError (?m\<lparr>is_on := Some True\<rparr>)"
    by (simp add: on_def send_i2c_def)
  show ?thesis using w v run exec_error [OF w v run] by blast
qed

text \<open>
  C22. Progress: on a transport that never fails, every call with documented
  arguments on a well-formed object completes.
\<close>

theorem exec_progress:
  assumes "total_bus tr" "wf_matrix m" "valid_op p"
  shows "\<exists>m'. exec tr p m = Ok m'"
  using assms
  by (cases p)
     (auto simp: wf_matrix_def driver_eqs on_def off_def set_brightness_def clear_row_def
                 Let_def in_range_def intro: send_i2c_total split: option.splits bool.splits)

theorem exec_progress_witness:
  "total_bus log_bus \<and> wf_matrix demo \<and> valid_op (SetPixel 1 6) \<and> (\<exists>m'. exec log_bus (SetPixel 1 6) demo = Ok m')"
proof -
  have w: "wf_matrix demo" by (simp add: wf_matrix_def in_range_def demo_def)
  have v: "valid_op (SetPixel 1 6)" by (simp add: in_range_def)
  show ?thesis using total_bus_log_bus w v exec_progress [OF total_bus_log_bus w v] by blast
qed

end
