(* ===== verification/Device.thy ===== *)
theory Device
  imports Run
begin

text \<open>
  An abstract model of the HT16K33 (from its command summary, not from the
  repository: the chip is the transport's far end) and the refinement the spec
  asks for: the device state mirrors the driver's shadow state after every
  successful call. \<open>ht16k33\<close> holds the oscillator flag, the display-setup
  register (on flag and blink rate), the dimming level and the 16-byte display
  RAM. \<open>ht_command\<close> executes one I2C write: the first byte is the command
  (high nibble 0: display-address pointer; 2: system setup; 8: display setup;
  E: dimming; any other byte is ignored); after a display-address byte the
  remaining bytes are written to RAM from that address on, the pointer wrapping
  at 16. \<open>ht_bus a\<close> is the
  transport of a chip at bus address \<open>a\<close> (a write to another address is not
  acknowledged: \<open>OSError\<close>). \<open>shown\<close> reads the picture back from RAM: row
  \<open>j\<close> lives at address \<open>2 j\<close>, rotated by the backpack's wiring.
\<close>

unbundle bit_operations_syntax

record ht16k33 =
  osc :: bool
  disp :: bool
  blink :: nat
  dim :: nat
  ram :: "nat \<Rightarrow> byte"

fun ram_write :: "nat \<Rightarrow> byte list \<Rightarrow> (nat \<Rightarrow> byte) \<Rightarrow> (nat \<Rightarrow> byte)" where
  "ram_write p [] r = r"
| "ram_write p (x # xs) r = ram_write ((p + 1) mod 16) xs (r(p := x))"

definition ht_command :: "byte list \<Rightarrow> ht16k33 \<Rightarrow> ht16k33" where
  "ht_command bs d =
     (case bs of
        [] \<Rightarrow> d
      | c # rest \<Rightarrow>
          let hi = drop_bit 4 c in
          if hi = 0x0 then d\<lparr>ram := ram_write (unat (c AND 0x0F)) rest (ram d)\<rparr>
          else if hi = 0x2 then d\<lparr>osc := bit c 0\<rparr>
          else if hi = 0x8 then d\<lparr>disp := bit c 0, blink := unat (drop_bit 1 c AND 3)\<rparr>
          else if hi = 0xE then d\<lparr>dim := unat (c AND 0x0F)\<rparr>
          else d)"

definition ht_bus :: "int \<Rightarrow> ht16k33 transport" where
  "ht_bus a0 d msg a = (if a = a0 then Inr (ht_command (wire_of msg) d) else Inl OSError)"

definition shown :: "ht16k33 \<Rightarrow> byte list" where
  "shown d = map (\<lambda>j. word_rotl 1 (ram d (2 * j))) [0..<8]"

definition in_sync :: "ht16k33 matrix8x8 \<Rightarrow> bool" where
  "in_sync m \<longleftrightarrow>
     wf_matrix m \<and> osc (i2c m) \<and> shown (i2c m) = buf m \<and> disp (i2c m) = (is_on m = Some True) \<and>
     (is_on m = Some True \<longrightarrow> blink (i2c m) = nat (blinking m))"

text \<open>A chip in some state after power-up (the driver never reads it back).\<close>

definition chip0 :: ht16k33 where
  "chip0 = \<lparr>osc = False, disp = False, blink = 0, dim = 0, ram = (\<lambda>_. 0)\<rparr>"

subsection \<open>The chip's response to each message the driver sends\<close>

lemma ram_write_eq:
  "p + length xs \<le> 16 \<Longrightarrow>
   ram_write p xs r k = (if p \<le> k \<and> k < p + length xs then xs ! (k - p) else r k)"
proof (induction xs arbitrary: p r)
  case Nil
  then show ?case by auto
next
  case (Cons x xs)
  show ?case
  proof (cases xs)
    case Nil
    then show ?thesis by auto
  next
    case (Cons y ys)
    with Cons.prems have "(p + 1) mod 16 = p + 1" by simp
    then have e: "ram_write p (x # xs) r k = ram_write (p + 1) xs (r(p := x)) k" by simp
    have ih: "ram_write (p + 1) xs (r(p := x)) k
        = (if p + 1 \<le> k \<and> k < p + 1 + length xs then xs ! (k - (p + 1)) else (r(p := x)) k)"
      using Cons.prems by (intro Cons.IH) simp
    show ?thesis
      unfolding e ih by (auto simp: nth_Cons')
  qed
qed

lemma nth_concat_pairs_even:
  "j < length b \<Longrightarrow> concat (map (\<lambda>w. [x w, y w]) b) ! (2 * j) = x (b ! j)"
proof (induction b arbitrary: j)
  case Nil
  then show ?case by simp
next
  case (Cons w b)
  then show ?case by (cases j) (simp_all add: nth_append)
qed

lemma wire_frame_Cons:
  assumes "length b = 8"
  shows "wire_frame b = 0 # tl (wire_frame b)" and "length (tl (wire_frame b)) = 15"
proof -
  obtain w ws where "b = w # ws" using assms by (cases b) auto
  then show "wire_frame b = 0 # tl (wire_frame b)" by (simp add: wire_frame_def)
  show "length (tl (wire_frame b)) = 15" using assms by simp
qed

lemma ht_command_frame:
  assumes "length b = 8"
  shows "ht_command (wire_frame b) d = d\<lparr>ram := ram_write 0 (tl (wire_frame b)) (ram d)\<rparr>"
  by (subst wire_frame_Cons(1) [OF assms]) (simp add: ht_command_def)

lemma ram_frame_even:
  assumes "length b = 8" "j < 8"
  shows "ram (ht_command (wire_frame b) d) (2 * j) = word_rotr 1 (b ! j)"
proof -
  have "ram (ht_command (wire_frame b) d) (2 * j) = tl (wire_frame b) ! (2 * j)"
    using assms by (simp add: ht_command_frame ram_write_eq wire_frame_Cons(2))
  also have "\<dots> = wire_frame b ! Suc (2 * j)"
    using assms wire_frame_Cons(2) [OF assms(1)] by (simp add: nth_tl)
  also have "\<dots> = word_rotr 1 (b ! j)"
    using assms by (simp add: wire_frame_def nth_append nth_concat_pairs)
  finally show ?thesis .
qed

lemma ram_frame_odd:
  assumes "length b = 8" "j < 7"
  shows "ram (ht_command (wire_frame b) d) (2 * j + 1) = 0"
proof -
  have "ram (ht_command (wire_frame b) d) (2 * j + 1) = tl (wire_frame b) ! (2 * j + 1)"
    using assms by (simp add: ht_command_frame ram_write_eq wire_frame_Cons(2))
  also have "\<dots> = wire_frame b ! (2 * Suc j)"
    using assms wire_frame_Cons(2) [OF assms(1)] by (simp add: nth_tl)
  also have "\<dots> = 0"
    using assms nth_concat_pairs_even [of "Suc j" b "\<lambda>_. 0" "word_rotr 1"]
    by (simp add: wire_frame_def nth_append)
  finally show ?thesis .
qed

lemma shown_frame:
  assumes "length b = 8"
  shows "shown (ht_command (wire_frame b) d) = b"
  using assms by (auto intro!: nth_equalityI simp: shown_def ram_frame_even)

lemma ht_command_row:
  assumes "j < 8"
  shows "ht_command [of_nat (2 * j), x] d = d\<lparr>ram := (ram d)(2 * j := x)\<rparr>"
proof -
  have "j \<in> {0, 1, 2, 3, 4, 5, 6, 7}" using assms by auto
  then show ?thesis by (auto simp: ht_command_def)
qed

lemma ht_command_on:
  assumes "in_range 0 3 mode"
  shows "ht_command (wire_of (Byte (0x81 OR push_bit 1 mode))) d = d\<lparr>disp := True, blink := nat mode\<rparr>"
proof -
  have "mode \<in> {0, 1, 2, 3}" using assms by (auto simp: in_range_def)
  then show ?thesis by (auto simp: ht_command_def)
qed

lemma ht_command_off: "ht_command (wire_of (Byte 0x80)) d = d\<lparr>disp := False, blink := 0\<rparr>"
  by (simp add: ht_command_def)

lemma ht_command_osc: "ht_command (wire_of (Byte 0x21)) d = d\<lparr>osc := True\<rparr>"
  by (simp add: ht_command_def)

lemma ht_command_dimming:
  assumes "in_range 0 15 v"
  shows "ht_command (wire_of (Byte (0xE0 OR v))) d = d\<lparr>dim := nat v\<rparr>"
proof -
  have "v \<in> {0, 1, 2, 3, 4, 5, 6, 7, 8, 9, 10, 11, 12, 13, 14, 15}"
    using assms unfolding in_range_def by simp presburger
  then show ?thesis by (auto simp: ht_command_def)
qed

text \<open>Any brightness value, also outside \<open>0..15\<close>, only touches the dimming
  register or nothing: \<open>0xE0 | value\<close> always has bits 5 to 7 set.\<close>

lemma ht_command_brightness_any:
  "ram (ht_command (wire_of (Byte (0xE0 OR v))) d) = ram d \<and>
   osc (ht_command (wire_of (Byte (0xE0 OR v))) d) = osc d \<and>
   disp (ht_command (wire_of (Byte (0xE0 OR v))) d) = disp d \<and>
   blink (ht_command (wire_of (Byte (0xE0 OR v))) d) = blink d"
proof -
  let ?c = "word_of_int (0xE0 OR v) :: byte"
  have b: "bit (drop_bit 4 ?c) 2"
    by (simp add: bit_drop_bit_eq bit_word_of_int_iff bit_or_iff)
  then have "drop_bit 4 ?c \<noteq> 0" "drop_bit 4 ?c \<noteq> 2" "drop_bit 4 ?c \<noteq> 8"
    by auto
  then show ?thesis
    by (simp add: ht_command_def Let_def)
qed

lemma send_i2c_ht_bus:
  "addr m = a \<Longrightarrow> send_i2c (ht_bus a) d m = Ok (m\<lparr>i2c := ht_command (wire_of d) (i2c m)\<rparr>)"
  by (simp add: send_i2c_def ht_bus_def)

lemma shown_row:
  "j < 8 \<Longrightarrow> shown (d\<lparr>ram := (ram d)(2 * j := word_rotr 1 w)\<rparr>) = (shown d)[j := w]"
  by (auto intro!: nth_equalityI simp: shown_def nth_list_update)

lemma on_ht:
  assumes "addr m = a" "in_range 0 3 (blinking m)"
  shows "on (ht_bus a) m =
     Ok (m\<lparr>is_on := Some True, i2c := (i2c m)\<lparr>disp := True, blink := nat (blinking m)\<rparr>\<rparr>)"
  using assms ht_command_on [OF assms(2), of "i2c m"] by (simp add: on_def send_i2c_ht_bus)

lemma off_ht:
  "addr m = a \<Longrightarrow>
   off (ht_bus a) m = Ok (m\<lparr>is_on := Some False, i2c := (i2c m)\<lparr>disp := False, blink := 0\<rparr>\<rparr>)"
  using ht_command_off [of "i2c m"] by (simp add: off_def send_i2c_ht_bus)

text \<open>A frame write replaces the picture and leaves the control registers.\<close>

lemma frame_in_sync:
  assumes "in_sync m" "length b = 8"
  shows "in_sync (m\<lparr>buf := b, i2c := ht_command (wire_frame b) (i2c m)\<rparr>)"
  using assms shown_frame [OF assms(2), of "i2c m"] by (simp add: in_sync_def wf_matrix_def ht_command_frame)

lemma row_in_sync:
  assumes "in_sync m" "in_range 0 7 r"
  shows "in_sync (m\<lparr>buf := (buf m)[nat r := w],
                      i2c := ht_command [of_nat (2 * nat r), word_rotr 1 w] (i2c m)\<rparr>)"
proof -
  have j: "nat r < 8" using assms(2) by (simp add: in_range_def nat_less_iff)
  show ?thesis
    unfolding ht_command_row [OF j] using assms(1) shown_row [OF j, of "i2c m" w]
    by (simp add: in_sync_def wf_matrix_def)
qed

text \<open>The calls fall in three groups by what they send: a control command, the
  full frame, or one row.\<close>

lemma control_ops_in_sync:
  assumes "in_sync m" "addr m = a" "valid_op p" "p \<in> {On, Off} \<union> range SetBrightness \<union> range SetBlinking"
  shows "\<exists>m'. exec (ht_bus a) p m = Ok m' \<and> in_sync m'"
  using assms(4)
proof (elim UnE insertE rangeE)
  assume "p = On" then show ?thesis using assms by (auto simp: on_ht in_sync_def wf_matrix_def shown_def)
next
  assume "p = Off" then show ?thesis using assms by (auto simp: off_ht in_sync_def wf_matrix_def shown_def)
next
  fix v assume "p = SetBrightness v"
  then show ?thesis using assms ht_command_brightness_any [of v "i2c m"]
    by (auto simp: set_brightness_def send_i2c_ht_bus in_sync_def wf_matrix_def shown_def)
next
  fix mode assume "p = SetBlinking mode"
  then show ?thesis using assms
    by (auto simp: set_blinking_def on_ht in_sync_def wf_matrix_def shown_def split: option.splits bool.splits)
qed simp

lemma frame_ops_in_sync:
  assumes "in_sync m" "addr m = a" "valid_op p"
    "p \<in> {Clear} \<union> range SetBitmap \<union> range (case_prod SetColumn) \<union> range ClearColumn"
  shows "\<exists>m'. exec (ht_bus a) p m = Ok m' \<and> in_sync m'"
proof -
  have l: "length (buf m) = 8" using assms(1) by (simp add: in_sync_def wf_matrix_def)
  note f = frame_in_sync [OF assms(1)]
  from assms(4) show ?thesis
  proof (elim UnE insertE rangeE)
    assume "p = Clear" then show ?thesis
      using assms l f [of "replicate 8 0"] by (simp add: clear_eq send_i2c_ht_bus wire_frame_zero)
  next
    fix bm assume "p = SetBitmap bm" then show ?thesis
      using assms f [of "map word_of_int bm"] by (simp add: set_bitmap_eq send_i2c_ht_bus Let_def)
  next
    fix cb assume "p = case_prod SetColumn cb" then show ?thesis
      using assms l f [of "put_column (nat (fst cb)) (snd cb) (buf m)"]
      by (cases cb) (simp add: set_column_eq send_i2c_ht_bus in_range_def Let_def)
  next
    fix c assume "p = ClearColumn c" then show ?thesis
      using assms l f [of "put_column (nat c) 0 (buf m)"]
      by (simp add: clear_column_eq send_i2c_ht_bus in_range_def Let_def)
  qed simp
qed

lemma row_ops_in_sync:
  assumes "in_sync m" "addr m = a" "valid_op p"
    "p \<in> range (case_prod SetRow) \<union> range ClearRow \<union> range (case_prod SetPixel) \<union> range (case_prod ClearPixel)"
  shows "\<exists>m'. exec (ht_bus a) p m = Ok m' \<and> in_sync m'"
proof -
  have l: "length (buf m) = 8" using assms(1) by (simp add: in_sync_def wf_matrix_def)
  note r = row_in_sync [OF assms(1)]
  from assms(4) show ?thesis
  proof (elim UnE rangeE)
    fix rb assume "p = case_prod SetRow rb" then show ?thesis
      using assms l r [of "fst rb" "word_of_int (snd rb)"]
      by (cases rb) (simp add: set_row_eq send_i2c_ht_bus in_range_def)
  next
    fix row assume "p = ClearRow row" then show ?thesis
      using assms l r [of row 0] by (simp add: clear_row_def set_row_eq send_i2c_ht_bus)
  next
    fix rc assume "p = case_prod SetPixel rc" then show ?thesis
      using assms l r [of "fst rc" "buf m ! nat (fst rc) OR col_mask (nat (snd rc))"]
      by (cases rc) (simp add: set_pixel_eq send_i2c_ht_bus in_range_def Let_def)
  next
    fix rc assume "p = case_prod ClearPixel rc" then show ?thesis
      using assms l r [of "fst rc" "buf m ! nat (fst rc) AND NOT (col_mask (nat (snd rc)))"]
      by (cases rc) (simp add: clear_pixel_eq send_i2c_ht_bus in_range_def Let_def)
  qed
qed

lemma exec_in_sync:
  assumes "in_sync m" "valid_op p" "addr m = a"
  shows "\<exists>m'. exec (ht_bus a) p m = Ok m' \<and> in_sync m'"
proof -
  have "p \<in> {On, Off} \<union> range SetBrightness \<union> range SetBlinking \<or>
        p \<in> {Clear} \<union> range SetBitmap \<union> range (case_prod SetColumn) \<union> range ClearColumn \<or>
        p \<in> range (case_prod SetRow) \<union> range ClearRow \<union> range (case_prod SetPixel) \<union> range (case_prod ClearPixel)"
    by (cases p) (auto simp: image_iff)
  then show ?thesis
    using control_ops_in_sync frame_ops_in_sync row_ops_in_sync assms by blast
qed

lemma exec_addr:
  assumes "wf_matrix m" "exec tr p m = Ok m'"
  shows "addr m' = addr m"
  using assms
  by (cases p)
     (auto simp: wf_matrix_def driver_eqs send_i2c_Ok_iff on_def off_def set_brightness_def clear_row_def
                 Let_def split: if_splits option.splits bool.splits)

lemma drop_bit_brightness:
  "drop_bit 4 (word_of_int (0xE0 OR v) :: byte) = (if bit v 4 then 0xF else 0xE)"
proof (rule bit_word_eqI)
  fix n assume "n < LENGTH(8)"
  then have "n \<in> {0, 1, 2, 3, 4, 5, 6, 7}" by auto
  then show "bit (drop_bit 4 (word_of_int (0xE0 OR v) :: byte)) n = bit (if bit v 4 then 0xF else 0xE :: byte) n"
    by (auto simp: bit_simps)
qed

lemma unat_brightness_low:
  "unat (word_of_int (0xE0 OR v) AND 0x0F :: byte) = nat (v AND 15)"
proof -
  have "(word_of_int (0xE0 OR v) AND 0x0F :: byte) = word_of_int (v AND 15)"
  proof (rule bit_word_eqI)
    fix n assume "n < LENGTH(8)"
    then have "n \<in> {0, 1, 2, 3, 4, 5, 6, 7}" by auto
    then show "bit (word_of_int (0xE0 OR v) AND 0x0F :: byte) n = bit (word_of_int (v AND 15) :: byte) n"
      by (auto simp: bit_simps)
  qed
  moreover have "0 \<le> v AND 15" "v AND 15 < 256"
    using and_less_eq [of 15 v] by simp_all
  ultimately show ?thesis by (simp add: unat_eq_nat_uint take_bit_int_eq_self)
qed

lemma ht_command_brightness:
  "ht_command (wire_of (Byte (0xE0 OR v))) d = (if bit v 4 then d else d\<lparr>dim := nat (v AND 15)\<rparr>)"
  by (simp add: ht_command_def drop_bit_brightness unat_brightness_low Let_def)

lemma clear_ht:
  assumes "length (buf m) = 8" "addr m = a"
  shows "clear (ht_bus a) m =
     Ok (m\<lparr>buf := replicate 8 0, i2c := ht_command (wire_frame (replicate 8 0)) (i2c m)\<rparr>)"
  using assms by (simp add: clear_eq send_i2c_ht_bus wire_frame_zero)

lemma init_in_sync:
  "\<exists>m. init (ht_bus a) d a br = Ok m \<and> in_sync m \<and> addr m = a \<and> buf m = replicate 8 0"
proof -
  define m1 where "m1 = \<lparr>blinking = 0, addr = a, buf = replicate 8 0, is_on = None,
                           i2c = d\<lparr>osc := True\<rparr>\<rparr>"
  define m2 where "m2 = (if bit br 4 then m1 else m1\<lparr>i2c := (i2c m1)\<lparr>dim := nat (br AND 15)\<rparr>\<rparr>)"
  define m3 where "m3 = m2\<lparr>buf := replicate 8 0, i2c := ht_command (wire_frame (replicate 8 0)) (i2c m2)\<rparr>"
  define m4 where "m4 = m3\<lparr>is_on := Some True, i2c := (i2c m3)\<lparr>disp := True, blink := 0\<rparr>\<rparr>"
  have a: "addr m1 = a" "addr m2 = a" "addr m3 = a" and l: "length (buf m2) = 8"
    by (simp_all add: m1_def m2_def m3_def)
  have b: "blinking m3 = 0" by (simp add: m1_def m2_def m3_def)
  have "send_i2c (ht_bus a) (Byte 0x21) \<lparr>blinking = 0, addr = a, buf = replicate 8 0, is_on = None, i2c = d\<rparr> = Ok m1"
    using ht_command_osc [of d] by (simp add: send_i2c_ht_bus m1_def)
  moreover have "set_brightness (ht_bus a) br m1 = Ok m2"
    using a ht_command_brightness [of br "i2c m1"]
    by (simp add: set_brightness_def send_i2c_ht_bus m2_def split: if_splits)
  moreover have "clear (ht_bus a) m2 = Ok m3"
    using a l by (simp add: clear_ht m3_def)
  moreover have "on (ht_bus a) m3 = Ok m4"
    using a b by (simp add: on_ht m4_def in_range_def)
  ultimately have "init (ht_bus a) d a br = Ok m4"
    by (simp add: init_def)
  moreover have "in_sync m4"
    using shown_frame [of "replicate 8 0" "i2c m2"]
    by (simp add: in_sync_def wf_matrix_def in_range_def m4_def m3_def m2_def m1_def ht_command_frame shown_def)
  moreover have "addr m4 = a" "buf m4 = replicate 8 0" by (simp_all add: m4_def m3_def m2_def m1_def)
  ultimately show ?thesis by blast
qed

lemma init_ht_addr:
  assumes "init (ht_bus a) d a' br = Ok m"
  shows "a' = a"
  using assms by (cases "a' = a") (simp_all add: init_def send_i2c_def ht_bus_def Let_def)

subsection \<open>Properties\<close>

text \<open>C26. The device mirrors the driver: in every state the driver reaches on an
  HT16K33 at its address (by \<open>__init__\<close> and then any sequence of calls with
  documented arguments), the oscillator is running, the chip's display RAM shows
  the frame buffer, the chip's display is on exactly when \<open>is_on\<close> is true, and
  while on it blinks at the cached rate.\<close>

theorem reachable_in_sync:
  assumes "reachable (ht_bus a) m"
  shows "in_sync m \<and> addr m = a"
  using assms
proof (induction rule: reachable.induct)
  case (init t a' br m)
  then have "a' = a" by (rule init_ht_addr)
  with init init_in_sync [of a t br] show ?case by auto
next
  case (step m p m')
  then obtain m'' where "exec (ht_bus a) p m = Ok m''" "in_sync m''"
    using exec_in_sync by blast
  moreover have "addr m' = addr m"
    using step exec_addr in_sync_def by blast
  ultimately show ?case using step by simp
qed

theorem reachable_in_sync_witness:
  "\<exists>m. init (ht_bus 0x70) chip0 0x70 15 = Ok m \<and> reachable (ht_bus 0x70) m \<and>
       in_sync m \<and> addr m = 0x70"
proof -
  obtain m where i: "init (ht_bus 0x70) chip0 0x70 15 = Ok m"
    using init_in_sync by blast
  then have r: "reachable (ht_bus 0x70) m" by (rule reachable.init)
  have "in_sync m \<and> addr m = 0x70" by (rule reachable_in_sync [OF r])
  with i r show ?thesis by blast
qed

text \<open>C27. From a state in which the chip mirrors the driver, any sequence of
  calls with documented arguments runs to the end without an exception and
  leaves the chip mirroring the driver.\<close>

theorem exec_sequence_in_sync:
  assumes "in_sync m" "addr m = a" "list_all valid_op ps"
  shows "\<exists>m'. for_each (exec (ht_bus a)) ps m = Ok m' \<and> in_sync m' \<and> addr m' = a"
  using assms
proof (induction ps arbitrary: m)
  case Nil
  then show ?case by simp
next
  case (Cons p ps)
  then obtain m1 where e: "exec (ht_bus a) p m = Ok m1" "in_sync m1"
    using exec_in_sync by fastforce
  moreover have "addr m1 = a"
    using Cons.prems e exec_addr in_sync_def by metis
  ultimately show ?case using Cons by simp
qed

theorem exec_sequence_in_sync_witness:
  "\<exists>m m'. init (ht_bus 0x70) chip0 0x70 15 = Ok m \<and>
     for_each (exec (ht_bus 0x70)) [SetPixel 3 5, SetBlinking 2, Off, SetColumn 0 0xFF, On] m = Ok m' \<and>
     in_sync m'"
proof -
  obtain m where i: "init (ht_bus 0x70) chip0 0x70 15 = Ok m" "in_sync m" "addr m = 0x70"
    using init_in_sync by blast
  have v: "list_all valid_op [SetPixel 3 5, SetBlinking 2, Off, SetColumn 0 0xFF, On]"
    by (simp add: in_range_def)
  obtain m' where "for_each (exec (ht_bus 0x70)) [SetPixel 3 5, SetBlinking 2, Off, SetColumn 0 0xFF, On] m = Ok m'"
      "in_sync m'"
    using exec_sequence_in_sync [OF i(2) i(3) v] by blast
  with i show ?thesis by blast
qed

text \<open>C28. \<open>set_brightness(value)\<close> on the chip: the command byte is
  \<open>0xE0 | value\<close> truncated to 8 bits. When bit 4 of \<open>value\<close> is clear, the chip
  sets its dimming level to the low four bits of \<open>value\<close> (so a level in 0..15 is
  set exactly, and 32 sets level 0); when bit 4 is set the byte is \<open>0xF_\<close>, which
  is no HT16K33 command, and nothing changes.\<close>

theorem set_brightness_ht:
  assumes "addr m = a"
  shows "set_brightness (ht_bus a) v m =
     Ok (if bit v 4 then m else m\<lparr>i2c := (i2c m)\<lparr>dim := nat (v AND 15)\<rparr>\<rparr>)"
  using assms ht_command_brightness [of v "i2c m"]
  by (simp add: set_brightness_def send_i2c_ht_bus split: if_splits)

theorem set_brightness_ht_witness:
  "set_brightness (ht_bus 0x70) 9 \<lparr>blinking = 0, addr = 0x70, buf = replicate 8 0, is_on = Some True, i2c = chip0\<rparr> =
     Ok \<lparr>blinking = 0, addr = 0x70, buf = replicate 8 0, is_on = Some True, i2c = chip0\<lparr>dim := 9\<rparr>\<rparr> \<and>
   set_brightness (ht_bus 0x70) 18 \<lparr>blinking = 0, addr = 0x70, buf = replicate 8 0, is_on = Some True, i2c = chip0\<rparr> =
     Ok \<lparr>blinking = 0, addr = 0x70, buf = replicate 8 0, is_on = Some True, i2c = chip0\<rparr>"
  using set_brightness_ht [where m = "\<lparr>blinking = 0, addr = 0x70, buf = replicate 8 0, is_on = Some True, i2c = chip0\<rparr>"
      and a = "0x70" and v = 9]
    set_brightness_ht [where m = "\<lparr>blinking = 0, addr = 0x70, buf = replicate 8 0, is_on = Some True, i2c = chip0\<rparr>"
      and a = "0x70" and v = 18]
  by simp

text \<open>C29. \<open>set(bitmap)\<close> with 8 rows on the chip, from any chip state: the
  display RAM shows the new buffer afterwards, whatever it showed before; the
  even-index bytes of the 16-byte frame are not skipped but written, as zeros, to
  the odd RAM registers 1, 3, ..., 13 (byte 0 is the address command); register
  15 is not written.\<close>

theorem set_bitmap_ht:
  assumes "length bm = 8" "addr m = a"
  shows "\<exists>m'. set_bitmap (ht_bus a) bm m = Ok m' \<and> buf m' = map word_of_int bm \<and>
           shown (i2c m') = buf m' \<and>
           map (\<lambda>j. ram (i2c m') (2 * j + 1)) [0..<7] = replicate 7 0 \<and>
           ram (i2c m') 15 = ram (i2c m) 15"
proof -
  let ?b = "map word_of_int bm :: byte list"
  let ?d = "ht_command (wire_frame ?b) (i2c m)"
  have l: "length ?b = 8" using assms(1) by simp
  have "set_bitmap (ht_bus a) bm m = Ok (m\<lparr>buf := ?b, i2c := ?d\<rparr>)"
    using assms by (simp add: set_bitmap_eq send_i2c_ht_bus Let_def)
  moreover have "map (\<lambda>j. ram ?d (2 * j + 1)) [0..<7] = replicate 7 0"
    using ram_frame_odd [OF l] by (auto intro!: nth_equalityI)
  moreover have "ram ?d 15 = ram (i2c m) 15"
    using wire_frame_Cons(2) [OF l] by (simp add: ht_command_frame [OF l] ram_write_eq)
  ultimately show ?thesis
    using shown_frame [OF l, of "i2c m"] by simp
qed

theorem set_bitmap_ht_witness:
  "\<exists>m'. set_bitmap (ht_bus 0x70) [1, 2, 3, 4, 5, 6, 7, 8]
          \<lparr>blinking = 0, addr = 0x70, buf = replicate 8 0, is_on = Some True, i2c = chip0\<lparr>ram := (\<lambda>_. 0xFF)\<rparr>\<rparr>
        = Ok m' \<and> shown (i2c m') = [1, 2, 3, 4, 5, 6, 7, 8] \<and>
        map (\<lambda>j. ram (i2c m') (2 * j + 1)) [0..<7] = replicate 7 0 \<and> ram (i2c m') 15 = 0xFF"
proof -
  obtain m' where "set_bitmap (ht_bus 0x70) [1, 2, 3, 4, 5, 6, 7, 8]
          \<lparr>blinking = 0, addr = 0x70, buf = replicate 8 0, is_on = Some True, i2c = chip0\<lparr>ram := (\<lambda>_. 0xFF)\<rparr>\<rparr>
        = Ok m'" "buf m' = map word_of_int [1, 2, 3, 4, 5, 6, 7, 8]" "shown (i2c m') = buf m'"
      "map (\<lambda>j. ram (i2c m') (2 * j + 1)) [0..<7] = replicate 7 0" "ram (i2c m') 15 = 0xFF"
    using set_bitmap_ht [where bm = "[1, 2, 3, 4, 5, 6, 7, 8]" and a = "0x70" and
        m = "\<lparr>blinking = 0, addr = 0x70, buf = replicate 8 0, is_on = Some True, i2c = chip0\<lparr>ram := (\<lambda>_. 0xFF)\<rparr>\<rparr>"]
    by auto
  then show ?thesis by auto
qed

text \<open>C30. \<open>set_row\<close> on the chip updates exactly that row of the picture the
  chip shows and no other: rows on which chip and buffer disagree (after a
  failed send, say) stay different, so a successful row write does not bring
  the device back in step with the buffer.\<close>

theorem set_row_ht:
  assumes "length (buf m) = 8" "addr m = a" "in_range 0 7 r"
  shows "\<exists>m'. set_row (ht_bus a) r v m = Ok m' \<and> buf m' = (buf m)[nat r := word_of_int v] \<and>
           shown (i2c m') = (shown (i2c m))[nat r := word_of_int v]"
proof -
  have j: "nat r < 8" using assms(3) by (simp add: in_range_def nat_less_iff)
  have "set_row (ht_bus a) r v m =
      Ok (m\<lparr>buf := (buf m)[nat r := word_of_int v],
            i2c := (i2c m)\<lparr>ram := (ram (i2c m))(2 * nat r := word_rotr 1 (word_of_int v))\<rparr>\<rparr>)"
    using assms ht_command_row [OF j, of "word_rotr 1 (word_of_int v)" "i2c m"]
    by (simp add: set_row_eq send_i2c_ht_bus)
  then show ?thesis
    using shown_row [OF j, of "i2c m" "word_of_int v"] by simp
qed

theorem set_row_ht_witness:
  "\<exists>m'. set_row (ht_bus 0x70) 0 0xFF
          \<lparr>blinking = 0, addr = 0x70, buf = replicate 8 1, is_on = Some True, i2c = chip0\<rparr> = Ok m' \<and>
        buf m' = 0xFF # replicate 7 1 \<and> shown (i2c m') = 0xFF # replicate 7 0 \<and> shown (i2c m') \<noteq> buf m'"
proof -
  have s0: "shown chip0 = replicate 8 0"
    by (simp add: shown_def chip0_def upt_rec numeral_eq_Suc)
  obtain m' where "set_row (ht_bus 0x70) 0 0xFF
          \<lparr>blinking = 0, addr = 0x70, buf = replicate 8 1, is_on = Some True, i2c = chip0\<rparr> = Ok m'"
      "buf m' = (replicate 8 1)[0 := 0xFF]" "shown (i2c m') = (shown chip0)[0 := 0xFF]"
    using set_row_ht [where m = "\<lparr>blinking = 0, addr = 0x70, buf = replicate 8 1, is_on = Some True, i2c = chip0\<rparr>"
        and a = "0x70" and r = 0 and v = "0xFF"]
    by (auto simp: in_range_def)
  then show ?thesis
    by (simp add: s0 numeral_eq_Suc)
qed

end
