(* ===== verification/GameOfLife.thy ===== *)
theory GameOfLife
  imports Device "HOL-Library.Product_Lexorder" "HOL-Library.Stream"
begin

text \<open>
  The Game of Life demo, \<open>src/examples/game_of_life.py\<close>: a client of the driver.
  A board is the Python set of live cells \<open>(x, y)\<close> (a \<open>cell set\<close>; row \<open>x\<close>,
  column \<open>y\<close>). \<open>neighbors\<close> lists the eight neighbours in the generator's order;
  \<open>advance\<close> is the loop over the 64 cells of \<open>range(8) \<times> range(8)\<close> (\<open>cells8\<close>)
  with the count of live neighbours (\<open>live_count\<close>, the sum of booleans);
  \<open>generate_board\<close> reads \<open>pyb.rng()\<close> from a stream of values, one per cell in
  loop order; \<open>board_to_bitmap\<close> is the loop over the set with the augmented
  store \<open>bitmap[x] |= 0x80 >> y\<close>, over a list giving the set's iteration order
  (Python fixes none; the lemmas show the order does not matter), and
  \<open>bitmap_cell_ok\<close>/\<open>cell_error\<close> say which cells it accepts and what the
  others raise;
  \<open>restart_animation\<close> lights and then darkens the rows (the delays are timing
  only). The main \<open>while True\<close> loop is \<open>game_iteration\<close> on the record \<open>game\<close>
  of the script's globals, run for \<open>n\<close> passes by \<open>game_run\<close> and without end by
  \<open>game_forever\<close>; \<open>board = None\<close> and an empty board are both falsy and are read
  only by \<open>not board\<close>, so the initial \<open>None\<close> is the empty set.
\<close>

unbundle bit_operations_syntax

type_synonym cell = "int \<times> int"

definition neighbors :: "cell \<Rightarrow> cell list" where
  "neighbors cell =
     (case cell of (x, y) \<Rightarrow>
        [(x, y + 1), (x, y - 1), (x + 1, y), (x + 1, y + 1), (x + 1, y - 1),
         (x - 1, y), (x - 1, y + 1), (x - 1, y - 1)])"

text \<open>The generator \<open>((x, y) for x in range(8) for y in range(8))\<close>.\<close>

definition cells8 :: "cell list" where
  "cells8 = concat (map (\<lambda>x. map (\<lambda>y. (x, y)) range8) range8)"

definition live_count :: "cell set \<Rightarrow> cell \<Rightarrow> int" where
  "live_count board cell = sum_list (map (\<lambda>neigh. of_bool (neigh \<in> board)) (neighbors cell))"

text \<open>One pass of the loop of \<open>advance\<close>, adding to \<open>new_board\<close>.\<close>

definition advance_step :: "cell set \<Rightarrow> cell \<Rightarrow> cell set \<Rightarrow> cell set" where
  "advance_step board cell new_board =
     (let count = live_count board cell in
      if count = 3 \<or> (count = 2 \<and> cell \<in> board) then insert cell new_board else new_board)"

definition advance :: "cell set \<Rightarrow> cell set \<times> bool" where
  "advance board =
     (let new_board = fold (advance_step board) cells8 {} in (new_board, new_board = board))"

text \<open>One pass of the nested loop of \<open>generate_board\<close>: one call of \<open>pyb.rng()\<close>.\<close>

definition gen_step :: "cell \<Rightarrow> cell set \<times> int stream \<Rightarrow> cell set \<times> int stream" where
  "gen_step cell s =
     (case s of (board, rng) \<Rightarrow> (if shd rng mod 2 = 0 then insert cell board else board, stl rng))"

definition generate_board :: "int stream \<Rightarrow> cell set \<times> int stream" where
  "generate_board rng = fold gen_step cells8 ({}, rng)"

text \<open>One pass of the loop of \<open>board_to_bitmap\<close>: \<open>bitmap[x] |= 0x80 >> y\<close> reads
  \<open>bitmap[x]\<close>, then shifts, then stores.\<close>

definition or_cell_step :: "cell \<Rightarrow> byte list \<Rightarrow> byte list outcome" where
  "or_cell_step cell bitmap =
     (case cell of (x, y) \<Rightarrow>
        try_r (ba_get bitmap x) bitmap (\<lambda>v.
        try_r (py_rshift 0x80 y) bitmap (\<lambda>bits.
        try_r (ba_set bitmap x (v OR bits)) bitmap Ok)))"

definition board_to_bitmap :: "cell list \<Rightarrow> byte list outcome" where
  "board_to_bitmap cells = for_each or_cell_step cells (replicate 8 0)"

definition restart_animation :: "'t transport \<Rightarrow> 't matrix8x8 \<Rightarrow> 't matrix8x8 outcome" where
  "restart_animation tr display =
     obind (for_each (\<lambda>row. set_row tr row 0xFF) range8 display)
       (for_each (\<lambda>row. clear_row tr (7 - row)) range8)"

text \<open>The globals of the script's main program: the driver object, the board, the
  still-life flag and the remaining values of \<open>pyb.rng()\<close>.\<close>

record 't game =
  display :: "'t matrix8x8"
  board :: "cell set"
  still_life :: bool
  rng :: "int stream"

text \<open>\<open>display.set(board_to_bitmap(board))\<close>. The set is iterated in ascending
  order here; any order gives the same bitmap (\<open>board_to_bitmap_order\<close>).\<close>

definition show_board :: "'t transport \<Rightarrow> 't game \<Rightarrow> 't game outcome" where
  "show_board tr g =
     (case board_to_bitmap (sorted_list_of_set (board g)) of
        Exc e _ \<Rightarrow> Exc e g
      | Ok bitmap \<Rightarrow> map_outcome (\<lambda>d. g\<lparr>display := d\<rparr>) (set_bitmap tr (map uint bitmap) (display g)))"

text \<open>One pass of \<open>while True\<close>: a new random board after a still life or an
  empty board (with the restart animation), then one generation.\<close>

definition game_iteration :: "'t transport \<Rightarrow> 't game \<Rightarrow> 't game outcome" where
  "game_iteration tr g =
     obind
       (if still_life g \<or> board g = {} then
          (case generate_board (rng g) of (b, rs) \<Rightarrow>
             obind (map_outcome (\<lambda>d. g\<lparr>board := b, rng := rs, display := d\<rparr>)
                      (restart_animation tr (display g)))
               (show_board tr))
        else Ok g)
       (\<lambda>g. case advance (board g) of (b, s) \<Rightarrow> show_board tr (g\<lparr>board := b, still_life := s\<rparr>))"

text \<open>\<open>display = Matrix8x8(brightness=0)\<close> with the default address \<open>0x70\<close>, and
  \<open>board, still_life = None, False\<close>.\<close>

definition game_start :: "'t transport \<Rightarrow> 't \<Rightarrow> int stream \<Rightarrow> 't game outcome" where
  "game_start tr t rs =
     map_outcome (\<lambda>d. \<lparr>display = d, board = {}, still_life = False, rng = rs\<rparr>) (init tr t 0x70 0)"

text \<open>The first \<open>n\<close> passes of the endless loop.\<close>

primrec game_run :: "'t transport \<Rightarrow> nat \<Rightarrow> 't game \<Rightarrow> 't game outcome" where
  "game_run tr 0 g = Ok g"
| "game_run tr (Suc n) g = obind (game_iteration tr g) (game_run tr n)"

text \<open>The endless loop itself: \<open>while True\<close> has no \<open>break\<close>, so the program can
  only end by an exception, which is the result \<open>Some (Exc e g)\<close>; \<open>None\<close> is
  "runs forever".\<close>

partial_function (option) game_forever :: "'t transport \<Rightarrow> 't game \<Rightarrow> 't game outcome option" where
  "game_forever tr g =
     (case game_iteration tr g of
        Ok g' \<Rightarrow> game_forever tr g'
      | Exc e g' \<Rightarrow> Some (Exc e g'))"

text \<open>Between passes: the chip mirrors the driver, and the driver's buffer shows
  the board, which lies on the 8x8 grid.\<close>

definition game_inv :: "int \<Rightarrow> ht16k33 game \<Rightarrow> bool" where
  "game_inv a g \<longleftrightarrow>
     in_sync (display g) \<and> addr (display g) = a \<and> board g \<subseteq> set cells8 \<and>
     (\<forall>r k. pixel (buf (display g)) r k \<longleftrightarrow> (int r, int k) \<in> board g)"

text \<open>Conway's rule as a specification: the cells of the 8x8 board that have three
  live neighbours, or two and are live; neighbours are the cells at Chebyshev
  distance one, wherever they are.\<close>

definition adjacent :: "cell \<Rightarrow> cell \<Rightarrow> bool" where
  "adjacent c n \<longleftrightarrow> c \<noteq> n \<and> \<bar>fst c - fst n\<bar> \<le> 1 \<and> \<bar>snd c - snd n\<bar> \<le> 1"

definition conway :: "cell set \<Rightarrow> cell set" where
  "conway b = {c. 0 \<le> fst c \<and> fst c < 8 \<and> 0 \<le> snd c \<and> snd c < 8 \<and>
                 (card {n \<in> b. adjacent c n} = 3 \<or> (card {n \<in> b. adjacent c n} = 2 \<and> c \<in> b))}"

text \<open>What one pass of \<open>board_to_bitmap\<close> does to an 8-row bitmap for a cell
  on the board: light pixel \<open>(x, y)\<close>.\<close>

definition light :: "cell \<Rightarrow> byte list \<Rightarrow> byte list" where
  "light c b = b[nat (fst c) := b ! nat (fst c) OR col_mask (nat (snd c))]"

text \<open>When one pass of \<open>board_to_bitmap\<close> goes through: \<open>bitmap[x]\<close> exists for
  \<open>-8 <= x < 8\<close> (Python indexing) and \<open>0x80 >> y\<close> needs \<open>y >= 0\<close>; otherwise the
  exception of the first check that fails.\<close>

definition bitmap_cell_ok :: "cell \<Rightarrow> bool" where
  "bitmap_cell_ok c \<longleftrightarrow> -8 \<le> fst c \<and> fst c < 8 \<and> 0 \<le> snd c"

definition cell_error :: "cell \<Rightarrow> py_error" where
  "cell_error c = (if -8 \<le> fst c \<and> fst c < 8 then ValueError else IndexError)"

subsection \<open>The board and its neighbourhoods\<close>

lemma cells8_eq: "cells8 = map (\<lambda>i. (int (i div 8), int (i mod 8))) [0..<64]"
  by (simp add: cells8_def range8_def upt_rec)

lemma in_cells8 [simp]:
  "c \<in> set cells8 \<longleftrightarrow> 0 \<le> fst c \<and> fst c < 8 \<and> 0 \<le> snd c \<and> snd c < 8"
proof (cases c)
  case (Pair x y)
  have "(\<exists>i<64. x = int (i div 8) \<and> y = int (i mod 8)) \<longleftrightarrow> 0 \<le> x \<and> x < 8 \<and> 0 \<le> y \<and> y < 8"
  proof
    assume "0 \<le> x \<and> x < 8 \<and> 0 \<le> y \<and> y < 8"
    then show "\<exists>i<64. x = int (i div 8) \<and> y = int (i mod 8)"
      by (intro exI [of _ "nat (8 * x + y)"]) (auto simp: nat_add_distrib nat_mult_distrib)
  qed auto
  with Pair show ?thesis by (auto simp: cells8_eq)
qed

lemma set_neighbors: "set (neighbors c) = {n. adjacent c n}"
proof -
  obtain x y where c: "c = (x, y)" by fastforce
  have a: "\<bar>u - v\<bar> \<le> 1 \<longleftrightarrow> v = u - 1 \<or> v = u \<or> v = u + 1" for u v :: int
    by arith
  have b: "adjacent (x, y) (x', y') \<longleftrightarrow>
        (x', y') \<in> {(x, y + 1), (x, y - 1), (x + 1, y), (x + 1, y + 1), (x + 1, y - 1),
                     (x - 1, y), (x - 1, y + 1), (x - 1, y - 1)}" for x' y'
    unfolding adjacent_def a fst_conv snd_conv by auto
  have "{n. adjacent (x, y) n} = {(x, y + 1), (x, y - 1), (x + 1, y), (x + 1, y + 1), (x + 1, y - 1),
                     (x - 1, y), (x - 1, y + 1), (x - 1, y - 1)}"
  proof (rule set_eqI)
    fix n
    show "n \<in> {n. adjacent (x, y) n} \<longleftrightarrow> n \<in> {(x, y + 1), (x, y - 1), (x + 1, y), (x + 1, y + 1),
              (x + 1, y - 1), (x - 1, y), (x - 1, y + 1), (x - 1, y - 1)}"
      by (cases n) (simp only: mem_Collect_eq b)
  qed
  then show ?thesis by (simp add: c neighbors_def)
qed

lemma distinct_neighbors: "distinct (neighbors c)"
  by (cases c) (simp add: neighbors_def)

lemma sum_list_of_bool_distinct:
  "distinct xs \<Longrightarrow> sum_list (map (\<lambda>x. of_bool (P x)) xs) = (int (card {x \<in> set xs. P x}))"
proof (induction xs)
  case Nil
  then show ?case by simp
next
  case (Cons a xs)
  have "{x \<in> set (a # xs). P x} = (if P a then insert a {x \<in> set xs. P x} else {x \<in> set xs. P x})"
    by auto
  with Cons show ?case by simp
qed

lemma live_count_card: "live_count b c = int (card {n \<in> b. adjacent c n})"
proof -
  have "{n \<in> set (neighbors c). n \<in> b} = {n \<in> b. adjacent c n}"
    by (auto simp: set_neighbors)
  then show ?thesis
    by (simp add: live_count_def sum_list_of_bool_distinct [OF distinct_neighbors])
qed

lemma fold_advance_step:
  "fold (advance_step b) cs S =
     S \<union> {c \<in> set cs. live_count b c = 3 \<or> (live_count b c = 2 \<and> c \<in> b)}"
  by (induction cs arbitrary: S) (auto simp: advance_step_def Let_def)

subsection \<open>From board to bitmap\<close>

lemma or_cell_step_ok:
  assumes "c \<in> set cells8" "length b = 8"
  shows "or_cell_step c b = Ok (light c b)"
proof (cases c)
  case (Pair x y)
  with assms show ?thesis
    by (simp add: or_cell_step_def light_def word_of_uint_or_mask)
qed

lemma length_light [simp]: "length (light c b) = length b"
  by (simp add: light_def)

lemma length_fold_light [simp]: "length (fold light cs b) = length b"
  by (induction cs arbitrary: b) simp_all

lemma board_to_bitmap_fold:
  assumes "set cs \<subseteq> set cells8"
  shows "board_to_bitmap cs = Ok (fold light cs (replicate 8 0))"
  unfolding board_to_bitmap_def
  by (rule for_each_fold [where I = "\<lambda>b. length b = 8"])
     (use assms in \<open>auto simp: or_cell_step_ok\<close>)

lemma pixel_light:
  assumes "c \<in> set cells8" "length b = 8"
  shows "pixel (light c b) r k \<longleftrightarrow> pixel b r k \<or> (int r, int k) = c"
proof (cases c)
  case (Pair x y)
  with assms have "nat x < 8" "0 \<le> x" "0 \<le> y" "y < 8" by auto
  moreover have l: "nat x < length b" using assms(2) \<open>nat x < 8\<close> by simp
  have "pixel (light c b) r k \<longleftrightarrow>
      (if r = nat x then r < 8 \<and> k < 8 \<and> bit (b ! nat x OR col_mask (nat y)) (7 - k) else pixel b r k)"
    using Pair by (simp add: light_def pixel_update [OF l])
  ultimately show ?thesis
    using Pair by (auto simp: pixel_def bit_or_iff)
qed

lemma pixel_fold_light:
  assumes "set cs \<subseteq> set cells8" "length b = 8"
  shows "pixel (fold light cs b) r k \<longleftrightarrow> pixel b r k \<or> (int r, int k) \<in> set cs"
  using assms
proof (induction cs arbitrary: b)
  case Nil
  then show ?case by simp
next
  case (Cons c cs)
  then have "pixel (fold light cs (light c b)) r k \<longleftrightarrow> pixel (light c b) r k \<or> (int r, int k) \<in> set cs"
    by simp
  with Cons.prems show ?case by (auto simp: pixel_light)
qed

lemma pixel_ext:
  assumes "length b1 = 8" "length b2 = 8" "\<And>r k. pixel b1 r k \<longleftrightarrow> pixel b2 r k"
  shows "b1 = b2"
proof (rule nth_equalityI)
  show "length b1 = length b2" using assms by simp
next
  fix r assume r: "r < length b1"
  show "b1 ! r = b2 ! r"
  proof (rule bit_word_eqI)
    fix n assume n: "n < LENGTH(8)"
    have "7 - n < 8" "7 - (7 - n) = n" using n by simp_all
    then show "bit (b1 ! r) n \<longleftrightarrow> bit (b2 ! r) n"
      using r assms(1) assms(3) [of r "7 - n"] by (simp add: pixel_def)
  qed
qed

lemma or_cell_step_ok_cell:
  assumes "bitmap_cell_ok c" "length b = 8"
  shows "\<exists>b'. or_cell_step c b = Ok b' \<and> length b' = 8"
  using assms
  by (cases c) (auto simp: or_cell_step_def bitmap_cell_ok_def ba_get_def ba_set_def py_index_def Let_def)

lemma or_cell_step_bad_cell:
  assumes "\<not> bitmap_cell_ok c" "length b = 8"
  shows "or_cell_step c b = Exc (cell_error c) b"
  using assms
  by (cases c) (auto simp: or_cell_step_def bitmap_cell_ok_def cell_error_def ba_get_def py_index_def Let_def)

lemma for_each_or_cell:
  assumes "length b = 8"
  shows "case for_each or_cell_step cs b of
           Ok bm \<Rightarrow> list_all bitmap_cell_ok cs
         | Exc e b' \<Rightarrow> (\<exists>ok c rest. cs = ok @ c # rest \<and> list_all bitmap_cell_ok ok \<and>
                                     \<not> bitmap_cell_ok c \<and> e = cell_error c)"
  using assms
proof (induction cs arbitrary: b)
  case Nil
  then show ?case by simp
next
  case (Cons c cs)
  show ?case
  proof (cases "bitmap_cell_ok c")
    case True
    then obtain b' where b': "or_cell_step c b = Ok b'" "length b' = 8"
      using or_cell_step_ok_cell Cons.prems by blast
    have "case for_each or_cell_step cs b' of
           Ok bm \<Rightarrow> list_all bitmap_cell_ok cs
         | Exc e b'' \<Rightarrow> (\<exists>ok c rest. cs = ok @ c # rest \<and> list_all bitmap_cell_ok ok \<and>
                                     \<not> bitmap_cell_ok c \<and> e = cell_error c)" (is "?IH")
      by (rule Cons.IH [OF b'(2)])
    show ?thesis
    proof (cases "for_each or_cell_step cs b'")
      case (Ok bm)
      with True b'(1) \<open>?IH\<close> show ?thesis by simp
    next
      case (Exc e b'')
      with \<open>?IH\<close> obtain ok c' rest where
        "cs = ok @ c' # rest" "list_all bitmap_cell_ok ok" "\<not> bitmap_cell_ok c'" "e = cell_error c'"
        by auto
      with Exc True b'(1) show ?thesis
        by (simp, intro exI [of _ "c # ok"] exI [of _ c'] exI [of _ rest]) (cases c', simp)
    qed
  next
    case False
    with Cons.prems show ?thesis
      by (cases c) (auto simp: or_cell_step_bad_cell intro!: exI [of _ "[]"])
  qed
qed

subsection \<open>Random boards\<close>

lemma fold_gen_step:
  "fold gen_step cs (S, rs) =
     (S \<union> {cs ! i |i. i < length cs \<and> rs !! i mod 2 = 0}, sdrop (length cs) rs)"
proof (induction cs arbitrary: S rs)
  case Nil
  then show ?case by simp
next
  case (Cons c cs)
  have "{(c # cs) ! i |i. i < Suc (length cs) \<and> rs !! i mod 2 = 0} =
        (if shd rs mod 2 = 0 then {c} else {}) \<union> {cs ! i |i. i < length cs \<and> stl rs !! i mod 2 = 0}"
    (is "?l = ?r")
  proof
    show "?l \<subseteq> ?r"
    proof
      fix z assume "z \<in> ?l"
      then obtain i where "z = (c # cs) ! i" "i < Suc (length cs)" "rs !! i mod 2 = 0" by auto
      then show "z \<in> ?r" by (cases i) auto
    qed
    show "?r \<subseteq> ?l"
    proof
      fix z assume "z \<in> ?r"
      then consider "z = c" "shd rs mod 2 = 0" | i where "z = cs ! i" "i < length cs" "stl rs !! i mod 2 = 0"
        by (auto split: if_splits)
      then show "z \<in> ?l"
      proof cases
        case 1
        then show ?thesis by (auto intro!: exI [of _ 0])
      next
        case (2 i)
        then show ?thesis by (auto intro!: exI [of _ "Suc i"])
      qed
    qed
  qed
  then show ?case
    using Cons.IH [of "if shd rs mod 2 = 0 then insert c S else S" "stl rs"]
    by (auto simp: gen_step_def)
qed

lemma cells8_index:
  assumes "0 \<le> x" "x < 8" "0 \<le> y" "y < 8"
  shows "nat (8 * x + y) < 64" "cells8 ! nat (8 * x + y) = (x, y)"
proof -
  obtain n m where nm: "x = int n" "y = int m" "n < 8" "m < 8"
    using assms by (metis nonneg_int_cases of_nat_less_iff of_nat_numeral)
  then have e: "nat (8 * x + y) = 8 * n + m" by simp
  show "nat (8 * x + y) < 64" using nm e by simp
  have "(8 * n + m) div 8 = n" "(8 * n + m) mod 8 = m" using nm by simp_all
  then show "cells8 ! nat (8 * x + y) = (x, y)"
    using nm e by (simp add: cells8_eq)
qed

lemma generate_board_cells8: "fst (generate_board rs) \<subseteq> set cells8"
  using nth_mem [of _ cells8] by (auto simp del: in_cells8 simp: generate_board_def fold_gen_step)

lemma advance_cells8: "fst (advance b) \<subseteq> set cells8"
  by (auto simp: advance_def fold_advance_step Let_def)

subsection \<open>The script on the chip\<close>

lemma length_8_cases:
  assumes "length xs = 8"
  obtains x0 x1 x2 x3 x4 x5 x6 x7 where "xs = [x0, x1, x2, x3, x4, x5, x6, x7]"
  using assms by (auto simp: numeral_eq_Suc length_Suc_conv)

lemma set_row_in_sync:
  assumes "in_sync m" "addr m = a" "in_range 0 7 r"
  shows "\<exists>m'. set_row (ht_bus a) r v m = Ok m' \<and> in_sync m' \<and> addr m' = a \<and>
              buf m' = (buf m)[nat r := word_of_int v]"
proof -
  have "length (buf m) = 8" using assms(1) by (simp add: in_sync_def wf_matrix_def)
  then have "set_row (ht_bus a) r v m =
      Ok (m\<lparr>buf := (buf m)[nat r := word_of_int v],
            i2c := ht_command [of_nat (2 * nat r), word_rotr 1 (word_of_int v)] (i2c m)\<rparr>)"
    using assms by (simp add: set_row_eq send_i2c_ht_bus)
  with row_in_sync [OF assms(1,3), of "word_of_int v"] assms(2) show ?thesis by auto
qed

lemma for_each_set_row_in_sync:
  assumes "in_sync m" "addr m = a" "list_all (\<lambda>x. in_range 0 7 (ix x)) xs"
  shows "\<exists>m'. for_each (\<lambda>x. set_row (ht_bus a) (ix x) (f x)) xs m = Ok m' \<and> in_sync m' \<and>
              addr m' = a \<and> buf m' = fold (\<lambda>x b. b[nat (ix x) := word_of_int (f x)]) xs (buf m)"
  using assms
proof (induction xs arbitrary: m)
  case Nil
  then show ?case by simp
next
  case (Cons x xs)
  then obtain m1 where m1: "set_row (ht_bus a) (ix x) (f x) m = Ok m1" "in_sync m1" "addr m1 = a"
      "buf m1 = (buf m)[nat (ix x) := word_of_int (f x)]"
    using set_row_in_sync by fastforce
  moreover obtain m' where "for_each (\<lambda>x. set_row (ht_bus a) (ix x) (f x)) xs m1 = Ok m'" "in_sync m'"
      "addr m' = a" "buf m' = fold (\<lambda>x b. b[nat (ix x) := word_of_int (f x)]) xs (buf m1)"
    using Cons.IH [OF m1(2,3)] Cons.prems(3) by auto
  ultimately show ?case by simp
qed

lemma restart_in_sync:
  assumes "in_sync m" "addr m = a"
  shows "\<exists>m'. restart_animation (ht_bus a) m = Ok m' \<and> in_sync m' \<and> addr m' = a \<and>
              buf m' = replicate 8 0"
proof -
  have c: "clear_row tr r = set_row tr r 0" for tr :: "'t transport" and r
    by (rule ext) (simp add: clear_row_def)
  have v1: "list_all (\<lambda>x. in_range 0 7 (id x)) range8"
    and v2: "list_all (\<lambda>x. in_range 0 7 (7 - x)) range8"
    by (simp_all add: range8_eq in_range_def)
  obtain m1 where m1: "for_each (\<lambda>x. set_row (ht_bus a) (id x) 0xFF) range8 m = Ok m1"
      "in_sync m1" "addr m1 = a" "buf m1 = fold (\<lambda>x b. b[nat (id x) := word_of_int 0xFF]) range8 (buf m)"
    using for_each_set_row_in_sync [OF assms v1, where f = "\<lambda>_. 0xFF"] by blast
  obtain m2 where m2: "for_each (\<lambda>x. set_row (ht_bus a) (7 - x) 0) range8 m1 = Ok m2"
      "in_sync m2" "addr m2 = a" "buf m2 = fold (\<lambda>x b. b[nat (7 - x) := word_of_int 0]) range8 (buf m1)"
    using for_each_set_row_in_sync [OF m1(2,3) v2, where f = "\<lambda>_. 0"] by blast
  have "length (buf m) = 8" using assms(1) by (simp add: in_sync_def wf_matrix_def)
  then obtain x0 x1 x2 x3 x4 x5 x6 x7 where "buf m = [x0, x1, x2, x3, x4, x5, x6, x7]"
    by (rule length_8_cases)
  then have "buf m2 = replicate 8 0"
    using m1(4) m2(4) by (simp add: range8_eq numeral_eq_Suc)
  moreover have "restart_animation (ht_bus a) m = Ok m2"
    using m1(1) m2(1) by (simp add: restart_animation_def c)
  ultimately show ?thesis using m2 by blast
qed

lemma pixel_zero [simp]: "\<not> pixel (replicate 8 0) r k"
  by (simp add: pixel_def)

lemma show_board_in_sync:
  assumes "in_sync (display g)" "addr (display g) = a" "board g \<subseteq> set cells8"
  shows "\<exists>d. show_board (ht_bus a) g = Ok (g\<lparr>display := d\<rparr>) \<and> in_sync d \<and> addr d = a \<and>
             (\<forall>r k. pixel (buf d) r k \<longleftrightarrow> (int r, int k) \<in> board g)"
proof -
  have "finite (board g)" using assms(3) finite_subset by blast
  then have cs: "set (sorted_list_of_set (board g)) = board g" by simp
  define bm where "bm = fold light (sorted_list_of_set (board g)) (replicate 8 0)"
  have l: "length bm = 8" by (simp add: bm_def)
  have bt: "board_to_bitmap (sorted_list_of_set (board g)) = Ok bm"
    unfolding bm_def using assms(3) cs by (simp add: board_to_bitmap_fold)
  have "set_bitmap (ht_bus a) (map uint bm) (display g) =
      Ok ((display g)\<lparr>buf := bm, i2c := ht_command (wire_frame bm) (i2c (display g))\<rparr>)"
    using assms(2) l by (simp add: set_bitmap_eq send_i2c_ht_bus comp_def Let_def)
  moreover have "in_sync ((display g)\<lparr>buf := bm, i2c := ht_command (wire_frame bm) (i2c (display g))\<rparr>)"
    by (rule frame_in_sync [OF assms(1) l])
  moreover have "pixel bm r k \<longleftrightarrow> (int r, int k) \<in> board g" for r k
    using pixel_fold_light [of "sorted_list_of_set (board g)" "replicate 8 0" r k] assms(3) cs
    by (simp add: bm_def)
  ultimately show ?thesis
    using assms(2)
    by (intro exI [of _ "(display g)\<lparr>buf := bm, i2c := ht_command (wire_frame bm) (i2c (display g))\<rparr>"])
       (simp add: show_board_def bt)
qed

lemma advance_show_inv:
  assumes "in_sync (display g)" "addr (display g) = a" "board g \<subseteq> set cells8"
  shows "\<exists>g'. (case advance (board g) of (b, s) \<Rightarrow> show_board (ht_bus a) (g\<lparr>board := b, still_life := s\<rparr>))
               = Ok g' \<and> game_inv a g'"
proof -
  obtain b s where bs: "advance (board g) = (b, s)" by fastforce
  then have "b \<subseteq> set cells8" using advance_cells8 [of "board g"] by simp
  then obtain d where "show_board (ht_bus a) (g\<lparr>board := b, still_life := s\<rparr>) =
        Ok (g\<lparr>board := b, still_life := s, display := d\<rparr>)" "in_sync d" "addr d = a"
      "\<forall>r k. pixel (buf d) r k \<longleftrightarrow> (int r, int k) \<in> b"
    using show_board_in_sync [of "g\<lparr>board := b, still_life := s\<rparr>" a] assms by auto
  with bs \<open>b \<subseteq> set cells8\<close> show ?thesis by (simp add: game_inv_def)
qed

lemma game_iteration_inv:
  assumes "game_inv a g"
  shows "\<exists>g'. game_iteration (ht_bus a) g = Ok g' \<and> game_inv a g'"
proof -
  have g: "in_sync (display g)" "addr (display g) = a" "board g \<subseteq> set cells8"
    using assms by (simp_all add: game_inv_def)
  obtain g1 where g1: "(if still_life g \<or> board g = {} then
          (case generate_board (rng g) of (b, rs) \<Rightarrow>
             obind (map_outcome (\<lambda>d. g\<lparr>board := b, rng := rs, display := d\<rparr>)
                      (restart_animation (ht_bus a) (display g)))
               (show_board (ht_bus a)))
        else Ok g) = Ok g1" "in_sync (display g1)" "addr (display g1) = a" "board g1 \<subseteq> set cells8"
  proof (cases "still_life g \<or> board g = {}")
    case True
    obtain b rs where brs: "generate_board (rng g) = (b, rs)" by fastforce
    then have b: "b \<subseteq> set cells8" using generate_board_cells8 [of "rng g"] by simp
    obtain m where m: "restart_animation (ht_bus a) (display g) = Ok m" "in_sync m" "addr m = a"
      using restart_in_sync [OF g(1,2)] by blast
    obtain d where "show_board (ht_bus a) (g\<lparr>board := b, rng := rs, display := m\<rparr>) =
        Ok (g\<lparr>board := b, rng := rs, display := d\<rparr>)" "in_sync d" "addr d = a"
      using show_board_in_sync [of "g\<lparr>board := b, rng := rs, display := m\<rparr>" a] m b by auto
    with True brs m b that show ?thesis by simp
  next
    case False
    with g that show ?thesis by simp
  qed
  then obtain g' where "(case advance (board g1) of (b, s) \<Rightarrow>
      show_board (ht_bus a) (g1\<lparr>board := b, still_life := s\<rparr>)) = Ok g'" "game_inv a g'"
    using advance_show_inv by blast
  with g1(1) show ?thesis by (auto simp: game_iteration_def)
qed

lemma game_run_inv:
  "game_inv a g \<Longrightarrow> \<exists>g'. game_run (ht_bus a) n g = Ok g' \<and> game_inv a g'"
proof (induction n arbitrary: g)
  case 0
  then show ?case by simp
next
  case (Suc n)
  then obtain g1 where "game_iteration (ht_bus a) g = Ok g1" "game_inv a g1"
    using game_iteration_inv by blast
  with Suc.IH show ?case by simp
qed

lemma game_start_inv:
  "\<exists>g. game_start (ht_bus 0x70) d rs = Ok g \<and> game_inv 0x70 g"
proof -
  obtain m where "init (ht_bus 0x70) d 0x70 0 = Ok m" "in_sync m" "addr m = 0x70" "buf m = replicate 8 0"
    using init_in_sync by blast
  then show ?thesis by (simp add: game_start_def game_inv_def)
qed

text \<open>From a state where the invariant holds the loop never returns: by
  \<open>raw_induct\<close>, every state from which it returns breaks the invariant.\<close>

lemma game_forever_None:
  assumes "game_inv a g"
  shows "game_forever (ht_bus a) g = None"
proof (rule ccontr)
  assume "game_forever (ht_bus a) g \<noteq> None"
  then obtain r where ret: "game_forever (ht_bus a) g = Some r" by blast
  have "ht_bus a = ht_bus a \<longrightarrow> \<not> game_inv a g"
  proof (rule game_forever.raw_induct [where P = "\<lambda>tr g r. tr = ht_bus a \<longrightarrow> \<not> game_inv a g", OF _ ret])
    fix f tr g' r'
    assume IH: "\<And>tr g r. f tr g = Some r \<Longrightarrow> tr = ht_bus a \<longrightarrow> \<not> game_inv a g"
      and eq: "(case game_iteration tr g' of Ok g'' \<Rightarrow> f tr g'' | Exc e g'' \<Rightarrow> Some (Exc e g'')) = Some r'"
    show "tr = ht_bus a \<longrightarrow> \<not> game_inv a g'"
    proof (intro impI notI)
      assume tr: "tr = ht_bus a" and inv: "game_inv a g'"
      then obtain g'' where "game_iteration tr g' = Ok g''" "game_inv a g''"
        using game_iteration_inv by blast
      with eq have "f tr g'' = Some r'" by simp
      with IH tr \<open>game_inv a g''\<close> show False by blast
    qed
  qed
  with assms show False by simp
qed

subsection \<open>Properties\<close>

text \<open>C31. \<open>advance\<close> computes Conway's rule on the 8x8 board: the new board is
  the set of cells of the grid with three live neighbours, or two and alive
  (neighbours counted over the whole set, so cells off the grid never live on),
  and the flag says whether the board stayed the same.\<close>

theorem advance_conway: "advance b = (conway b, conway b = b)"
proof -
  have "fold (advance_step b) cells8 {} = conway b"
    by (auto simp: fold_advance_step live_count_card conway_def)
  then show ?thesis by (simp add: advance_def Let_def)
qed

text \<open>C32. For a board on the grid, \<open>board_to_bitmap\<close> returns an 8-row bitmap
  whose pixel \<open>(r, c)\<close> is lit exactly when cell \<open>(r, c)\<close> is live.\<close>

theorem board_to_bitmap_pixels:
  assumes "set cs \<subseteq> set cells8"
  shows "\<exists>bm. board_to_bitmap cs = Ok bm \<and> length bm = 8 \<and>
              (\<forall>r k. pixel bm r k \<longleftrightarrow> (int r, int k) \<in> set cs)"
  using assms board_to_bitmap_fold [OF assms] pixel_fold_light [OF assms, of "replicate 8 0"] by simp

theorem board_to_bitmap_pixels_witness:
  "\<exists>bm. board_to_bitmap [(0, 1), (1, 2), (2, 0), (2, 1), (2, 2)] = Ok bm \<and> length bm = 8 \<and>
        pixel bm 2 0 \<and> pixel bm 1 2 \<and> \<not> pixel bm 0 0 \<and> \<not> pixel bm 1 1"
proof -
  have "set [(0, 1), (1, 2), (2, 0), (2, 1), (2, 2)] \<subseteq> set cells8" by simp
  from board_to_bitmap_pixels [OF this] obtain bm where
    "board_to_bitmap [(0, 1), (1, 2), (2, 0), (2, 1), (2, 2)] = Ok bm" "length bm = 8"
    "\<forall>r k. pixel bm r k \<longleftrightarrow> (int r, int k) \<in> set [(0, 1), (1, 2), (2, 0), (2, 1), (2, 2)]"
    by blast
  then show ?thesis by auto
qed

text \<open>C33. The bitmap does not depend on the order in which the set is iterated
  (Python leaves it open) nor on repetitions: two enumerations of the same board
  on the grid give the same result.\<close>

theorem board_to_bitmap_order:
  assumes "set cs1 = set cs2" "set cs1 \<subseteq> set cells8"
  shows "board_to_bitmap cs1 = board_to_bitmap cs2"
proof -
  have s2: "set cs2 \<subseteq> set cells8" using assms by simp
  have "fold light cs1 (replicate 8 0) = fold light cs2 (replicate 8 0)"
    by (rule pixel_ext) (simp_all add: pixel_fold_light assms s2)
  then show ?thesis by (simp add: board_to_bitmap_fold assms(2) s2)
qed

theorem board_to_bitmap_order_witness:
  "set [(0::int, 1::int), (2, 3)] = set [(2, 3), (0, 1), (0, 1)] \<and> set [(0, 1), (2, 3)] \<subseteq> set cells8 \<and>
   board_to_bitmap [(0, 1), (2, 3)] = board_to_bitmap [(2, 3), (0, 1), (0, 1)]"
proof -
  have h1: "set [(0::int, 1::int), (2, 3)] = set [(2, 3), (0, 1), (0, 1)]" by auto
  have h2: "set [(0::int, 1::int), (2, 3)] \<subseteq> set cells8" by simp
  show ?thesis by (intro conjI h1 h2 board_to_bitmap_order [OF h1 h2])
qed

text \<open>C34. \<open>generate_board\<close> draws one \<open>pyb.rng()\<close> value per cell in loop order
  (cell \<open>(x, y)\<close> gets draw \<open>8 x + y\<close>), makes the cell live when the value is
  even, and consumes exactly 64 values.\<close>

theorem generate_board_eq:
  "generate_board rs = ({c \<in> set cells8. rs !! nat (8 * fst c + snd c) mod 2 = 0}, sdrop 64 rs)"
proof -
  have "{cells8 ! i |i. i < 64 \<and> rs !! i mod 2 = 0} =
        {c \<in> set cells8. rs !! nat (8 * fst c + snd c) mod 2 = 0}" (is "?l = ?r")
  proof
    show "?l \<subseteq> ?r"
    proof
      fix c assume "c \<in> ?l"
      then obtain i where i: "c = cells8 ! i" "i < 64" "rs !! i mod 2 = 0" by auto
      then have "c = (int (i div 8), int (i mod 8))" by (simp add: cells8_eq)
      moreover have "nat (8 * int (i div 8) + int (i mod 8)) = i"
        using div_mult_mod_eq [of i 8] by (simp add: nat_add_distrib nat_mult_distrib)
      ultimately show "c \<in> ?r" using i by simp
    qed
    show "?r \<subseteq> ?l"
    proof
      fix c assume c: "c \<in> ?r"
      obtain x y where xy: "c = (x, y)" by fastforce
      with c have r: "0 \<le> x" "x < 8" "0 \<le> y" "y < 8" by auto
      show "c \<in> ?l"
        using c xy cells8_index [OF r] by (auto intro!: exI [of _ "nat (8 * x + y)"])
    qed
  qed
  moreover have "length cells8 = 64" by (simp add: cells8_eq)
  ultimately show ?thesis
    by (simp add: generate_board_def fold_gen_step)
qed

text \<open>C35. \<open>restart_animation\<close> on an 8-row display lights rows 0 to 7 and
  darkens rows 7 down to 0, one row message each, and leaves the buffer dark.\<close>

theorem restart_animation_log:
  assumes "length (buf m) = 8"
  shows "restart_animation log_bus m =
     Ok (m\<lparr>buf := replicate 8 0,
           i2c := i2c m @ map (\<lambda>r. (addr m, Bytes [of_nat (2 * r), 0xFF])) [0..<8]
                        @ map (\<lambda>r. (addr m, Bytes [of_nat (2 * (7 - r)), 0])) [0..<8]\<rparr>)"
proof -
  obtain x0 x1 x2 x3 x4 x5 x6 x7 where b: "buf m = [x0, x1, x2, x3, x4, x5, x6, x7]"
    using assms length_8_cases by blast
  have r: "word_rotr (Suc 0) (0xFF :: byte) = 0xFF"
    by (simp add: word_rotr_1_eval rotate_right_def)
  have z: "replicate 8 (0::byte) = [0, 0, 0, 0, 0, 0, 0, 0]"
    by (simp add: numeral_eq_Suc)
  show ?thesis
    using b by (simp add: restart_animation_def range8_eq set_row_eq clear_row_def send_i2c_log_bus r z upt_rec)
qed

theorem restart_animation_log_witness:
  "length (buf demo) = 8 \<and>
   restart_animation log_bus demo =
     Ok (demo\<lparr>buf := replicate 8 0,
           i2c := map (\<lambda>r. (0x70, Bytes [of_nat (2 * r), 0xFF])) [0..<8]
                @ map (\<lambda>r. (0x70, Bytes [of_nat (2 * (7 - r)), 0])) [0..<8]\<rparr>)"
proof -
  have l: "length (buf demo) = 8" by (simp add: demo_def)
  show ?thesis using restart_animation_log [OF l] l by (simp add: demo_def)
qed

text \<open>C36. The script on an HT16K33: \<open>Matrix8x8(brightness=0)\<close> succeeds, and
  every pass of the endless loop completes without an exception; between passes
  the chip mirrors the driver and the driver's buffer shows the current board,
  which stays on the grid.\<close>

theorem game_on_chip:
  "\<exists>g. game_start (ht_bus 0x70) d rs = Ok g \<and>
       (\<forall>n. \<exists>g'. game_run (ht_bus 0x70) n g = Ok g' \<and> game_inv 0x70 g')"
  using game_start_inv [of d rs] game_run_inv by blast

theorem game_on_chip_witness:
  "\<exists>g. game_start (ht_bus 0x70) chip0 (sconst 0) = Ok g \<and>
       (\<forall>n. \<exists>g'. game_run (ht_bus 0x70) n g = Ok g' \<and> game_inv 0x70 g')"
  by (rule game_on_chip)

text \<open>C37. The script never stops on an HT16K33: \<open>while True\<close> has no \<open>break\<close>,
  so it could end only by an exception, and from the start that
  \<open>Matrix8x8(brightness=0)\<close> gives it, for every chip state and every sequence
  of random values, no pass ever raises: the loop diverges.\<close>

theorem game_forever_diverges:
  "\<exists>g. game_start (ht_bus 0x70) d rs = Ok g \<and> game_forever (ht_bus 0x70) g = None"
  using game_start_inv [of d rs] game_forever_None by blast

theorem game_forever_diverges_witness:
  "\<exists>g. game_start (ht_bus 0x70) chip0 (sconst 0) = Ok g \<and> game_forever (ht_bus 0x70) g = None"
  by (rule game_forever_diverges)

text \<open>Known patterns: the blinker oscillates with period two (so the script
  never detects it as a still life and shows it forever), the block is a still
  life (flagged, so the script restarts), and a lone cell dies.\<close>

text \<open>C39. \<open>board_to_bitmap\<close> on any list of cells, in or off the grid: it returns a
  bitmap exactly when every cell passes both checks of \<open>bitmap[x] |= 0x80 >> y\<close>
  (\<open>-8 <= x < 8\<close>, \<open>y >= 0\<close>), and otherwise it raises at the first cell that fails,
  \<open>IndexError\<close> when \<open>x\<close> is out of range (the index is read first) and
  \<open>ValueError\<close> for a negative shift count.\<close>

theorem board_to_bitmap_error:
  "case board_to_bitmap cs of
     Ok bm \<Rightarrow> list_all bitmap_cell_ok cs
   | Exc e b \<Rightarrow> (\<exists>ok c rest. cs = ok @ c # rest \<and> list_all bitmap_cell_ok ok \<and>
                             \<not> bitmap_cell_ok c \<and> e = cell_error c)"
  unfolding board_to_bitmap_def by (rule for_each_or_cell) simp

theorem board_to_bitmap_error_witness:
  "(\<exists>b. board_to_bitmap [(1, 2), (9, 0), (0, -1)] = Exc IndexError b) \<and>
   (\<exists>b. board_to_bitmap [(1, 2), (-1, -3), (9, 0)] = Exc ValueError b)"
proof -
  have a: "case board_to_bitmap [(1, 2), (9, 0), (0, -1)] of
     Ok bm \<Rightarrow> list_all bitmap_cell_ok [(1, 2), (9, 0), (0, -1)]
   | Exc e b \<Rightarrow> (\<exists>ok c rest. [(1, 2), (9, 0), (0, -1)] = ok @ c # rest \<and> list_all bitmap_cell_ok ok \<and>
                             \<not> bitmap_cell_ok c \<and> e = cell_error c)"
    by (rule board_to_bitmap_error)
  have b: "case board_to_bitmap [(1, 2), (-1, -3), (9, 0)] of
     Ok bm \<Rightarrow> list_all bitmap_cell_ok [(1, 2), (-1, -3), (9, 0)]
   | Exc e b \<Rightarrow> (\<exists>ok c rest. [(1, 2), (-1, -3), (9, 0)] = ok @ c # rest \<and> list_all bitmap_cell_ok ok \<and>
                             \<not> bitmap_cell_ok c \<and> e = cell_error c)"
    by (rule board_to_bitmap_error)
  show ?thesis
    using a b
    by (auto simp: bitmap_cell_ok_def cell_error_def Cons_eq_append_conv split: outcome.splits)
qed

lemma advance_patterns:
  "advance {(3, 2), (3, 3), (3, 4)} = ({(2, 3), (3, 3), (4, 3)}, False) \<and>
   advance {(2, 3), (3, 3), (4, 3)} = ({(3, 2), (3, 3), (3, 4)}, False) \<and>
   advance {(1, 1), (1, 2), (2, 1), (2, 2)} = ({(1, 1), (1, 2), (2, 1), (2, 2)}, True) \<and>
   advance {(5, 5)} = ({}, False)"
  by code_simp

end
