(* ===== verification/Features.thy ===== *)
theory Features
  imports Device
begin

text \<open>
  The feature-test script \<open>src/examples/test_features.py\<close>: the driver
  \<open>Matrix8x8(brightness=0)\<close> at the default address, then an endless loop whose
  body calls the public methods in a fixed order. The body is the list of calls
  \<open>features_ops\<close> (each \<open>for\<close> loop of the script is a \<open>map\<close> over its range,
  each \<open>bytes\<close> literal the list of its ints; the \<open>pyb.delay\<close> calls are timing
  only), one pass is \<open>features_pass\<close> and \<open>n\<close> passes \<open>features_run\<close>.
\<close>

text \<open>The sections of the loop body, as the script's comments divide it.\<close>

definition test_set_clear :: "op list" where
  "test_set_clear =
     [SetBitmap (replicate 8 0xFF), Clear, SetBitmap (concat (replicate 4 [0x55, 0xAA])),
      SetBitmap (concat (replicate 4 [0xAA, 0x55])), Clear]"

definition test_rows :: "op list" where
  "test_rows = map (\<lambda>i. SetRow i 0xFF) range8 @ map ClearRow range8 @ [Clear]"

definition test_columns :: "op list" where
  "test_columns = map (\<lambda>i. SetColumn i 0xFF) range8 @ map ClearColumn range8 @ [Clear]"

definition test_pixels :: "op list" where
  "test_pixels =
     concat (map (\<lambda>row. map (\<lambda>column. SetPixel row column) range8) range8)
     @ concat (map (\<lambda>row. map (\<lambda>column. ClearPixel row column) range8) range8) @ [Clear]"

definition brightness_up :: "op list" where
  "brightness_up = map (\<lambda>i. SetBrightness i) (map int [0..<16])"

definition brightness_down :: "op list" where
  "brightness_down = map (\<lambda>i. SetBrightness (16 - i)) (map int [0..<16])"

definition test_brightness :: "op list" where
  "test_brightness = [SetBitmap (replicate 8 0xFF)] @ brightness_up @ brightness_down"

definition test_on_off :: "op list" where
  "test_on_off = [SetBitmap (replicate 8 0xAA), Off, On]"

definition test_blinking :: "op list" where
  "test_blinking = [SetBlinking 3, SetBlinking 2, SetBlinking 1, SetBlinking 0]"

definition test_off_state :: "op list" where
  "test_off_state = [Off, SetBitmap (replicate 8 0x33), SetBlinking 1, On, SetBlinking 0]"

definition features_ops :: "op list" where
  "features_ops = test_set_clear @ test_rows @ test_columns @ test_pixels @ test_brightness
     @ test_on_off @ test_blinking @ test_off_state"

definition features_pass :: "'t transport \<Rightarrow> 't matrix8x8 \<Rightarrow> 't matrix8x8 outcome" where
  "features_pass tr = for_each (exec tr) features_ops"

primrec features_run :: "'t transport \<Rightarrow> nat \<Rightarrow> 't matrix8x8 \<Rightarrow> 't matrix8x8 outcome" where
  "features_run tr 0 m = Ok m"
| "features_run tr (Suc n) m = obind (features_pass tr m) (features_run tr n)"

subsection \<open>The script on the chip\<close>

text \<open>Every \<open>set_brightness\<close> call keeps the chip in step, whatever its argument.\<close>

lemma brightness_in_sync:
  assumes "in_sync m" "addr m = a"
  shows "\<exists>m'. exec (ht_bus a) (SetBrightness v) m = Ok m' \<and> in_sync m' \<and> addr m' = a"
  using assms ht_command_brightness_any [of v "i2c m"]
  by (simp add: set_brightness_def send_i2c_ht_bus in_sync_def wf_matrix_def shown_def)

lemma for_each_exec_chip:
  assumes "in_sync m" "addr m = a" "list_all (\<lambda>p. valid_op p \<or> p \<in> range SetBrightness) ps"
  shows "\<exists>m'. for_each (exec (ht_bus a)) ps m = Ok m' \<and> in_sync m' \<and> addr m' = a"
  using assms
proof (induction ps arbitrary: m)
  case Nil
  then show ?case by simp
next
  case (Cons p ps)
  have "\<exists>m1. exec (ht_bus a) p m = Ok m1 \<and> in_sync m1 \<and> addr m1 = a"
  proof (cases "valid_op p")
    case True
    then obtain m1 where "exec (ht_bus a) p m = Ok m1" "in_sync m1"
      using exec_in_sync [OF Cons.prems(1) _ Cons.prems(2)] by blast
    moreover have "addr m1 = a"
      using exec_addr [of m] Cons.prems(1,2) calculation(1) in_sync_def by metis
    ultimately show ?thesis by blast
  next
    case False
    then obtain v where "p = SetBrightness v" using Cons.prems(3) by auto
    then show ?thesis using brightness_in_sync [OF Cons.prems(1,2)] by blast
  qed
  then obtain m1 where "exec (ht_bus a) p m = Ok m1" "in_sync m1" "addr m1 = a" by blast
  with Cons.IH [of m1] Cons.prems(3) show ?case by simp
qed

lemma features_ops_chip: "list_all (\<lambda>p. valid_op p \<or> p \<in> range SetBrightness) features_ops"
proof -
  have "length (concat (replicate 4 [0x55, 0xAA :: int])) = 8" "length (concat (replicate 4 [0xAA, 0x55 :: int])) = 8"
    by (simp_all add: numeral_eq_Suc)
  then show ?thesis
    by (simp add: features_ops_def test_set_clear_def test_rows_def test_columns_def test_pixels_def
        test_brightness_def brightness_up_def brightness_down_def test_on_off_def test_blinking_def
        test_off_state_def range8_eq in_range_def upt_rec)
qed

lemma features_pass_in_sync:
  assumes "in_sync m" "addr m = a"
  shows "\<exists>m'. features_pass (ht_bus a) m = Ok m' \<and> in_sync m' \<and> addr m' = a"
  unfolding features_pass_def by (rule for_each_exec_chip [OF assms features_ops_chip])

lemma off_state_ht:
  assumes "in_sync m" "addr m = a"
  shows "\<exists>m'. for_each (exec (ht_bus a)) test_off_state m = Ok m' \<and> buf m' = replicate 8 0x33 \<and>
              is_on m' = Some True \<and> blinking m' = 0"
  using assms by (simp add: test_off_state_def off_ht set_bitmap_eq send_i2c_ht_bus set_blinking_eq
                            on_ht in_range_def Let_def)

lemma features_run_in_sync:
  "in_sync m \<Longrightarrow> addr m = a \<Longrightarrow> \<exists>m'. features_run (ht_bus a) n m = Ok m' \<and> in_sync m' \<and> addr m' = a"
proof (induction n arbitrary: m)
  case 0
  then show ?case by simp
next
  case (Suc n)
  then obtain m1 where "features_pass (ht_bus a) m = Ok m1" "in_sync m1" "addr m1 = a"
    using features_pass_in_sync by blast
  with Suc.IH [of m1] show ?case by simp
qed

subsection \<open>Properties\<close>

text \<open>C38. One pass of the script's loop on an HT16K33 that mirrors the driver
  completes without an exception, keeps the mirror, and ends as the last
  section leaves it: rows \<open>0x33\<close> shown, display on, blinking off (the blink
  mode set while the display was off is latched and then reset).\<close>

theorem features_pass_on_chip:
  assumes "in_sync m" "addr m = a"
  shows "\<exists>m'. features_pass (ht_bus a) m = Ok m' \<and> in_sync m' \<and> buf m' = replicate 8 0x33 \<and>
              is_on m' = Some True \<and> blinking m' = 0 \<and>
              shown (i2c m') = replicate 8 0x33 \<and> disp (i2c m') \<and> blink (i2c m') = 0"
proof -
  define pre where "pre = test_set_clear @ test_rows @ test_columns @ test_pixels @ test_brightness
     @ test_on_off @ test_blinking"
  have ops: "features_ops = pre @ test_off_state" by (simp add: features_ops_def pre_def)
  have "list_all (\<lambda>p. valid_op p \<or> p \<in> range SetBrightness) (pre @ test_off_state)"
    using features_ops_chip by (simp only: ops)
  then have v1: "list_all (\<lambda>p. valid_op p \<or> p \<in> range SetBrightness) pre"
    and v2: "list_all (\<lambda>p. valid_op p \<or> p \<in> range SetBrightness) test_off_state"
    by simp_all
  obtain m1 where m1: "for_each (exec (ht_bus a)) pre m = Ok m1" "in_sync m1" "addr m1 = a"
    using for_each_exec_chip [OF assms v1] by blast
  obtain m2 where m2: "for_each (exec (ht_bus a)) test_off_state m1 = Ok m2" "in_sync m2"
    using for_each_exec_chip [OF m1(2,3) v2] by blast
  obtain m3 where m3: "for_each (exec (ht_bus a)) test_off_state m1 = Ok m3" "buf m3 = replicate 8 0x33"
      "is_on m3 = Some True" "blinking m3 = 0"
    using off_state_ht [OF m1(2,3)] by blast
  have "m2 = m3" using m2(1) m3(1) by simp
  then have "features_pass (ht_bus a) m = Ok m3" "in_sync m3"
    using m1(1) m2 by (simp_all add: features_pass_def ops for_each_append)
  with m3 show ?thesis by (auto simp: in_sync_def)
qed

theorem features_pass_on_chip_witness:
  "\<exists>m m'. init (ht_bus 0x70) chip0 0x70 0 = Ok m \<and> features_pass (ht_bus 0x70) m = Ok m' \<and>
       shown (i2c m') = replicate 8 0x33 \<and> disp (i2c m') \<and> blink (i2c m') = 0"
proof -
  obtain m where i: "init (ht_bus 0x70) chip0 0x70 0 = Ok m" "in_sync m" "addr m = 0x70"
    using init_in_sync by blast
  obtain m' where "features_pass (ht_bus 0x70) m = Ok m'" "shown (i2c m') = replicate 8 0x33"
      "disp (i2c m')" "blink (i2c m') = 0"
    using features_pass_on_chip [OF i(2,3)] by blast
  with i show ?thesis by blast
qed

text \<open>The script on an HT16K33: \<open>Matrix8x8(brightness=0)\<close> succeeds and every
  number of passes of the endless loop completes with the chip mirroring the
  driver.\<close>

lemma features_on_chip:
  "\<exists>m. init (ht_bus 0x70) d 0x70 0 = Ok m \<and> (\<forall>n. \<exists>m'. features_run (ht_bus 0x70) n m = Ok m' \<and> in_sync m')"
proof -
  obtain m where "init (ht_bus 0x70) d 0x70 0 = Ok m" "in_sync m" "addr m = 0x70"
    using init_in_sync by blast
  with features_run_in_sync show ?thesis by blast
qed

end
