(* ===== verification/Protocol.thy ===== *)
theory Protocol
  imports Run
begin

text \<open>
  The command protocol of spec section 6 as a type: \<open>ht_cmd\<close> has one constructor
  per byte sequence the driver may issue (oscillator on, dimming level, display
  on with a blink mode, display off, one row write, the full-buffer write),
  \<open>cmd_ok\<close> bounds their fields (level 0..15, blink mode 0..3, row 0..7, 8 rows),
  and \<open>encode_cmd\<close> gives the message the spec prescribes for each. These are
  specifications, not translations of code; the theorem of this theory says that
  the driver's messages are all of this type.
\<close>

unbundle bit_operations_syntax

datatype ht_cmd =
    OscOn
  | Dimming nat
  | DisplayOn nat
  | DisplayOff
  | RowWrite nat byte
  | FrameWrite "byte list"

fun cmd_ok :: "ht_cmd \<Rightarrow> bool" where
  "cmd_ok (Dimming level) = (level < 16)"
| "cmd_ok (DisplayOn mode) = (mode < 4)"
| "cmd_ok (RowWrite row w) = (row < 8)"
| "cmd_ok (FrameWrite rows) = (length rows = 8)"
| "cmd_ok _ = True"

fun encode_cmd :: "ht_cmd \<Rightarrow> msg" where
  "encode_cmd OscOn = Byte 0x21"
| "encode_cmd (Dimming level) = Byte (0xE0 OR int level)"
| "encode_cmd (DisplayOn mode) = Byte (0x81 OR push_bit 1 (int mode))"
| "encode_cmd DisplayOff = Byte 0x80"
| "encode_cmd (RowWrite row w) = Bytes [of_nat (2 * row), w]"
| "encode_cmd (FrameWrite rows) = Bytes (concat (map (\<lambda>w. [0, w]) rows))"

text \<open>The commands each call is to issue, by spec section 6 and the method
  descriptions of section 4: a row method sends its row, a column or buffer
  method the whole buffer, \<open>set_blinking\<close> re-sends display-on only when on.\<close>

fun op_cmds :: "'t matrix8x8 \<Rightarrow> op \<Rightarrow> ht_cmd list" where
  "op_cmds m On = [DisplayOn (nat (blinking m))]"
| "op_cmds m Off = [DisplayOff]"
| "op_cmds m (SetBrightness v) = [Dimming (nat v)]"
| "op_cmds m (SetBlinking mode) = (if is_on m = Some True then [DisplayOn (nat mode)] else [])"
| "op_cmds m (SetBitmap bm) = [FrameWrite (map (\<lambda>v. word_rotr 1 (word_of_int v)) bm)]"
| "op_cmds m Clear = [FrameWrite (replicate 8 0)]"
| "op_cmds m (SetRow r v) = [RowWrite (nat r) (word_rotr 1 (word_of_int v))]"
| "op_cmds m (ClearRow r) = [RowWrite (nat r) 0]"
| "op_cmds m (SetColumn c v) = [FrameWrite (map (word_rotr 1) (put_column (nat c) v (buf m)))]"
| "op_cmds m (ClearColumn c) = [FrameWrite (map (word_rotr 1) (put_column (nat c) 0 (buf m)))]"
| "op_cmds m (SetPixel r c) = [RowWrite (nat r) (word_rotr 1 (buf m ! nat r OR col_mask (nat c)))]"
| "op_cmds m (ClearPixel r c) =
     [RowWrite (nat r) (word_rotr 1 (buf m ! nat r AND NOT (col_mask (nat c))))]"

text \<open>A call sends the commands \<open>cs\<close>: the log grows by exactly these, to the
  object's address.\<close>

definition sends :: "(int \<times> msg) list matrix8x8 \<Rightarrow> (int \<times> msg) list matrix8x8 \<Rightarrow> ht_cmd list \<Rightarrow> bool" where
  "sends m m' cs \<longleftrightarrow> i2c m' = i2c m @ map (\<lambda>c. (addr m, encode_cmd c)) cs"

subsection \<open>Each message the driver builds is a command\<close>

lemma wire_frame_cmd:
  "length b = 8 \<Longrightarrow> Bytes (wire_frame b) = encode_cmd (FrameWrite (map (word_rotr 1) b))"
  by (simp add: wire_frame_def comp_def)

lemma clear_frame_cmd: "Bytes (replicate 16 0) = encode_cmd (FrameWrite (replicate 8 0))"
  by (simp add: numeral_eq_Suc)

lemma op_cmds_ok:
  assumes "wf_matrix m" "valid_op p"
  shows "list_all cmd_ok (op_cmds m p)"
  using assms by (cases p) (auto simp: wf_matrix_def in_range_def nat_less_iff)

lemma exec_log_sends:
  assumes "wf_matrix m" "valid_op p" "exec log_bus p m = Ok m'"
  shows "sends m m' (op_cmds m p)"
proof -
  have "length (buf m) = 8" "0 \<le> blinking m" "is_on m \<noteq> None"
    using assms(1) by (simp_all add: wf_matrix_def in_range_def)
  then show ?thesis
    using assms(2,3)
    by (cases p)
       (auto simp: on_def off_def set_brightness_def clear_row_def driver_eqs send_i2c_log_bus sends_def
                   wire_frame_cmd clear_frame_cmd in_range_def Let_def comp_def
             split: option.splits bool.splits)
qed

subsection \<open>Properties\<close>

text \<open>C40. The driver speaks only the protocol: every call with documented
  arguments on a well-formed object sends, to the object's address, exactly the
  commands \<open>op_cmds\<close> of spec section 6 and nothing else, and these are
  well-formed (levels 0..15, blink modes 0..3, rows 0..7, frames of 8 rows).\<close>

theorem exec_sends_protocol:
  assumes "wf_matrix m" "valid_op p" "exec log_bus p m = Ok m'"
  shows "sends m m' (op_cmds m p) \<and> list_all cmd_ok (op_cmds m p)"
  using exec_log_sends [OF assms] op_cmds_ok [OF assms(1,2)] by blast

theorem exec_sends_protocol_witness:
  "\<exists>m'. wf_matrix demo \<and> valid_op (SetPixel 1 6) \<and> exec log_bus (SetPixel 1 6) demo = Ok m' \<and>
        sends demo m' (op_cmds demo (SetPixel 1 6)) \<and> list_all cmd_ok (op_cmds demo (SetPixel 1 6))"
proof -
  have w: "wf_matrix demo" by (simp add: wf_matrix_def in_range_def demo_def)
  have v: "valid_op (SetPixel 1 6)" by (simp add: in_range_def)
  have "length (buf demo) = 8" by (simp add: demo_def)
  then have "\<exists>m'. exec log_bus (SetPixel 1 6) demo = Ok m'"
    by (simp add: set_pixel_eq send_i2c_log_bus Let_def)
  then obtain m' where e: "exec log_bus (SetPixel 1 6) demo = Ok m'" by blast
  have "sends demo m' (op_cmds demo (SetPixel 1 6)) \<and> list_all cmd_ok (op_cmds demo (SetPixel 1 6))"
    by (rule exec_sends_protocol [OF w v e])
  with w v e show ?thesis by blast
qed

end
