(* ===== verification/Spec2Isabelle.thy ===== *)
theory Spec2Isabelle
  imports GameOfLife Features Protocol
begin

text \<open>
  \<^bold>\<open>Verification of \<open>micropython-matrix8x8\<close>: the MicroPython driver for an 8x8
  LED matrix on an HT16K33 I2C backpack (\<open>src/matrix8x8.py\<close>).\<close>

  \<^bold>\<open>The program.\<close> One class, \<open>Matrix8x8\<close>, keeps an 8-byte frame buffer
  (\<open>buf\<close>, row \<open>i\<close> in byte \<open>i\<close>, column \<open>j\<close> in bit \<open>0x80 >> j\<close>), the
  display state (\<open>is_on\<close>, \<open>_blinking\<close>) and an I2C object. Every public method
  changes the buffer or the state and then sends one message through
  \<open>_send\<close> to \<open>pyb.I2C.send\<close>: a command byte (\<open>on\<close>, \<open>off\<close>,
  \<open>set_brightness\<close>, \<open>set_blinking\<close>), one row (\<open>_send_row\<close>: the row's RAM
  address and the row rotated by \<open>rotate_right\<close>) or the whole buffer
  (\<open>_send_buf\<close>: 16 bytes). \<open>__init__\<close> sends oscillator-on, brightness, the
  cleared frame and display-on. The two scripts under \<open>src/examples\<close> only
  call this interface.

  \<^bold>\<open>Theories.\<close>
  \<^item> \<open>Prelude\<close>: the Python semantics the code relies on, as values: the
    exceptions (\<open>py_error\<close>), a statement's outcome with the state at a raise
    (\<open>outcome\<close>, \<open>obind\<close>, \<open>try_r\<close>), \<open>for\<close> loops (\<open>for_each\<close>, \<open>range8\<close>),
    Python indexing with negative indices (\<open>py_index\<close>, \<open>seq_get\<close>),
    \<open>bytearray\<close> cells (\<open>ba_get\<close>, \<open>ba_set\<close>: MicroPython truncates a stored int
    to 8 bits) and shifts that raise on a negative count.
  \<^item> \<open>Rotate\<close>: \<open>rotate_right\<close> on Python ints.
  \<^item> \<open>Transport\<close>: the transport interface \<open>'t transport\<close> (state, message,
    address to new state or \<open>OSError\<close>), the message type \<open>msg\<close> (an int
    command or a byte buffer), and \<open>log_bus\<close>, a bus that records every write.
  \<^item> \<open>Matrix8x8\<close>: the class. The record \<open>matrix8x8\<close> holds the instance
    attributes (\<open>is_on\<close> is an option: the attribute exists only once \<open>on\<close> or
    \<open>off\<close> has run); one definition per method, in source order (\<open>send_i2c\<close> is
    \<open>_send\<close>, \<open>send_row\<close>, \<open>send_buf\<close> with its loop body \<open>fill_step\<close>,
    \<open>clear_column_in_buf\<close>/\<open>set_column_in_buf\<close> for \<open>_clear_column\<close>/
    \<open>_set_column\<close> with loop bodies \<open>clear_column_step\<close>/\<open>set_column_step\<close>,
    \<open>on\<close>, \<open>off\<close>, \<open>set_brightness\<close>, \<open>set_blinking\<close>, \<open>set_bitmap\<close> for
    \<open>set\<close>, \<open>clear\<close> with \<open>zero_step\<close>, \<open>set_row\<close>, \<open>clear_row\<close>, \<open>set_column\<close>,
    \<open>clear_column\<close>, \<open>set_pixel\<close>, \<open>clear_pixel\<close>, and \<open>__init__\<close> as
    \<open>matrix8x8_new\<close>: the choice of the I2C object \<open>i2c_setup\<close> (the one passed in,
    or the \<open>pyb.I2C\<close> the platform constructor \<open>mk_i2c\<close> creates for
    \<open>i2c_bus\<close>) followed by \<open>init\<close>, the attributes and the four calls).
    Each takes the transport and the object and returns the outcome; every
    guard, early return and possible raise of the source is a branch.
  \<^item> \<open>Wire\<close>: the 16-byte image \<open>wire_frame\<close> that \<open>_send_buf\<close> sends, its
    decoding \<open>decode_frame\<close>, and the closed forms of \<open>_send_buf\<close> and
    \<open>_send_row\<close>.
  \<^item> \<open>Columns\<close>: the column specification \<open>put_column\<close> and read-back
    \<open>get_column\<close>; \<open>_clear_column\<close> and \<open>_set_column\<close> proved to compute it.
  \<^item> \<open>Driver\<close>: the spec's pixel view \<open>pixel\<close>; closed forms of every public
    method for any transport, and the properties C5 to C19.
  \<^item> \<open>Run\<close>: the driver as a state machine: \<open>op\<close> (the public calls),
    \<open>exec\<close>, the documented argument ranges \<open>valid_op\<close>, well-formedness \<open>wf_matrix\<close>,
    the reachable objects \<open>reachable\<close> (inductive), and C20 to C22.
  \<^item> \<open>Device\<close>: the far end of the transport, an HT16K33 (modelled from its
    command set, not from this repository): the record \<open>ht16k33\<close>
    (oscillator, display on, blink rate, dimming, 16 bytes of display RAM),
    \<open>ht_command\<close> for one I2C write, the transport \<open>ht_bus a\<close> of a chip at
    address \<open>a\<close>, the picture \<open>shown\<close> read back from RAM, and the
    abstraction relation \<open>in_sync\<close> between driver and chip (C26 to C30).
  \<^item> \<open>GameOfLife\<close>: \<open>src/examples/game_of_life.py\<close>: \<open>neighbors\<close>, \<open>advance\<close>
    (with its loop body \<open>advance_step\<close> and the neighbour count \<open>live_count\<close>),
    \<open>generate_board\<close> (\<open>pyb.rng()\<close> as a stream), \<open>board_to_bitmap\<close> (loop body
    \<open>or_cell_step\<close>), \<open>restart_animation\<close>, and the main program as the record
    \<open>game\<close> of its globals with one pass of \<open>while True\<close> (\<open>game_iteration\<close>),
    its start (\<open>game_start\<close>), \<open>n\<close> passes (\<open>game_run\<close>) and the endless
    loop itself as a \<open>partial_function (option)\<close> (\<open>game_forever\<close>); Conway's rule
    \<open>conway\<close> is the specification of \<open>advance\<close>, \<open>bitmap_cell_ok\<close> and
    \<open>cell_error\<close> say which cells \<open>board_to_bitmap\<close> accepts (C31 to C37, C39).
  \<^item> \<open>Features\<close>: \<open>src/examples/test_features.py\<close>: the loop body as the list of
    calls \<open>features_ops\<close>, built from its commented sections, one pass
    \<open>features_pass\<close>, \<open>n\<close> passes \<open>features_run\<close> (C38).
  \<^item> \<open>Protocol\<close>: the command protocol of spec section 6 as a type: \<open>ht_cmd\<close>
    with the field bounds \<open>cmd_ok\<close> and the encoding \<open>encode_cmd\<close>, and the
    commands \<open>op_cmds\<close> each call is to issue (C40).
  \<^item> this theory: properties across components: the constructor (C23), a
    failing transport compared with a working one through \<open>with_i2c\<close>, the object
    moved to another bus (C24), and whole sessions on the recording bus (C25).

  \<^bold>\<open>What is proved.\<close> \<open>rotate_right\<close> is the 8-bit rotation \<open>word_rotr 1\<close>
  (C1 to C4: equivalence, range, round trip with \<open>word_rotl 1\<close>, eight-fold
  identity). Each public method on an 8-row buffer does what the spec says,
  stated on the spec's pixels and on the message handed to the transport:
  rows (C5, C18), pixels (C6, C7, C19), columns and their transposition round
  trip (C8 to C10), the whole buffer (C11, C12), blink latching (C16, C17).
  The error paths are values: \<open>set\<close> with the wrong length (C13, C14),
  \<open>clear\<close> on a buffer of the wrong length (C15), negative columns (C19).
  Over all reachable objects the buffer keeps 8 rows (C20), calls with
  documented arguments raise only what the transport raises (C21) and always
  complete on a transport that never fails (C22). \<open>__init__\<close> sends its four
  commands in order (C23). When the transport raises, a call keeps every change
  it made to the object before its send and raises the transport's error (C24),
  and a whole session, constructor and any documented calls, puts only
  well-formed protocol commands on the bus, after the four set-up commands
  (C25). Against the chip: every reachable object is mirrored by the chip
  (refinement by the relation \<open>in_sync\<close>, proved by rule induction over
  \<open>reachable\<close>: C26), any sequence of documented calls completes and keeps the
  mirror (C27), brightness reaches the dimming register, and values with bit 4
  set are ignored by the chip (C28), a full-frame write shows the new buffer
  from any chip state and writes zeros to the odd RAM registers (C29), and a
  row write repairs only its own row (C30). The Game of Life: \<open>advance\<close> is
  Conway's rule on the 8x8 grid (C31), \<open>board_to_bitmap\<close> encodes the board
  pixel for pixel whatever the set's iteration order (C32, C33),
  \<open>generate_board\<close> draws one value per cell (C34), the restart animation sends
  its 16 row messages (C35), every pass of the script's loop completes on the chip
  with the chip showing the board (C36), and the script's endless loop never
  ends: \<open>game_forever\<close> is \<open>None\<close>, proved by \<open>raw_induct\<close> from that invariant
  (C37, termination). The feature test: a pass completes on the chip and ends as
  its last section says (C38). \<open>board_to_bitmap\<close> on any list of cells returns
  exactly when every cell passes its two checks and otherwise raises
  \<open>IndexError\<close> or \<open>ValueError\<close> at the first cell that fails (C39). Every message the driver
  sends for a documented call is a well-formed command of the protocol, exactly
  the ones the spec prescribes for that call (C40, the type of the wire).

  \<^bold>\<open>Bounds and loops.\<close> Every loop of the source runs over a finite list
  (\<open>range(8)\<close> or the buffer), so each is structural recursion (\<open>for_each\<close>)
  and needs no fuel; loops are shown equal to folds by \<open>for_each_fold\<close>.
  Python ints are \<open>int\<close>; buffer cells are \<open>8 word\<close> and every store truncates
  as MicroPython does.

  \<^bold>\<open>Not modelled.\<close> The \<open>pyb\<close> library has no code in the repository: the
  constructor \<open>pyb.I2C(...)\<close> is the parameter \<open>mk_i2c\<close> (assumed to succeed;
  an invalid bus number raising inside \<open>pyb\<close> is the platform's), and
  \<open>pyb.I2C.send\<close> is the transport interface, so the lemmas hold for every
  transport; clock speed and timeouts are the platform's. \<open>pyb.delay\<close> in the example scripts is timing only and is dropped
  (it changes no state the model has); \<open>pyb.rng()\<close> is an arbitrary stream of
  ints, so the theorems hold for every sequence of random values. Python leaves
  the iteration order of a set open;
  \<open>show_board\<close> uses the ascending order and C33 shows the order is irrelevant.
  The endless loops of the scripts are modelled by their passes (for every
  \<open>n\<close>, the first \<open>n\<close> passes complete: \<open>game_run\<close>, \<open>features_run\<close>) and, for
  the Game of Life, by the loop itself (\<open>game_forever\<close>). Apart from imports,
  blank lines and the class docstring, every line of \<open>src\<close> is translated.
  Of the HT16K33 only the commands the driver sends are modelled (no key
  scanning, no interrupt registers, no reads).
\<close>

subsection \<open>The same object on another transport\<close>

text \<open>The object with its I2C state replaced by \<open>t\<close>, of any type: the same
  attributes talking to another bus.\<close>

definition with_i2c :: "'u \<Rightarrow> 't matrix8x8 \<Rightarrow> 'u matrix8x8" where
  "with_i2c t m = \<lparr>blinking = blinking m, addr = addr m, buf = buf m, is_on = is_on m, i2c = t\<rparr>"

subsection \<open>Sessions on the recording bus\<close>

lemma init_log_bus:
  "init log_bus t a br =
     Ok \<lparr>blinking = 0, addr = a, buf = replicate 8 0, is_on = Some True,
         i2c = t @ [(a, Byte 0x21), (a, Byte (0xE0 OR br)), (a, Bytes (replicate 16 0)), (a, Byte 0x81)]\<rparr>"
  by (simp add: init_def send_i2c_log_bus set_brightness_def clear_eq on_def)

lemma init_log_protocol:
  assumes "in_range 0 15 br" "init log_bus [] a br = Ok m0"
  shows "addr m0 = a \<and>
         i2c m0 = map (\<lambda>c. (a, encode_cmd c)) [OscOn, Dimming (nat br), FrameWrite (replicate 8 0), DisplayOn 0]"
  using assms by (auto simp: init_log_bus in_range_def numeral_eq_Suc)

lemma run_log_protocol:
  assumes "wf_matrix m" "list_all valid_op ps" "for_each (exec log_bus) ps m = Ok m'"
  shows "\<exists>cs. list_all cmd_ok cs \<and> i2c m' = i2c m @ map (\<lambda>c. (addr m, encode_cmd c)) cs"
  using assms
proof (induction ps arbitrary: m)
  case Nil
  then show ?case by (intro exI [of _ "[]"]) simp
next
  case (Cons p ps)
  then obtain m1 where e: "exec log_bus p m = Ok m1" and r: "for_each (exec log_bus) ps m1 = Ok m'"
    by (cases "exec log_bus p m") (auto simp del: log_bus_Inr)
  have v: "valid_op p" "list_all valid_op ps" using Cons.prems(2) by simp_all
  have s: "sends m m1 (op_cmds m p)" by (rule exec_log_sends [OF Cons.prems(1) v(1) e])
  have a: "addr m1 = addr m" by (rule exec_addr [OF Cons.prems(1) e])
  obtain cs where "list_all cmd_ok cs" "i2c m' = i2c m1 @ map (\<lambda>c. (addr m1, encode_cmd c)) cs"
    using Cons.IH [OF exec_wf [OF Cons.prems(1) v(1) e] v(2) r] by blast
  with s a op_cmds_ok [OF Cons.prems(1) v(1)] show ?case
    by (intro exI [of _ "op_cmds m p @ cs"]) (simp add: sends_def)
qed

subsection \<open>End-to-end properties\<close>

text \<open>
  C23. The constructor issues its commands in the documented order, on the I2C
  object it was given or, without one, on the \<open>pyb.I2C\<close> it creates for
  \<open>i2c_bus\<close>: oscillator on (\<open>0x21\<close>), brightness (\<open>0xE0 | brightness\<close>), the
  16-byte all-dark frame of \<open>clear()\<close>, display on with blinking off (\<open>0x81\<close>);
  the object it returns has a zero 8-row buffer, \<open>is_on\<close> set and blink mode 0.
\<close>

theorem init_sequence:
  "matrix8x8_new log_bus mk_i2c i2c_bus a br i2c_arg =
     Ok \<lparr>blinking = 0, addr = a, buf = replicate 8 0, is_on = Some True,
         i2c = i2c_setup mk_i2c i2c_bus i2c_arg @
               [(a, Byte 0x21), (a, Byte (0xE0 OR br)), (a, Bytes (replicate 16 0)), (a, Byte 0x81)]\<rparr>"
  by (simp add: matrix8x8_new_def init_def send_i2c_log_bus set_brightness_def clear_eq on_def)

text \<open>
  C24. A failed send keeps the update. On a bus that raises \<open>e\<close> for every
  message, a call on an 8-row object makes exactly the changes to the buffer,
  \<open>is_on\<close> and \<open>_blinking\<close> it makes on a working bus (a method changes the
  object before it sends), and then raises \<open>e\<close> from \<open>_send\<close>, unless the call
  sends nothing (\<open>set_blinking\<close> while off), in which case it returns. The working
  bus is the recording one, started empty: \<open>m'\<close> is that run's result, and
  its log is empty exactly when nothing was sent.
\<close>

theorem failed_send_keeps_update:
  assumes "length (buf m) = 8" "\<forall>d. tr (i2c m) d (addr m) = Inl e"
    and "exec log_bus p (with_i2c [] m) = Ok m'"
  shows "exec tr p m = (if i2c m' = [] then Ok else Exc e) (with_i2c (i2c m) m')"
  using assms
  by (cases p)
     (auto simp: with_i2c_def driver_eqs send_i2c_def on_def off_def set_brightness_def clear_row_def
                 Let_def split: option.splits bool.splits if_splits)

theorem failed_send_keeps_update_witness:
  "exec (\<lambda>t d a. Inl OSError) (SetRow 2 0xFF)
     \<lparr>blinking = 0, addr = 0x70, buf = replicate 8 0, is_on = Some True, i2c = ()\<rparr> =
   Exc OSError \<lparr>blinking = 0, addr = 0x70, buf = (replicate 8 0)[2 := 0xFF], is_on = Some True, i2c = ()\<rparr>"
proof -
  let ?m = "\<lparr>blinking = 0, addr = 0x70, buf = replicate 8 0, is_on = Some True, i2c = ()\<rparr>"
  let ?m' = "\<lparr>blinking = 0, addr = 0x70, buf = (replicate 8 0)[2 := 0xFF], is_on = Some True,
              i2c = [(0x70::int, Bytes [4, word_of_int (rotate_right 255)])]\<rparr>"
  have len: "length (buf ?m) = 8" by simp
  have run: "exec log_bus (SetRow 2 0xFF) (with_i2c [] ?m) = Ok ?m'"
    by (simp add: with_i2c_def set_row_eq send_i2c_log_bus word_rotr_1_eval)
  have "exec (\<lambda>t d a. Inl OSError) (SetRow 2 0xFF) ?m =
        (if i2c ?m' = [] then Ok else Exc OSError) (with_i2c (i2c ?m) ?m')"
    by (rule failed_send_keeps_update [OF len _ run]) simp
  then show ?thesis by (simp add: with_i2c_def)
qed

text \<open>
  C25. A whole session on the recording bus speaks only the protocol: after
  \<open>Matrix8x8(addr=a, brightness=br)\<close> with a documented brightness and any
  sequence of calls with documented arguments, the bus has carried, all to
  address \<open>a\<close>, the four set-up commands (oscillator on, dimming \<open>br\<close>, the dark
  frame, display on) followed by well-formed commands of spec section 6 only.
\<close>

theorem session_trace_protocol:
  assumes "in_range 0 15 br" "list_all valid_op ps"
    and "init log_bus [] a br = Ok m0" "for_each (exec log_bus) ps m0 = Ok m"
  shows "\<exists>cs. list_all cmd_ok cs \<and>
           i2c m = map (\<lambda>c. (a, encode_cmd c))
                     ([OscOn, Dimming (nat br), FrameWrite (replicate 8 0), DisplayOn 0] @ cs)"
proof -
  have m0: "wf_matrix m0" "addr m0 = a"
    and log: "i2c m0 = map (\<lambda>c. (a, encode_cmd c)) [OscOn, Dimming (nat br), FrameWrite (replicate 8 0), DisplayOn 0]"
    using init_log_protocol [OF assms(1,3)] init_wf [OF assms(3)] by auto
  obtain cs where "list_all cmd_ok cs" "i2c m = i2c m0 @ map (\<lambda>c. (addr m0, encode_cmd c)) cs"
    using run_log_protocol [OF m0(1) assms(2,4)] by blast
  with m0(2) log show ?thesis by auto
qed

theorem session_trace_protocol_witness:
  "\<exists>m0 m. in_range 0 15 15 \<and> list_all valid_op [SetPixel 3 5, Off] \<and>
     init log_bus [] 0x70 15 = Ok m0 \<and> for_each (exec log_bus) [SetPixel 3 5, Off] m0 = Ok m \<and>
     (\<exists>cs. list_all cmd_ok cs \<and>
        i2c m = map (\<lambda>c. (0x70, encode_cmd c))
                  ([OscOn, Dimming (nat 15), FrameWrite (replicate 8 0), DisplayOn 0] @ cs))"
proof -
  have r: "in_range 0 15 (15::int)" "list_all valid_op [SetPixel 3 5, Off]" by (simp_all add: in_range_def)
  obtain m0 where i: "init log_bus [] 0x70 15 = Ok m0"
    by (simp add: init_log_bus)
  have "wf_matrix m0" by (rule init_wf [OF i])
  then have "length (buf m0) = 8" by (simp add: wf_matrix_def)
  then have "\<exists>m. for_each (exec log_bus) [SetPixel 3 5, Off] m0 = Ok m"
    by (simp add: set_pixel_eq send_i2c_log_bus off_def Let_def)
  then obtain m where f: "for_each (exec log_bus) [SetPixel 3 5, Off] m0 = Ok m" by blast
  show ?thesis using session_trace_protocol [OF r i f] i f r by blast
qed

end
